(* ===== verification/Prelude.thy ===== *)
theory Prelude
  imports Main "HOL-Library.Word"
begin

text \<open>
  Shared ground of the development: bytes and the host's integers, C strings inside
  buffers, and the few generic facts on lists the components share.

  The program is 32-bit Windows code built with MinGW's gcc: little endian, \<open>char\<close> is a
  signed byte, \<open>short\<close> has 16 bits, \<open>int\<close> and \<open>long\<close> 32. A \<open>short\<close> variable is a
  \<open>16 word\<close> whatever its signedness (\<open>sint\<close> and \<open>uint\<close> read it), \<open>ld16\<close> is what the
  host reads from two bytes of memory and \<open>st16\<close> what it stores there, so that a value
  that went through \<open>ntohs\<close> once too often is visible in the model.
\<close>

unbundle bit_operations_syntax

type_synonym byte = "8 word"
type_synonym u16 = "16 word"
type_synonym i32 = "32 word"

named_theorems wire_simps \<open>equations that run socket calls and relay sequences\<close>
named_theorems frame_simps \<open>what an operation leaves unchanged\<close>

section \<open>Bytes and host integers\<close>

definition ld16 :: "byte list \<Rightarrow> u16" where
  "ld16 bs = ucast (bs ! 0) OR push_bit 8 (ucast (bs ! 1))"

definition st16 :: "u16 \<Rightarrow> byte list" where
  "st16 w = [ucast w, ucast (drop_bit 8 w)]"

definition ntohs :: "u16 \<Rightarrow> u16" where
  "ntohs w = push_bit 8 w OR drop_bit 8 w"

definition htons :: "u16 \<Rightarrow> u16" where
  "htons w = push_bit 8 w OR drop_bit 8 w"

definition ld32 :: "byte list \<Rightarrow> i32" where
  "ld32 bs = ucast (bs ! 0) OR push_bit 8 (ucast (bs ! 1))
     OR push_bit 16 (ucast (bs ! 2)) OR push_bit 24 (ucast (bs ! 3))"

definition st32 :: "i32 \<Rightarrow> byte list" where
  "st32 w = [ucast w, ucast (drop_bit 8 w), ucast (drop_bit 16 w), ucast (drop_bit 24 w)]"

text \<open>A signed \<open>char\<close> used as a number, and C's division and remainder, which
  truncate to zero.\<close>

definition schar :: "byte \<Rightarrow> int" where
  "schar b = sint b"

definition cdiv :: "int \<Rightarrow> int \<Rightarrow> int" where
  "cdiv a b = sgn a * sgn b * (\<bar>a\<bar> div \<bar>b\<bar>)"

definition crem :: "int \<Rightarrow> int \<Rightarrow> int" where
  "crem a b = a - b * cdiv a b"

lemma length_st16 [simp]: "length (st16 w) = 2"
  by (simp add: st16_def)

lemma length_st32 [simp]: "length (st32 w) = 4"
  by (simp add: st32_def)

lemma ld16_st16 [simp]: "ld16 (st16 w) = w"
  unfolding ld16_def st16_def
  by (rule bit_word_eqI) (auto simp: bit_simps)

lemma ld16_st16_append [simp]: "ld16 (st16 w @ bs) = w"
  using ld16_st16 [of w] by (simp add: ld16_def st16_def)

lemma st16_ld16 [simp]: "length bs = 2 \<Longrightarrow> st16 (ld16 bs) = bs"
proof -
  assume "length bs = 2"
  then obtain a b where bs: "bs = [a, b]"
    by (auto simp: numeral_2_eq_2 length_Suc_conv)
  have "ucast (ucast a OR push_bit 8 (ucast b) :: u16) = a"
    by (rule bit_word_eqI) (auto simp: bit_simps)
  moreover have "ucast (drop_bit 8 (ucast a OR push_bit 8 (ucast b) :: u16)) = b"
    by (rule bit_word_eqI) (auto simp: bit_simps dest: bit_imp_le_length)
  ultimately show ?thesis by (simp add: bs ld16_def st16_def)
qed

lemma st32_ld32 [simp]: "length bs = 4 \<Longrightarrow> st32 (ld32 bs) = bs"
proof -
  assume "length bs = 4"
  then obtain a b c d where bs: "bs = [a, b, c, d]"
    by (auto simp: numeral_eq_Suc length_Suc_conv)
  let ?w = "ucast a OR push_bit 8 (ucast b) OR push_bit 16 (ucast c) OR push_bit 24 (ucast d) :: i32"
  have "ucast ?w = a"
    by (rule bit_word_eqI) (auto simp: bit_simps)
  moreover have "ucast (drop_bit 8 ?w) = b"
    by (rule bit_word_eqI) (auto simp: bit_simps dest: bit_imp_le_length)
  moreover have "ucast (drop_bit 16 ?w) = c"
    by (rule bit_word_eqI) (auto simp: bit_simps dest: bit_imp_le_length)
  moreover have "ucast (drop_bit 24 ?w) = d"
    by (rule bit_word_eqI) (auto simp: bit_simps dest: bit_imp_le_length)
  ultimately show ?thesis by (simp add: bs ld32_def st32_def)
qed

lemma ntohs_ntohs [simp]: "ntohs (ntohs w) = w"
  unfolding ntohs_def by (rule bit_word_eqI) (auto simp: bit_simps)

lemma htons_ntohs_eq: "htons = ntohs"
  by (simp add: fun_eq_iff htons_def ntohs_def)

lemma htons_ntohs [simp]: "htons (ntohs w) = w"
  by (simp add: htons_ntohs_eq)

lemma ntohs_htons [simp]: "ntohs (htons w) = w"
  by (simp add: htons_ntohs_eq)

lemma st16_ntohs: "st16 (ntohs w) = rev (st16 w)"
proof -
  have "ucast (push_bit 8 w OR drop_bit 8 w) = (ucast (drop_bit 8 w) :: byte)"
    by (rule bit_word_eqI) (auto simp: bit_simps)
  moreover have "ucast (drop_bit 8 (push_bit 8 w OR drop_bit 8 w)) = (ucast w :: byte)"
    by (rule bit_word_eqI) (auto simp: bit_simps dest: bit_imp_le_length)
  ultimately show ?thesis by (simp add: st16_def ntohs_def)
qed

lemma st16_htons: "st16 (htons w) = rev (st16 w)"
  by (simp add: htons_ntohs_eq st16_ntohs)

lemma st16_inject: "st16 v = st16 w \<longleftrightarrow> v = w"
  using ld16_st16 by metis

section \<open>Buffers\<close>

text \<open>\<open>put_at i xs buf\<close>: the bytes \<open>xs\<close> written into \<open>buf\<close> from index \<open>i\<close> on.\<close>

definition put_at :: "nat \<Rightarrow> 'a list \<Rightarrow> 'a list \<Rightarrow> 'a list" where
  "put_at i xs buf = take i buf @ xs @ drop (i + length xs) buf"

lemma length_put_at [simp]: "i + length xs \<le> length buf \<Longrightarrow> length (put_at i xs buf) = length buf"
  by (simp add: put_at_def)

lemma take_put_at [simp]: "i \<le> length buf \<Longrightarrow> take i (put_at i xs buf) = take i buf"
  by (simp add: put_at_def)

lemma put_at_0: "put_at 0 xs buf = xs @ drop (length xs) buf"
  by (simp add: put_at_def)

section \<open>Lists\<close>

fun chop :: "nat list \<Rightarrow> 'a list \<Rightarrow> 'a list list" where
  "chop [] xs = []"
| "chop (n # ns) xs = take n xs # chop ns (drop n xs)"

lemma length_chop [simp]: "length (chop ns xs) = length ns"
  by (induction ns xs rule: chop.induct) auto

lemma concat_chop [simp]: "concat (chop ns xs) = take (sum_list ns) xs"
  by (induction ns xs rule: chop.induct) (auto simp: take_add)

lemma takeWhile_append_stop:
  "\<forall>x \<in> set xs. P x \<Longrightarrow> \<not> P y \<Longrightarrow> takeWhile P (xs @ y # ys) = xs"
  by (induction xs) auto

lemma takeWhile_replicate_zero [simp]:
  "takeWhile (\<lambda>b. b \<noteq> 0) (xs @ replicate n 0) = takeWhile (\<lambda>b. b \<noteq> 0) xs"
  by (induction xs) (simp_all add: takeWhile_eq_Nil_iff)

end
