(* ===== verification/CStrings.thy ===== *)
theory CStrings
  imports Prelude
begin

text \<open>
  The C string functions the program uses, on byte lists, and the string helpers of
  \<open>src/helper.c\<close>. A buffer is the list of its bytes; the C string it holds is \<open>cstr\<close>,
  the bytes before the first NUL. A function that writes into a buffer takes the buffer's
  old contents and returns the new ones, so that bytes it forgets to write stay visible.
\<close>

section \<open>The C library\<close>

definition lit :: "string \<Rightarrow> byte list" where
  "lit cs = map of_char cs"

definition cstr :: "byte list \<Rightarrow> byte list" where
  "cstr buf = takeWhile (\<lambda>b. b \<noteq> 0) buf"

definition strcmp0 :: "byte list \<Rightarrow> byte list \<Rightarrow> bool" where
  \<comment> \<open>\<open>strcmp(a, b) == 0\<close>\<close>
  "strcmp0 a b \<longleftrightarrow> cstr a = cstr b"

definition strncpy :: "nat \<Rightarrow> byte list \<Rightarrow> byte list" where
  \<comment> \<open>the \<open>n\<close> bytes \<open>strncpy\<close> writes: the string, then NULs\<close>
  "strncpy n src = take n (cstr src @ replicate n 0)"

definition tolower :: "byte \<Rightarrow> byte" where
  "tolower c = (if 65 \<le> c \<and> c \<le> 90 then c + 32 else c)"

fun starts_with :: "byte list \<Rightarrow> byte list \<Rightarrow> bool" where
  "starts_with [] t = True"
| "starts_with (p # ps) [] = False"
| "starts_with (p # ps) (x # xs) = (p = x \<and> starts_with ps xs)"

fun occurs :: "byte list \<Rightarrow> byte list \<Rightarrow> bool" where
  "occurs p [] = (p = [])"
| "occurs p (x # xs) = (starts_with p (x # xs) \<or> occurs p xs)"

definition strstr :: "byte list \<Rightarrow> byte list \<Rightarrow> bool" where
  \<comment> \<open>\<open>strstr(hay, needle) != NULL\<close>\<close>
  "strstr hay needle = occurs (cstr needle) (cstr hay)"

text \<open>The tokens that successive calls of \<open>strtok(_, " ")\<close> return.\<close>

function tokens :: "byte list \<Rightarrow> byte list list" where
  "tokens s = (let t = dropWhile (\<lambda>b. b = 32) s in
     if t = [] then []
     else takeWhile (\<lambda>b. b \<noteq> 32) t # tokens (dropWhile (\<lambda>b. b \<noteq> 32) t))"
  by pat_completeness auto
termination
proof (relation "measure length", simp)
  fix s t :: "byte list"
  assume t: "t = dropWhile (\<lambda>b. b = 32) s" and "t \<noteq> []"
  from \<open>t \<noteq> []\<close> obtain c r where c: "t = c # r" by (cases t) simp_all
  have "c \<noteq> 32" using c t hd_dropWhile [of "\<lambda>b. b = 32" s] by auto
  moreover have "length (dropWhile (\<lambda>b. b \<noteq> 32) r) \<le> length r"
    by (rule length_dropWhile_le)
  moreover have "length t \<le> length s" unfolding t by (rule length_dropWhile_le)
  ultimately show "(dropWhile (\<lambda>b. b \<noteq> 32) t, s) \<in> measure length"
    by (simp add: c)
qed

declare tokens.simps [simp del]

lemma tokens_Nil [simp]: "tokens [] = []"
  by (simp add: tokens.simps)

lemma tokens_word:
  assumes "w \<noteq> []" "32 \<notin> set w"
  shows "tokens w = [w]" "tokens (w @ 32 # v) = w # tokens v"
proof -
  from assms obtain c r where w: "w = c # r" "c \<noteq> 32" by (cases w) auto
  have d: "dropWhile (\<lambda>b. b = 32) (w @ v') = w @ v'" for v' by (simp add: w)
  have keep: "\<forall>b \<in> set w. b \<noteq> 32" using assms(2) by auto
  then have all: "takeWhile (\<lambda>b. b \<noteq> 32) w = w" "dropWhile (\<lambda>b. b \<noteq> 32) w = []"
    by (simp_all add: takeWhile_eq_all_conv)
  show "tokens w = [w]" using d [of "[]"] assms(1) by (simp add: tokens.simps [of w] all)
  have "takeWhile (\<lambda>b. b \<noteq> 32) (w @ 32 # v) = w" "dropWhile (\<lambda>b. b \<noteq> 32) (w @ 32 # v) = 32 # v"
    using keep by (simp_all add: takeWhile_append dropWhile_append)
  moreover have "tokens (32 # v) = tokens v"
    by (simp add: tokens.simps [of "32 # v"] tokens.simps [of v])
  ultimately show "tokens (w @ 32 # v) = w # tokens v"
    using d [of "32 # v"] by (simp add: tokens.simps [of "w @ 32 # v"])
qed

text \<open>\<open>atoi\<close> and the decimal a \<open>%d\<close> prints.\<close>

definition digit :: "byte \<Rightarrow> bool" where
  "digit c \<longleftrightarrow> 48 \<le> c \<and> c \<le> 57"

definition digits_val :: "byte list \<Rightarrow> int" where
  "digits_val ds = foldl (\<lambda>n c. 10 * n + (uint c - 48)) 0 ds"

definition atoi :: "byte list \<Rightarrow> int" where
  "atoi s = (case dropWhile (\<lambda>c. c = 32 \<or> (9 \<le> c \<and> c \<le> 13)) (cstr s) of
      [] \<Rightarrow> 0
    | c # r \<Rightarrow>
        if c = 45 then - digits_val (takeWhile digit r)
        else if c = 43 then digits_val (takeWhile digit r)
        else digits_val (takeWhile digit (c # r)))"

fun dec_nat :: "nat \<Rightarrow> byte list" where
  "dec_nat n = (if n < 10 then [of_nat (48 + n)]
     else dec_nat (n div 10) @ [of_nat (48 + n mod 10)])"

declare dec_nat.simps [simp del]

definition dec :: "int \<Rightarrow> byte list" where
  "dec i = (if i < 0 then 45 # dec_nat (nat (- i)) else dec_nat (nat i))"

section \<open>helper.c\<close>

definition toMCString :: "byte list \<Rightarrow> byte list" where
  \<comment> \<open>\<open>memset(destination, ' ', 64)\<close>, then \<open>strncpy\<close> of at most 64 characters\<close>
  "toMCString source =
     (let len = min (length (cstr source)) 64
      in put_at 0 (take len (cstr source)) (replicate 64 32))"

text \<open>
  The same function on a store of bytes, for the call whose two arguments are the same
  array (\<open>toMCString(msg, msg)\<close> in \<open>mcConnect\<close>). \<open>strlen\<close> matters up to 64 only.
\<close>

definition toMCString_mem :: "nat \<Rightarrow> nat \<Rightarrow> (nat \<Rightarrow> byte) \<Rightarrow> (nat \<Rightarrow> byte)" where
  "toMCString_mem destination source m =
     (let m1 = (\<lambda>a. if destination \<le> a \<and> a < destination + 64 then 32 else m a);
          len = length (cstr (map m1 [source ..< source + 64]))
      in (\<lambda>a. if destination \<le> a \<and> a < destination + len
               then m1 (source + (a - destination)) else m1 a))"

definition strLower :: "byte list \<Rightarrow> byte list \<Rightarrow> byte list" where
  \<comment> \<open>no terminating NUL is written\<close>
  "strLower destination source = put_at 0 (map tolower (cstr source)) destination"

fun nullTerm_loop :: "nat \<Rightarrow> nat \<Rightarrow> byte list \<Rightarrow> byte list" where
  "nullTerm_loop 0 i source = source"
| "nullTerm_loop (Suc k) i source =
     (if Suc i < length source \<and> source ! i = 32 \<and> source ! Suc i = 32
      then source[i := 0] else nullTerm_loop k (Suc i) source)"

definition nullTerm :: "byte list \<Rightarrow> byte list" where
  "nullTerm source = nullTerm_loop (length (cstr source)) 0 source"

text \<open>
  \<open>cleanString\<close>: \<open>nxt\<close> is the byte behind the 64 of \<open>source\<close>, which the first loop reads
  when the last byte is a space. \<open>size\<close> stays 0 when there are no two spaces in a row.
\<close>

fun clean_size_loop :: "nat \<Rightarrow> nat \<Rightarrow> byte list \<Rightarrow> nat" where
  "clean_size_loop 0 i source = 0"
| "clean_size_loop (Suc k) i source =
     (if source ! i = 32 \<and> source ! Suc i = 32 then i
      else clean_size_loop k (Suc i) source)"

definition clean_size :: "byte list \<Rightarrow> byte \<Rightarrow> nat" where
  "clean_size source nxt = clean_size_loop 64 0 (source @ [nxt])"

fun strip_colour :: "byte list \<Rightarrow> byte list" where
  "strip_colour [] = []"
| "strip_colour [c] = (if c = 38 then [] else [c])"
| "strip_colour (c # d # r) = (if c = 38 then strip_colour r else c # strip_colour (d # r))"

definition cleanString :: "byte list \<Rightarrow> byte list \<Rightarrow> byte \<Rightarrow> byte list" where
  "cleanString destination source nxt =
     (let size = clean_size source nxt
      in (put_at 0 (strip_colour (take size source)) destination)[size := 0])"

text \<open>
  \<open>strEqual\<close>: \<open>j1\<close> and \<open>j2\<close> are what the two 256-byte stack buffers hold on entry.
\<close>

definition strEqual :: "byte list \<Rightarrow> byte list \<Rightarrow> byte list \<Rightarrow> byte list \<Rightarrow> bool \<Rightarrow> bool" where
  "strEqual j1 j2 equals str caseSensitive =
     (let equalTo = (if caseSensitive then put_at 0 (cstr equals @ [0]) j1 else strLower j1 equals);
          str2 = (if caseSensitive then put_at 0 (cstr str @ [0]) j2 else strLower j2 str)
      in list_all (\<lambda>i. str2 ! i = equalTo ! i) [0 ..< length (cstr equalTo)])"

definition lavaCuck :: "byte list \<Rightarrow> byte list \<Rightarrow> byte list" where
  \<comment> \<open>the loop bound \<open>size\<close> is 0 and never set\<close>
  "lavaCuck destination source =
     (let size = 0
      in fold (\<lambda>i d. d[i := (if source ! i = 45 then 43 else source ! i)]) [0 ..< size] destination)"

section \<open>Facts about the string helpers\<close>

lemma cstr_Nil [simp]: "cstr [] = []"
  by (simp add: cstr_def)

lemma cstr_Cons [simp]: "cstr (c # r) = (if c = 0 then [] else c # cstr r)"
  by (simp add: cstr_def)

lemma no_nul_cstr: "0 \<notin> set (cstr s)"
  by (auto simp: cstr_def dest: set_takeWhileD)

lemma cstr_no_nul: "0 \<notin> set s \<Longrightarrow> cstr s = s"
  by (induction s) auto

lemma cstr_append: "cstr (xs @ ys) = (if 0 \<in> set xs then cstr xs else xs @ cstr ys)"
  by (induction xs) auto

lemma cstr_cstr [simp]: "cstr (cstr s) = cstr s"
  by (rule cstr_no_nul [OF no_nul_cstr])

lemma cstr_append_nul [simp]: "cstr (cstr s @ 0 # r) = cstr s"
  by (simp add: cstr_append no_nul_cstr)

lemma length_cstr_le: "length (cstr s) \<le> length s"
  by (simp add: cstr_def length_takeWhile_le)

lemma length_toMCString [simp]: "length (toMCString s) = 64"
  by (simp add: toMCString_def Let_def put_at_0)

lemma toMCString_eq:
  "toMCString s = take 64 (cstr s) @ replicate (64 - length (cstr s)) 32"
  by (simp add: toMCString_def Let_def put_at_0 min_def)

lemma no_nul_toMCString: "0 \<notin> set (toMCString s)"
  using no_nul_cstr [of s] by (auto simp: toMCString_eq dest: in_set_takeD)

lemma toMCString_id: "length s = 64 \<Longrightarrow> 0 \<notin> set s \<Longrightarrow> toMCString s = s"
  by (simp add: toMCString_eq cstr_no_nul)

lemma toMCString_toMCString [simp]: "toMCString (toMCString s) = toMCString s"
  by (rule toMCString_id) (simp_all add: no_nul_toMCString)

lemma toMCString_append_prefix [simp]: "toMCString (toMCString s @ r) = toMCString s"
  by (simp add: toMCString_eq [of "toMCString s @ r"] cstr_append no_nul_toMCString)

lemma length_strncpy [simp]: "length (strncpy n s) = n"
  by (simp add: strncpy_def)

lemma lavaCuck_does_nothing: "lavaCuck d s = d"
  by (simp add: lavaCuck_def)

text \<open>The size loop finds the first pair of spaces.\<close>

lemma clean_size_loop_found:
  assumes "source ! n = 32" "source ! Suc n = 32" "i \<le> n" "n < i + k"
    and "\<And>m. i \<le> m \<Longrightarrow> m < n \<Longrightarrow> \<not> (source ! m = 32 \<and> source ! Suc m = 32)"
  shows "clean_size_loop k i source = n"
  using assms
proof (induction k i source rule: clean_size_loop.induct)
  case (1 i source)
  then show ?case by simp
next
  case (2 k i source)
  show ?case
  proof (cases "i = n")
    case True
    with 2 show ?thesis by simp
  next
    case False
    with "2.prems" have "Suc i \<le> n" by simp
    moreover have "\<not> (source ! i = 32 \<and> source ! Suc i = 32)"
      using "2.prems" False by auto
    ultimately show ?thesis using 2 by auto
  qed
qed

lemma clean_size_loop_none:
  "\<forall>m. i \<le> m \<and> m < i + k \<longrightarrow> \<not> (source ! m = 32 \<and> source ! Suc m = 32)
   \<Longrightarrow> clean_size_loop k i source = 0"
  by (induction k i source rule: clean_size_loop.induct) auto

lemma clean_size_loop_bound: "clean_size_loop k i source < i + k \<or> clean_size_loop k i source = 0"
  by (induction k i source rule: clean_size_loop.induct) auto

lemma clean_size_less: "clean_size source nxt < 64"
  using clean_size_loop_bound [of 64 0 "source @ [nxt]"] by (auto simp: clean_size_def)

lemma length_strip_colour: "length (strip_colour s) \<le> length s"
  by (induction s rule: strip_colour.induct) auto

lemma strip_colour_id: "38 \<notin> set s \<Longrightarrow> strip_colour s = s"
  by (induction s rule: strip_colour.induct) auto

lemma set_strip_colour: "set (strip_colour s) \<subseteq> set s"
  by (induction s rule: strip_colour.induct) auto

lemma length_cleanString [simp]:
  "length source = 64 \<Longrightarrow> length destination = 64 \<Longrightarrow> length (cleanString destination source nxt) = 64"
  using clean_size_less [of source nxt]
    length_strip_colour [of "take (clean_size source nxt) source"]
  by (simp add: cleanString_def Let_def)

text \<open>A message without two spaces in a row that does not end in a space.\<close>

definition single_spaced :: "byte list \<Rightarrow> bool" where
  "single_spaced m \<longleftrightarrow> (m = [] \<or> last m \<noteq> 32)
     \<and> list_all (\<lambda>i. \<not> (m ! i = 32 \<and> m ! Suc i = 32)) [0 ..< length m - 1]"

lemma single_spaced_Cons:
  "m \<noteq> [] \<Longrightarrow> single_spaced (a # m) \<longleftrightarrow> \<not> (a = 32 \<and> hd m = 32) \<and> single_spaced m"
proof -
  assume "m \<noteq> []"
  then obtain b r where m: "m = b # r" by (cases m) auto
  have "[0 ..< Suc (length r)] = 0 # map Suc [0 ..< length r]"
    by (simp add: upt_conv_Cons map_Suc_upt del: upt_Suc)
  then show ?thesis by (simp add: single_spaced_def m list.pred_map comp_def del: upt_Suc) auto
qed

lemma single_spaced_word: "32 \<notin> set m \<Longrightarrow> single_spaced m"
proof (induction m)
  case (Cons a m)
  then show ?case by (cases "m = []") (auto simp: single_spaced_Cons, simp add: single_spaced_def)
qed (simp add: single_spaced_def)

lemma clean_size_padded:
  assumes m: "single_spaced m" and len: "length m \<le> 62"
  shows "clean_size (m @ replicate (64 - length m) 32) nxt = length m"
  unfolding clean_size_def
proof (rule clean_size_loop_found)
  let ?s = "(m @ replicate (64 - length m) 32) @ [nxt]"
  show "?s ! length m = 32" "?s ! Suc (length m) = 32"
    using len by (auto simp: nth_append)
  fix k assume k: "k < length m"
  show "\<not> (?s ! k = 32 \<and> ?s ! Suc k = 32)"
  proof (cases "Suc k = length m")
    case True
    then have ne: "m \<noteq> []" by auto
    have "m ! k = last m" unfolding last_conv_nth [OF ne] True [symmetric] by simp
    with m ne k show ?thesis by (auto simp: single_spaced_def nth_append)
  next
    case False
    with k have "k < length m - 1" by simp
    with m have "\<not> (m ! k = 32 \<and> m ! Suc k = 32)"
      by (simp add: single_spaced_def list_all_iff)
    with k False show ?thesis by (simp add: nth_append)
  qed
qed (use len in simp_all)

text \<open>
  What \<open>cleanString\<close> leaves: the stripped text, then whatever the destination held in the
  positions the colour codes would have filled, then the NUL.
\<close>

lemma cstr_take_nul: "n < length xs \<Longrightarrow> cstr (xs[n := 0]) = cstr (take n xs)"
proof -
  assume n: "n < length xs"
  then have "xs[n := 0] = take n xs @ 0 # drop (Suc n) xs" by (rule upd_conv_take_nth_drop)
  then show ?thesis by (simp add: cstr_append cstr_no_nul)
qed

lemma cleanString_padded:
  assumes "single_spaced m" "length m \<le> 62" "0 \<notin> set m" "length d = 64"
  shows "cstr (cleanString d (toMCString m) nxt)
    = cstr (strip_colour m @ drop (length (strip_colour m)) (take (length m) d))"
proof -
  have src: "toMCString m = m @ replicate (64 - length m) 32"
    using assms by (simp add: toMCString_eq cstr_no_nul)
  have size: "clean_size (toMCString m) nxt = length m"
    unfolding src by (rule clean_size_padded) (use assms in auto)
  have le: "length (strip_colour m) \<le> length m" by (rule length_strip_colour)
  have "cleanString d (toMCString m) nxt = (put_at 0 (strip_colour m) d)[length m := 0]"
    by (simp add: cleanString_def Let_def size) (simp add: src)
  moreover have "take (length m) (put_at 0 (strip_colour m) d)
      = strip_colour m @ drop (length (strip_colour m)) (take (length m) d)"
    using le by (simp add: put_at_0 drop_take)
  moreover have "length m < length (put_at 0 (strip_colour m) d)"
    using assms le by simp
  ultimately show ?thesis by (simp add: cstr_take_nul)
qed

text \<open>\<open>strEqual\<close> with case: a prefix test, whatever the two stack buffers held.\<close>

lemma starts_with_iff: "starts_with p t \<longleftrightarrow> length p \<le> length t \<and> take (length p) t = p"
  by (induction p t rule: starts_with.induct) auto

lemma starts_with_nth:
  "starts_with p t \<longleftrightarrow> length p \<le> length t \<and> (\<forall>i < length p. t ! i = p ! i)"
  by (auto simp: starts_with_iff list_eq_iff_nth_eq)

lemma nul_terminated_prefix:
  assumes p: "0 \<notin> set p" and t: "0 \<notin> set t"
  shows "list_all (\<lambda>i. (t @ 0 # r) ! i = (p @ q) ! i) [0 ..< length p] \<longleftrightarrow> starts_with p t"
proof
  assume "list_all (\<lambda>i. (t @ 0 # r) ! i = (p @ q) ! i) [0 ..< length p]"
  then have eq: "(t @ 0 # r) ! i = p ! i" if "i < length p" for i
    using that by (simp add: list_all_iff nth_append)
  have "length p \<le> length t"
  proof (rule ccontr)
    assume less: "\<not> length p \<le> length t"
    then have "p ! length t = 0" using eq [of "length t"] by simp
    then show False using p less by (metis not_le nth_mem)
  qed
  with eq show "starts_with p t" by (auto simp: starts_with_nth nth_append)
next
  assume "starts_with p t"
  then show "list_all (\<lambda>i. (t @ 0 # r) ! i = (p @ q) ! i) [0 ..< length p]"
    by (auto simp: starts_with_nth nth_append list_all_iff)
qed

lemma strEqual_prefix:
  "strEqual j1 j2 equals str True = starts_with (cstr equals) (cstr str)"
  by (simp add: strEqual_def Let_def put_at_0 nul_terminated_prefix no_nul_cstr)

text \<open>
  Without case the copies have no NUL of their own: the test is the prefix test only when
  the stack happens to hold a NUL right behind each copy.
\<close>

lemma tolower_nonzero [simp]: "c \<noteq> 0 \<Longrightarrow> tolower c \<noteq> 0"
proof -
  have "c + 32 \<noteq> 0" if "c \<le> 90" for c :: byte
  proof
    assume "c + 32 = 0"
    then have "c = - 32" by (simp add: eq_neg_iff_add_eq_0)
    with that show False by simp
  qed
  then show "c \<noteq> 0 \<Longrightarrow> tolower c \<noteq> 0" by (simp add: tolower_def)
qed

lemma no_nul_map_tolower: "0 \<notin> set (map tolower (cstr s))"
  using no_nul_cstr [of s] tolower_nonzero by (metis (no_types, lifting) imageE set_map)

lemma strLower_nul:
  assumes "length (cstr s) < length j" "j ! length (cstr s) = 0"
  shows "strLower j s = map tolower (cstr s) @ 0 # drop (Suc (length (cstr s))) j"
  using assms by (simp add: strLower_def put_at_0 Cons_nth_drop_Suc [symmetric])

lemma strEqual_no_case:
  assumes "length (cstr equals) < length j1" "j1 ! length (cstr equals) = 0"
    and "length (cstr str) < length j2" "j2 ! length (cstr str) = 0"
  shows "strEqual j1 j2 equals str False
    = starts_with (map tolower (cstr equals)) (map tolower (cstr str))"
proof -
  have "cstr (map tolower (cstr equals) @ 0 # r) = map tolower (cstr equals)" for r
    by (simp only: cstr_append no_nul_map_tolower if_False cstr_Cons) simp
  then show ?thesis using assms
    nul_terminated_prefix [OF no_nul_map_tolower no_nul_map_tolower, of str _ equals]
    by (simp add: strEqual_def Let_def strLower_nul)
qed

end
