(* ===== verification/Wire.thy ===== *)
theory Wire
  imports CStrings
begin

text \<open>
  Sockets. What a peer will ever send on a connection is a list of segments and how it
  ends; one \<open>recv\<close> returns bytes of one segment only. What the other direction takes is a
  schedule: how many bytes each \<open>send\<close> accepts. The wrappers \<open>recvW\<close> and \<open>sendW\<close> of
  \<open>src/helper.c\<close> loop over these single calls.
\<close>

section \<open>One call of recv, one call of send\<close>

datatype ending = Closed | Failed

fun recv1 :: "ending \<Rightarrow> nat \<Rightarrow> byte list list \<Rightarrow> int \<times> byte list \<times> byte list list" where
  "recv1 e n [] = (case e of Closed \<Rightarrow> 0 | Failed \<Rightarrow> - 1, [], [])"
| "recv1 e n ([] # ss) = recv1 e n ss"
| "recv1 e n ((b # bs) # ss) =
     (int (min n (length (b # bs))), take n (b # bs),
      if n < length (b # bs) then drop n (b # bs) # ss else ss)"

datatype send_ret = Accept nat | SendErr

fun send1 :: "byte list \<Rightarrow> send_ret list \<Rightarrow> int \<times> byte list \<times> send_ret list" where
  "send1 bs [] = (int (length bs), bs, [])"
| "send1 bs (Accept k # sched) = (int (min k (length bs)), take k bs, sched)"
| "send1 bs (SendErr # sched) = (- 1, [], sched)"

lemma recv1_progress:
  "recv1 e n ss = (r, g, ss') \<Longrightarrow> 0 < r \<Longrightarrow> r = int (length g) \<and> g \<noteq> []"
  by (induction e n ss rule: recv1.induct) (auto split: ending.splits if_splits)

lemma send1_progress: "send1 bs sched = (r, g, sched') \<Longrightarrow> 0 < r \<Longrightarrow> nat r \<le> length bs"
  by (induction bs sched rule: send1.induct) auto

section \<open>The wrappers of helper.c\<close>

text \<open>\<open>acc\<close> is what is in the buffer so far, so \<open>bytes_so_far\<close> is its length.\<close>

function recvW_loop :: "ending \<Rightarrow> nat \<Rightarrow> byte list \<Rightarrow> byte list list
    \<Rightarrow> int \<times> byte list \<times> byte list list" where
  "recvW_loop e sz acc ss =
     (if length acc < sz then
        (let (return_value, got, ss') = recv1 e (sz - length acc) ss
         in if return_value < 0 then (- 1, acc, ss')
            else if return_value = 0 then (int (length acc), acc, ss')
            else recvW_loop e sz (acc @ got) ss')
      else (int (length acc), acc, ss))"
  by pat_completeness auto
termination
proof (relation "measure (\<lambda>(e, sz, acc, ss). sz - length acc)", simp)
  fix e :: ending and sz :: nat and acc got :: "byte list" and ss ss' :: "byte list list"
    and x y and return_value :: int
  assume "length acc < sz" "x = recv1 e (sz - length acc) ss" "(return_value, y) = x"
    "(got, ss') = y" "\<not> return_value < 0" "return_value \<noteq> 0"
  then have "got \<noteq> []" using recv1_progress [of e "sz - length acc" ss return_value got ss'] by auto
  with \<open>length acc < sz\<close>
  show "((e, sz, acc @ got, ss'), (e, sz, acc, ss)) \<in> measure (\<lambda>(e, sz, acc, ss). sz - length acc)"
    by (cases got) auto
qed

function sendW_loop :: "byte list \<Rightarrow> nat \<Rightarrow> byte list \<Rightarrow> send_ret list
    \<Rightarrow> int \<times> byte list \<times> send_ret list" where
  "sendW_loop buffer so_far out sched =
     (if so_far < length buffer then
        (let (return_value, taken, sched') = send1 (drop so_far buffer) sched
         in if return_value < 0 then (- 1, out @ taken, sched')
            else if return_value = 0 then (int so_far, out @ taken, sched')
            else sendW_loop buffer (so_far + nat return_value) (out @ taken) sched')
      else (int so_far, out, sched))"
  by pat_completeness auto
termination
  by (relation "measure (\<lambda>(buffer, so_far, out, sched). length buffer - so_far)") auto

declare recvW_loop.simps [simp del] sendW_loop.simps [simp del]

section \<open>What the wrappers do\<close>

text \<open>\<open>skip n ss\<close>: the segments that are left when \<open>n\<close> bytes have been read.\<close>

fun skip :: "nat \<Rightarrow> byte list list \<Rightarrow> byte list list" where
  "skip n [] = []"
| "skip n (b # ss) =
     (if n = 0 then b # ss
      else if n < length b then drop n b # ss
      else skip (n - length b) ss)"

lemma skip_0 [simp]: "skip 0 ss = ss"
  by (cases ss) auto

lemma concat_skip [simp]: "concat (skip n ss) = drop n (concat ss)"
  by (induction n ss rule: skip.induct) auto

lemma skip_skip [simp]: "skip m (skip n ss) = skip (n + m) ss"
  by (induction n ss arbitrary: m rule: skip.induct) (auto simp: add.commute)

lemma length_skip: "length (skip n ss) \<le> length ss"
  by (induction n ss rule: skip.induct) auto

text \<open>One \<open>recv\<close> of \<open>n\<close> bytes: the first segment decides how many come.\<close>

lemma recv1_some:
  assumes "concat ss \<noteq> []" "0 < n"
  obtains g where "recv1 e n ss = (int (length g), g, skip (length g) ss)"
    and "g \<noteq> []" and "length g \<le> n" and "g = take (length g) (concat ss)"
  using assms
proof (induction e n ss arbitrary: thesis rule: recv1.induct)
  case (3 e n b bs ss)
  let ?g = "take n (b # bs)"
  have "recv1 e n ((b # bs) # ss) = (int (length ?g), ?g, skip (length ?g) ((b # bs) # ss))"
    using "3.prems"(3) by auto
  moreover have "?g \<noteq> []" using "3.prems"(3) by simp
  moreover have "length ?g \<le> n" by simp
  moreover have "?g = take (length ?g) (concat ((b # bs) # ss))"
  proof -
    have "concat ((b # bs) # ss) = ?g @ drop n (b # bs) @ concat ss"
      by (simp only: concat.simps append_assoc [symmetric] append_take_drop_id)
    then show ?thesis by (metis append_eq_conv_conj)
  qed
  ultimately show ?case by (rule "3.prems"(1))
qed auto

lemma recv1_end: "concat ss = [] \<Longrightarrow> recv1 e n ss = (case e of Closed \<Rightarrow> 0 | Failed \<Rightarrow> - 1, [], [])"
  by (induction e n ss rule: recv1.induct) auto

lemma recvW_loop_all:
  "length acc \<le> sz \<Longrightarrow> sz - length acc \<le> length (concat ss) \<Longrightarrow>
   recvW_loop e sz acc ss
     = (int sz, acc @ take (sz - length acc) (concat ss), skip (sz - length acc) ss)"
proof (induction "sz - length acc" arbitrary: acc ss rule: less_induct)
  case less
  show ?case
  proof (cases "length acc < sz")
    case False
    with less.prems show ?thesis by (simp add: recvW_loop.simps)
  next
    case True
    let ?n = "sz - length acc"
    from True have "0 < ?n" by simp
    with less.prems have "concat ss \<noteq> []" by (metis length_greater_0_conv less_le_trans)
    from this \<open>0 < ?n\<close> obtain g where g: "recv1 e ?n ss = (int (length g), g, skip (length g) ss)"
      "g \<noteq> []" "length g \<le> ?n" "g = take (length g) (concat ss)"
      by (rule recv1_some)
    from g(2) True have lg: "sz - length (acc @ g) < sz - length acc" by (cases g) auto
    have IH: "recvW_loop e sz (acc @ g) (skip (length g) ss)
        = (int sz, (acc @ g) @ take (sz - length (acc @ g)) (concat (skip (length g) ss)),
           skip (sz - length (acc @ g)) (skip (length g) ss))"
      by (rule less.hyps) (use True lg g(3) less.prems in simp_all)
    have "take ?n (concat ss) = g @ take (?n - length g) (drop (length g) (concat ss))"
      using g(3,4) by (metis le_add_diff_inverse take_add)
    with IH True g(1-3) show ?thesis by (simp add: recvW_loop.simps [of e sz acc])
  qed
qed

lemma recvW_loop_short:
  "length (concat ss) < sz - length acc \<Longrightarrow>
   recvW_loop e sz acc ss
     = (case e of Closed \<Rightarrow> int (length (acc @ concat ss)) | Failed \<Rightarrow> - 1, acc @ concat ss, [])"
proof (induction "sz - length acc" arbitrary: acc ss rule: less_induct)
  case less
  let ?n = "sz - length acc"
  from less.prems have n: "0 < ?n" by auto
  show ?case
  proof (cases "concat ss = []")
    case True
    with n show ?thesis by (simp add: recvW_loop.simps [of e sz acc ss] recv1_end split: ending.split)
  next
    case False
    from False n obtain g where g: "recv1 e ?n ss = (int (length g), g, skip (length g) ss)"
      "g \<noteq> []" "length g \<le> ?n" "g = take (length g) (concat ss)"
      by (rule recv1_some)
    from g(2) n have lg: "sz - length (acc @ g) < sz - length acc" by (cases g) auto
    have "length g \<le> length (concat ss)" by (metis g(4) length_take min.cobounded1)
    with less.prems have ll: "length (concat (skip (length g) ss)) < sz - length (acc @ g)"
      by simp
    have IH: "recvW_loop e sz (acc @ g) (skip (length g) ss)
        = (case e of Closed \<Rightarrow> int (length ((acc @ g) @ concat (skip (length g) ss))) | Failed \<Rightarrow> - 1,
           (acc @ g) @ concat (skip (length g) ss), [])"
      by (rule less.hyps) (fact lg, fact ll)
    have "g @ drop (length g) (concat ss) = concat ss"
      using g(4) by (metis append_take_drop_id)
    with IH n g(1-3) show ?thesis by (simp add: recvW_loop.simps [of e sz acc] split: ending.split)
  qed
qed

lemma send1_ok:
  assumes "\<forall>a \<in> set sched. \<exists>k > 0. a = Accept k" "bs \<noteq> []"
  obtains t sched' where "send1 bs sched = (int (length t), t, sched')"
    and "t \<noteq> []" and "t = take (length t) bs" and "\<forall>a \<in> set sched'. \<exists>k > 0. a = Accept k"
proof (cases sched)
  case Nil
  with assms(2) show thesis by (auto intro!: that [of bs])
next
  case (Cons a r)
  with assms(1) obtain k where "a = Accept k" "0 < k" by auto
  with Cons assms show thesis by (intro that [of "take k bs" r]) (auto simp: min_def)
qed

lemma sendW_loop_all:
  "\<forall>a \<in> set sched. \<exists>k > 0. a = Accept k \<Longrightarrow> so_far \<le> length buffer \<Longrightarrow>
   \<exists>sched'. sendW_loop buffer so_far out sched = (int (length buffer), out @ drop so_far buffer, sched')
     \<and> (\<forall>a \<in> set sched'. \<exists>k > 0. a = Accept k)"
proof (induction "length buffer - so_far" arbitrary: so_far out sched rule: less_induct)
  case less
  show ?case
  proof (cases "so_far < length buffer")
    case False
    with less.prems show ?thesis by (simp add: sendW_loop.simps [of buffer "length buffer" out])
  next
    case True
    then have "drop so_far buffer \<noteq> []" by simp
    with less.prems(1) obtain t sched' where t: "send1 (drop so_far buffer) sched = (int (length t), t, sched')"
      "t \<noteq> []" "t = take (length t) (drop so_far buffer)" "\<forall>a \<in> set sched'. \<exists>k > 0. a = Accept k"
      by (rule send1_ok)
    from t(2) True have lt: "length buffer - (so_far + length t) < length buffer - so_far"
      by (cases t) auto
    have "length t \<le> length (drop so_far buffer)"
      by (metis t(3) length_take min.cobounded1)
    then have le: "so_far + length t \<le> length buffer" using True by simp
    have "\<exists>sched''. sendW_loop buffer (so_far + length t) (out @ t) sched'
        = (int (length buffer), (out @ t) @ drop (so_far + length t) buffer, sched'')
        \<and> (\<forall>a \<in> set sched''. \<exists>k > 0. a = Accept k)"
      by (rule less.hyps) (fact lt, fact t(4), fact le)
    moreover have "t @ drop (so_far + length t) buffer = drop so_far buffer"
      by (metis t(3) append_take_drop_id drop_drop add.commute)
    ultimately show ?thesis using True t(1,2) by (simp add: sendW_loop.simps [of buffer so_far])
  qed
qed

lemma sendW_loop_open: "sendW_loop buffer 0 [] [] = (int (length buffer), buffer, [])"
proof (cases "buffer = []")
  case True
  then show ?thesis by (simp add: sendW_loop.simps [of "[]" 0])
next
  case False
  have "sendW_loop buffer (length buffer) buffer [] = (int (length buffer), buffer, [])"
    by (simp add: sendW_loop.simps [of buffer "length buffer"])
  with False show ?thesis by (simp add: sendW_loop.simps [of buffer 0])
qed

text \<open>Whatever the schedule, what has gone out is a prefix of the buffer.\<close>

lemma send1_prefix: "send1 bs sched = (r, t, sched') \<Longrightarrow> 0 < r \<Longrightarrow> t = take (nat r) bs"
  by (induction bs sched rule: send1.induct) (auto simp: min_def)

lemma send1_prefix': "send1 bs sched = (r, t, sched') \<Longrightarrow> \<exists>k. t = take k bs"
proof (induction bs sched rule: send1.induct)
  case (1 bs)
  then show ?case by (auto intro: exI [of _ "length bs"])
next
  case (3 bs sched)
  then show ?case by (auto intro: exI [of _ 0])
qed auto

lemma sendW_loop_prefix:
  "sendW_loop buffer so_far (take so_far buffer) sched = (r, out', sched') \<Longrightarrow> \<exists>k. out' = take k buffer"
proof (induction "length buffer - so_far" arbitrary: so_far sched rule: less_induct)
  case less
  obtain v t sched1 where one: "send1 (drop so_far buffer) sched = (v, t, sched1)"
    by (metis prod_cases3)
  then obtain k where k: "t = take k (drop so_far buffer)" using send1_prefix' by blast
  then have tk: "take so_far buffer @ t = take (so_far + k) buffer" by (simp add: take_add)
  show ?case
  proof (cases "so_far < length buffer \<and> 0 < v")
    case False
    with less.prems one have "out' = take so_far buffer @ t \<or> out' = take so_far buffer"
      by (auto simp: sendW_loop.simps [of buffer so_far] split: if_splits)
    with tk show ?thesis by metis
  next
    case True
    with one have "t = take (nat v) (drop so_far buffer)" by (auto dest: send1_prefix)
    then have "take so_far buffer @ t = take (so_far + nat v) buffer" by (simp add: take_add)
    with less.prems one True
    have "sendW_loop buffer (so_far + nat v) (take (so_far + nat v) buffer) sched1 = (r, out', sched')"
      by (simp add: sendW_loop.simps [of buffer so_far])
    from less.hyps [OF _ this] True show ?thesis by auto
  qed
qed

text \<open>
  C26: \<open>recvW\<close> reads from the byte stream, not from the segments it arrives in: it returns the
  first \<open>n\<close> bytes if that many will ever come, and otherwise all there are, with their number
  when the peer closes and -1 when the connection fails.
\<close>

theorem recvW_reads_the_stream:
  "recvW_loop e n [] ss
    = (if n \<le> length (concat ss) then (int n, take n (concat ss), skip n ss)
       else (case e of Closed \<Rightarrow> int (length (concat ss)) | Failed \<Rightarrow> - 1, concat ss, []))"
  using recvW_loop_all [of "[]" n ss e] recvW_loop_short [of ss n "[]" e] by (simp split: ending.split)

text \<open>
  C27: \<open>sendW\<close> sends the buffer in order from its start, however little each call takes, and
  all of it when every call takes something.
\<close>

theorem sendW_sends_in_order:
  assumes "sendW_loop buffer 0 [] sched = (r, out, sched')"
  shows "(\<exists>k. out = take k buffer)
    \<and> ((\<forall>a \<in> set sched. \<exists>k > 0. a = Accept k) \<longrightarrow> r = int (length buffer) \<and> out = buffer)"
  using assms sendW_loop_prefix [of buffer 0 sched r out sched']
    sendW_loop_all [of sched 0 buffer "[]"] by auto

theorem sendW_sends_in_order_witness:
  "\<exists>r out sched'. sendW_loop [1, 2, 3] 0 [] [Accept 2, Accept 1] = (r, out, sched') \<and> out = [1, 2, 3]"
proof -
  obtain r out sched' where run: "sendW_loop [1, 2, 3] 0 [] [Accept 2, Accept 1] = (r, out, sched')"
    by (metis prod_cases3)
  then show ?thesis using sendW_sends_in_order [OF run] by auto
qed

section \<open>The interfaces the relays rest on\<close>

text \<open>
  What a packet handler needs from the receiving side: a read of \<open>n\<close> bytes that are there
  returns them in order and moves on by \<open>n\<close>, and the state says when they are there.
\<close>

fun get_seq :: "('c \<Rightarrow> 's \<Rightarrow> byte list \<times> 's) \<Rightarrow> 'c list \<Rightarrow> 's \<Rightarrow> byte list list \<times> 's" where
  "get_seq get [] s = ([], s)"
| "get_seq get (c # cs) s =
     (let (b, s) = get c s; (bs, s) = get_seq get cs s in (b # bs, s))"

locale byte_source =
  fixes get :: "'c \<Rightarrow> 's \<Rightarrow> byte list \<times> 's"
    and width :: "'c \<Rightarrow> nat"
    and ready :: "'c list \<Rightarrow> 's \<Rightarrow> bool"
    and content :: "'s \<Rightarrow> byte list"
    and advance :: "nat \<Rightarrow> 's \<Rightarrow> 's"
  assumes get: "ready (c # cs) s \<Longrightarrow> get c s = (take (width c) (content s), advance (width c) s)"
    and ready_advance: "ready (c # cs) s \<Longrightarrow> ready cs (advance (width c) s)"
    and content_advance: "content (advance n s) = drop n (content s)"
    and advance_add: "advance m (advance n s) = advance (n + m) s"
    and advance_0: "advance 0 s = s"
begin

lemma get_seq_chop:
  "ready cs s \<Longrightarrow> get_seq get cs s
     = (chop (map width cs) (content s), advance (sum_list (map width cs)) s)"
  by (induction cs arbitrary: s)
    (simp_all add: get ready_advance content_advance advance_add advance_0)

end

text \<open>A thread is a step that is taken again and again.\<close>

fun iterate :: "('s \<Rightarrow> 's) \<Rightarrow> nat \<Rightarrow> 's \<Rightarrow> 's" where
  "iterate step 0 s = s"
| "iterate step (Suc n) s = iterate step n (step s)"

text \<open>
  A thread of the proxy that takes packets off its input and, for a packet it relays, puts the
  very same bytes on its output.
\<close>

locale transparent_relay =
  fixes step :: "'s \<Rightarrow> 's"
    and packet :: "byte list \<Rightarrow> bool"
    and good :: "'s \<Rightarrow> bool"
    and inp :: "'s \<Rightarrow> byte list"
    and outp :: "'s \<Rightarrow> byte list"
  assumes step_good: "good s \<Longrightarrow> packet p \<Longrightarrow> inp s = p @ rest \<Longrightarrow> good (step s)"
    and step_inp: "good s \<Longrightarrow> packet p \<Longrightarrow> inp s = p @ rest \<Longrightarrow> inp (step s) = rest"
    and step_outp: "good s \<Longrightarrow> packet p \<Longrightarrow> inp s = p @ rest \<Longrightarrow> outp (step s) = outp s @ p"

text \<open>
  Two such threads that share their state, and a third that has nothing to do: if neither
  relay touches what the other one works on, both streams come through whole, in whatever
  order the turns are taken.
\<close>

datatype turn = Down | Up | Idle

locale full_duplex =
  down: transparent_relay "step Down" pd gd ind outd
  + up: transparent_relay "step Up" pu gu inu outu
  for step :: "turn \<Rightarrow> 's \<Rightarrow> 's" and pd gd ind outd pu gu inu outu +
  assumes down_aside: "gd s \<Longrightarrow> gu s \<Longrightarrow> pd p \<Longrightarrow> ind s = p @ rest \<Longrightarrow>
      gu (step Down s) \<and> inu (step Down s) = inu s \<and> outu (step Down s) = outu s"
    and up_aside: "gd s \<Longrightarrow> gu s \<Longrightarrow> pu p \<Longrightarrow> inu s = p @ rest \<Longrightarrow>
      gd (step Up s) \<and> ind (step Up s) = ind s \<and> outd (step Up s) = outd s"
    and idle_aside: "gd s \<Longrightarrow> gu s \<Longrightarrow> gd (step Idle s) \<and> gu (step Idle s)
      \<and> ind (step Idle s) = ind s \<and> outd (step Idle s) = outd s
      \<and> inu (step Idle s) = inu s \<and> outu (step Idle s) = outu s"
begin

lemma both:
  "gd s \<Longrightarrow> gu s \<Longrightarrow> list_all pd ps \<Longrightarrow> list_all pu qs \<Longrightarrow> ind s = concat ps @ r \<Longrightarrow> inu s = concat qs @ q
   \<Longrightarrow> count_list ts Down \<le> length ps \<Longrightarrow> count_list ts Up \<le> length qs \<Longrightarrow>
   gd (fold step ts s) \<and> gu (fold step ts s)
   \<and> outd (fold step ts s) = outd s @ concat (take (count_list ts Down) ps)
   \<and> outu (fold step ts s) = outu s @ concat (take (count_list ts Up) qs)"
proof (induction ts arbitrary: s ps qs)
  case (Cons t ts)
  show ?case
  proof (cases t)
    case Down
    with Cons.prems(7) obtain p ps' where ps: "ps = p # ps'" by (cases ps) auto
    with Cons.prems have p: "pd p" "ind s = p @ concat ps' @ r" by simp_all
    from Cons.IH [of "step Down s" ps' qs] Cons.prems Down ps p
      down.step_good [OF Cons.prems(1) p] down.step_inp [OF Cons.prems(1) p]
      down.step_outp [OF Cons.prems(1) p] down_aside [OF Cons.prems(1,2) p]
    show ?thesis by simp
  next
    case Up
    with Cons.prems(8) obtain p qs' where qs: "qs = p # qs'" by (cases qs) auto
    with Cons.prems have p: "pu p" "inu s = p @ concat qs' @ q" by simp_all
    from Cons.IH [of "step Up s" ps qs'] Cons.prems Up qs p
      up.step_good [OF Cons.prems(2) p] up.step_inp [OF Cons.prems(2) p]
      up.step_outp [OF Cons.prems(2) p] up_aside [OF Cons.prems(1,2) p]
    show ?thesis by simp
  next
    case Idle
    with Cons.IH [of "step Idle s" ps qs] Cons.prems idle_aside [OF Cons.prems(1,2)]
    show ?thesis by simp
  qed
qed simp

end

end
