(* ===== verification/World.thy ===== *)
theory World
  imports Wire
begin

text \<open>
  The state of the process (the globals of \<open>src/tunnel.h\<close>, \<open>src/CPE.h\<close> and of the C files)
  and the socket calls on it. \<open>serverSock\<close> is the connection to the player's game client,
  \<open>tunnelSock\<close> the one to the game server, as in the code.

  What C leaves open is kept open. \<open>indet\<close> is the supply of indeterminate bytes: every
  uninitialised buffer and the unfilled rest of a short read draws new ones from it. A write
  past the end of a small array is recorded in \<open>remarks\<close> and its bytes are taken to survive
  until they are read back; an access no execution can be given a meaning for (a read or
  write outside the level buffer, a null \<open>FILE\<close>) stops the process with a fault.
\<close>

section \<open>Sockets and remarks\<close>

datatype sock = serverSock | tunnelSock

datatype fault = MapIndex int | NullFile | BadSize int | HeapIndex int | DivZero | NullHost

datatype status = Running | Exited | Crashed fault

datatype event =
    Slept int
  | Overrun nat nat \<comment> \<open>array size, bytes written\<close>
  | OverRead nat nat \<comment> \<open>array size, index read\<close>
  | BadIndex int \<comment> \<open>an element outside \<open>player[256]\<close>\<close>
  | Format "byte list" \<comment> \<open>a \<open>printf\<close> format with a conversion in it\<close>

record net =
  segs :: "sock \<Rightarrow> byte list list"
  ending :: "sock \<Rightarrow> ending"
  accepts :: "sock \<Rightarrow> send_ret list"
  sent :: "sock \<Rightarrow> byte list"
  indet :: "nat \<Rightarrow> byte"
  remarks :: "event list"
  status :: status

abbreviation incoming :: "sock \<Rightarrow> 'a net_scheme \<Rightarrow> byte list" where
  "incoming k s \<equiv> concat (segs s k)"

definition fresh :: "nat \<Rightarrow> 'a net_scheme \<Rightarrow> byte list \<times> 'a net_scheme" where
  "fresh m s = (map (indet s) [0 ..< m], s\<lparr>indet := (\<lambda>i. indet s (m + i))\<rparr>)"

definition remark :: "event \<Rightarrow> 'a net_scheme \<Rightarrow> 'a net_scheme" where
  "remark n s = s\<lparr>remarks := remarks s @ [n]\<rparr>"

text \<open>\<open>memcpy(&buf[0], _, n)\<close> into an array of \<open>cap\<close> bytes.\<close>

definition copied :: "nat \<Rightarrow> nat \<Rightarrow> 'a net_scheme \<Rightarrow> 'a net_scheme" where
  "copied cap n s = (if cap < n then remark (Overrun cap n) s else s)"

text \<open>The return value, what the destination then holds, and the new state.\<close>

definition recvW :: "sock \<Rightarrow> nat \<Rightarrow> 'a net_scheme \<Rightarrow> int \<times> byte list \<times> 'a net_scheme" where
  "recvW k n s =
     (let (r, got, ss) = recvW_loop (ending s k) n [] (segs s k);
          (rest, s) = fresh (n - length got) (s\<lparr>segs := (segs s)(k := ss)\<rparr>)
      in (r, got @ rest, s))"

definition recv :: "sock \<Rightarrow> nat \<Rightarrow> 'a net_scheme \<Rightarrow> int \<times> byte list \<times> 'a net_scheme" where
  "recv k n s =
     (let (r, got, ss) = recv1 (ending s k) n (segs s k);
          (rest, s) = fresh (n - length got) (s\<lparr>segs := (segs s)(k := ss)\<rparr>)
      in (r, got @ rest, s))"

definition sendW :: "sock \<Rightarrow> byte list \<Rightarrow> 'a net_scheme \<Rightarrow> 'a net_scheme" where
  "sendW k buf s =
     (let (r, out, sched) = sendW_loop buf 0 [] (accepts s k)
      in s\<lparr>sent := (sent s)(k := sent s k @ out), accepts := (accepts s)(k := sched)\<rparr>)"

definition send :: "sock \<Rightarrow> byte list \<Rightarrow> 'a net_scheme \<Rightarrow> 'a net_scheme" where
  "send k buf s =
     (let (r, out, sched) = send1 buf (accepts s k)
      in s\<lparr>sent := (sent s)(k := sent s k @ out), accepts := (accepts s)(k := sched)\<rparr>)"

text \<open>
  Handlers make runs of calls: receive these fields one after the other, then send those.
  The wrapped calls and the plain ones differ in what a partial transfer does.
\<close>

datatype rcall = RecvW nat | Recv nat
datatype scall = SendW "byte list" | Send "byte list"

fun rwidth :: "rcall \<Rightarrow> nat" where
  "rwidth (RecvW n) = n"
| "rwidth (Recv n) = n"

fun payload :: "scall \<Rightarrow> byte list" where
  "payload (SendW bs) = bs"
| "payload (Send bs) = bs"

fun rcv :: "sock \<Rightarrow> rcall \<Rightarrow> 'a net_scheme \<Rightarrow> byte list \<times> 'a net_scheme" where
  "rcv k (RecvW n) s = snd (recvW k n s)"
| "rcv k (Recv n) s = snd (recv k n s)"

definition recvs :: "sock \<Rightarrow> rcall list \<Rightarrow> 'a net_scheme \<Rightarrow> byte list list \<times> 'a net_scheme" where
  "recvs k = get_seq (rcv k)"

fun snd_call :: "sock \<Rightarrow> scall \<Rightarrow> 'a net_scheme \<Rightarrow> 'a net_scheme" where
  "snd_call k (SendW bs) s = sendW k bs s"
| "snd_call k (Send bs) s = send k bs s"

fun sends :: "sock \<Rightarrow> scall list \<Rightarrow> 'a net_scheme \<Rightarrow> 'a net_scheme" where
  "sends k [] s = s"
| "sends k (c # cs) s = sends k cs (snd_call k c s)"

declare sends.simps [simp del] snd_call.simps [simp del]

section \<open>When the calls do what they are meant to\<close>

text \<open>
  The bytes a run of calls asks for are there; a plain \<open>recv\<close> also needs them in one segment.
\<close>

fun readable :: "rcall list \<Rightarrow> byte list list \<Rightarrow> bool" where
  "readable [] ss = True"
| "readable (RecvW n # cs) ss = (n \<le> length (concat ss) \<and> readable cs (skip n ss))"
| "readable (Recv n # cs) ss =
     (0 < n \<and> n \<le> length (concat ss) \<and> length (fst (snd (recv1 Closed n ss))) = n \<and> readable cs (skip n ss))"

definition sip :: "sock \<Rightarrow> nat \<Rightarrow> 'a net_scheme \<Rightarrow> 'a net_scheme" where
  "sip k n s = s\<lparr>segs := (segs s)(k := skip n (segs s k))\<rparr>"

definition emit :: "sock \<Rightarrow> byte list \<Rightarrow> 'a net_scheme \<Rightarrow> 'a net_scheme" where
  "emit k bs s = s\<lparr>sent := (sent s)(k := sent s k @ bs)\<rparr>"

lemma fresh_0: "fresh 0 s = ([], s)"
  by (simp add: fresh_def)

lemma recvW_enough:
  "n \<le> length (incoming k s) \<Longrightarrow> recvW k n s = (int n, take n (incoming k s), sip k n s)"
  by (simp add: recvW_def recvW_loop_all fresh_0 sip_def)

lemma recv1_full:
  assumes "n \<le> length (concat ss)" "length (fst (snd (recv1 Closed n ss))) = n" "0 < n"
  shows "recv1 e n ss = (int n, take n (concat ss), skip n ss)"
proof -
  from assms(1,3) have "0 < length (concat ss)" by linarith
  then have "concat ss \<noteq> []" by (metis length_greater_0_conv)
  from this \<open>0 < n\<close> obtain g where g: "recv1 Closed n ss = (int (length g), g, skip (length g) ss)"
    "g = take (length g) (concat ss)"
    by (rule recv1_some)
  from \<open>concat ss \<noteq> []\<close> have "recv1 e n ss = recv1 Closed n ss"
    by (induction e n ss rule: recv1.induct) auto
  with g assms(2) show ?thesis by simp
qed

lemma recv_enough:
  "readable [Recv n] (segs s k) \<Longrightarrow> recv k n s = (int n, take n (incoming k s), sip k n s)"
  by (simp add: recv_def recv1_full fresh_0 sip_def)

lemma incoming_sip [simp]: "incoming k (sip k n s) = drop n (incoming k s)"
  by (simp add: sip_def)

lemma segs_sip [simp]: "segs (sip k n s) = (segs s)(k := skip n (segs s k))"
  by (simp add: sip_def)

lemma sip_sip [simp]: "sip k m (sip k n s) = sip k (n + m) s"
  by (simp add: sip_def)

lemma sip_0 [simp]: "sip k 0 s = s"
  by (simp add: sip_def)

lemma rcv_ready:
  "readable (c # cs) (segs s k) \<Longrightarrow> rcv k c s = (take (rwidth c) (incoming k s), sip k (rwidth c) s)"
  by (cases c) (simp_all add: recvW_enough recv_enough)

lemma readable_skip: "readable (c # cs) ss \<Longrightarrow> readable cs (skip (rwidth c) ss)"
  by (cases c) simp_all

interpretation inbound: byte_source "rcv k" rwidth "\<lambda>cs s. readable cs (segs s k)"
    "incoming k" "sip k"
  for k
  by unfold_locales (auto simp: rcv_ready readable_skip simp del: readable.simps)

lemma recvs_ready [wire_simps]:
  "readable cs (segs s k) \<Longrightarrow> recvs k cs s
     = (chop (map rwidth cs) (incoming k s), sip k (sum_list (map rwidth cs)) s)"
  by (simp add: recvs_def inbound.get_seq_chop)

text \<open>Two ways a run of calls is readable: wrapped calls only, or one segment holding it all.\<close>

fun wrapped :: "rcall \<Rightarrow> bool" where
  "wrapped (RecvW n) = True"
| "wrapped (Recv n) = False"

lemma readable_wrapped:
  "list_all wrapped cs \<Longrightarrow> sum_list (map rwidth cs) \<le> length (concat ss) \<Longrightarrow> readable cs ss"
proof (induction cs arbitrary: ss)
  case (Cons c cs)
  then show ?case by (cases c) auto
qed simp

text \<open>The fields of a packet read with wrapped calls.\<close>

lemma recvs_fields:
  assumes "list_all wrapped cs" "incoming k s = i # concat fs @ rest" "map length fs = map rwidth cs"
  shows "recvs k cs (sip k 1 s) = (fs, sip k (Suc (length (concat fs))) s)"
proof -
  have chop: "chop (map length fs) (concat fs @ r) = fs" for r :: "byte list"
    by (induction fs) simp_all
  have "sum_list (map rwidth cs) = length (concat fs)"
    by (simp add: length_concat flip: assms(3))
  moreover from this have "readable cs (segs (sip k 1 s) k)"
    using assms(1,2) by (intro readable_wrapped) simp_all
  ultimately show ?thesis
    using assms(2) chop by (simp add: recvs_ready flip: assms(3))
qed

lemma recv1_single: "0 < n \<Longrightarrow> n \<le> length b \<Longrightarrow> length (fst (snd (recv1 e n (b # ss)))) = n"
  by (cases b) auto

lemma readable_single:
  "list_all (\<lambda>c. 0 < rwidth c) cs \<Longrightarrow> sum_list (map rwidth cs) \<le> length b \<Longrightarrow> readable cs [b]"
proof (induction cs arbitrary: b)
  case (Cons c cs)
  have "readable cs (skip (rwidth c) [b])"
  proof (cases "rwidth c < length b")
    case True
    then show ?thesis using Cons by simp
  next
    case False
    with Cons.prems have "cs = []" by (cases cs) auto
    then show ?thesis by simp
  qed
  then show ?case using Cons.prems by (cases c) (simp_all add: recv1_single)
qed simp

lemma readable_append:
  "readable (cs @ ds) ss \<longleftrightarrow> readable cs ss \<and> readable ds (skip (sum_list (map rwidth cs)) ss)"
proof (induction cs arbitrary: ss)
  case (Cons c cs)
  then show ?case by (cases c) (auto simp: add.commute)
qed simp

text \<open>
  A thread that takes packets off a segmented stream and sends something for each: \<open>calls\<close> are
  the receive calls it makes for a packet, \<open>arrives p q\<close> says what the other side gets for it. The
  only demand on the segments is that these calls, one after the other, find them readable.
\<close>

locale segmented_relay =
  fixes step :: "'s \<Rightarrow> 's"
    and good :: "'s \<Rightarrow> bool"
    and packet :: "byte list \<Rightarrow> bool"
    and calls :: "byte list \<Rightarrow> rcall list"
    and arrives :: "byte list \<Rightarrow> byte list \<Rightarrow> bool"
    and input :: "'s \<Rightarrow> byte list list"
    and outp :: "'s \<Rightarrow> byte list"
  assumes width: "packet p \<Longrightarrow> sum_list (map rwidth (calls p)) = length p"
    and turn: "good s \<Longrightarrow> packet p \<Longrightarrow> concat (input s) = p @ rest \<Longrightarrow> readable (calls p) (input s) \<Longrightarrow>
      good (step s) \<and> input (step s) = skip (length p) (input s)
      \<and> (\<exists>q. arrives p q \<and> outp (step s) = outp s @ q)"
begin

lemma run:
  "good s \<Longrightarrow> list_all packet ps \<Longrightarrow> concat (input s) = concat ps @ rest
   \<Longrightarrow> readable (concat (map calls ps)) (input s)
   \<Longrightarrow> good (iterate step (length ps) s) \<and> concat (input (iterate step (length ps) s)) = rest
     \<and> (\<exists>qs. list_all2 arrives ps qs \<and> outp (iterate step (length ps) s) = outp s @ concat qs)"
proof (induction ps arbitrary: s)
  case (Cons p ps)
  then have p: "packet p" and ps: "list_all packet ps"
    and inp: "concat (input s) = p @ concat ps @ rest" and now: "readable (calls p) (input s)"
    and later: "readable (concat (map calls ps)) (skip (length p) (input s))"
    by (simp_all add: readable_append width)
  from turn [OF Cons.prems(1) p inp now] obtain q where t: "good (step s)"
    "input (step s) = skip (length p) (input s)" "arrives p q" "outp (step s) = outp s @ q"
    by blast
  from t(2) inp later have "concat (input (step s)) = concat ps @ rest"
    "readable (concat (map calls ps)) (input (step s))"
    by simp_all
  from Cons.IH [OF t(1) ps this] obtain qs where "list_all2 arrives ps qs"
    "outp (iterate step (length ps) (step s)) = outp (step s) @ concat qs"
    "good (iterate step (length ps) (step s))" "concat (input (iterate step (length ps) (step s))) = rest"
    by blast
  with t show ?case by (intro conjI exI [of _ "q # qs"]) simp_all
qed simp

end

lemma list_all2_function: "list_all2 (\<lambda>p q. q = f p) ps qs \<longleftrightarrow> qs = map f ps"
  by (induction ps arbitrary: qs) (auto simp: list_all2_Cons1)

text \<open>Sending to a peer that takes whatever it is offered.\<close>

lemma sendW_open: "accepts s k = [] \<Longrightarrow> sendW k bs s = emit k bs s"
  by (simp add: sendW_def sendW_loop_open emit_def fun_upd_idem)

lemma send_open: "accepts s k = [] \<Longrightarrow> send k bs s = emit k bs s"
  by (simp add: send_def emit_def fun_upd_idem)

lemma accepts_emit [simp]: "accepts (emit k bs s) = accepts s"
  by (simp add: emit_def)

lemma emit_emit [simp]: "emit k bs (emit k as s) = emit k (as @ bs) s"
  by (simp add: emit_def)

lemma emit_Nil [simp]: "emit k [] s = s"
  by (simp add: emit_def)

lemma snd_call_open [wire_simps]: "accepts s k = [] \<Longrightarrow> snd_call k c s = emit k (payload c) s"
  by (cases c) (simp_all add: snd_call.simps sendW_open send_open)

lemma sends_open [wire_simps]:
  "accepts s k = [] \<Longrightarrow> sends k cs s = emit k (concat (map payload cs)) s"
  by (induction cs arbitrary: s) (simp_all add: sends.simps snd_call_open)

section \<open>The globals\<close>

record player =
  p_pid :: byte
  p_username :: "byte list"
  p_x :: u16
  p_y :: u16
  p_z :: u16
  p_yaw :: byte
  p_pitch :: byte
  p_mode :: int \<comment> \<open>0 ignore, 1 following, 2 plotmotioning\<close>
  p_valid :: bool
  p_ignore :: bool

record user_t =
  u_x :: u16
  u_y :: u16
  u_z :: u16
  u_yaw :: byte
  u_pitch :: byte
  u_hx :: u16
  u_hy :: u16
  u_hz :: u16
  u_hyaw :: byte
  u_hpitch :: byte

record copy_t =
  c_x1 :: u16
  c_y1 :: u16
  c_z1 :: u16
  c_x2 :: u16
  c_y2 :: u16
  c_z2 :: u16
  c_size :: int
  c_chunkName :: "byte list"
  c_place :: bool
  c_start :: bool
  c_halt :: bool

record paste_t =
  ps_x :: u16
  ps_y :: u16
  ps_z :: u16
  ps_chunkName :: "byte list"
  ps_place :: bool
  ps_start :: bool
  ps_halt :: bool

record cuboid_t =
  q_x1 :: u16
  q_y1 :: u16
  q_z1 :: u16
  q_x2 :: u16
  q_y2 :: u16
  q_z2 :: u16
  q_block :: byte
  q_place :: bool
  q_start :: bool
  q_halt :: bool
  q_type :: int
  q_zlimit :: bool
  q_getBlock :: bool
  q_zspeed :: int

record CPE =
  blockDefs :: bool
  blockDefsExt :: bool
  envMapAspect :: bool
  entProperty :: bool
  extEntityPos :: bool
  fastMap :: bool
  extText :: bool
  extBlocks :: bool

text \<open>
  The rest of the globals and the locals of the two socket threads that outlive a packet
  (\<open>fucked\<close>, \<open>gotMotd\<close>, \<open>joined\<close>). \<open>players\<close> is indexed by any \<open>int\<close>: 0 to 255 is the array
  \<open>player[256]\<close>, other indices are the memory around it, which the code reaches through a
  signed \<open>char\<close> and through \<open>player[-1]\<close>. A buffer that is NULL is the empty list.
  \<open>rands\<close> are the values \<open>rand()\<close> is going to return, \<open>files\<close> the file system
  with the paths \<open>fopen\<close> can create, and
  \<open>inflate\<close> and \<open>inflateEnd\<close> stand for zlib: the bytes written to \<open>next_out\<close> and the
  return code, from the window bits, the input and \<open>avail_out\<close>.
\<close>

record world = net +
  players :: "int \<Rightarrow> player"
  user :: user_t
  copy :: copy_t
  paste :: paste_t
  cuboid :: cuboid_t
  cpeClient :: CPE
  cpeServer :: CPE
  hide :: bool
  gimped :: bool
  paint :: bool
  paintBid :: byte
  plotBlock :: byte
  zPlace :: bool
  points :: int
  hax :: int
  haxType :: "byte list"
  useCPE :: int
  unused :: byte
  username :: "byte list"
  mppass :: "byte list"
  motd :: "byte list"
  servername :: "byte list"
  tunnelUser :: "byte list"
  ignores :: "byte list list"
  ignoreN :: int
  gimp :: "byte list list"
  gimpN :: int
  mapC :: "byte list"
  mapSize :: int
  lmap :: "byte list"
  blocks :: "byte list"
  lvlx :: u16
  lvly :: u16
  lvlz :: u16
  fucked :: bool
  gotMotd :: bool
  joined :: bool
  clientThread :: bool
  builderThread :: bool
  rands :: "nat \<Rightarrow> int"
  files :: "byte list \<Rightarrow> byte list option"
  creatable :: "byte list \<Rightarrow> bool"
  inflate :: "int \<Rightarrow> byte list \<Rightarrow> nat \<Rightarrow> byte list"
  inflateEnd :: "int \<Rightarrow> byte list \<Rightarrow> nat \<Rightarrow> int"

definition player_array :: "int \<Rightarrow> bool" where
  "player_array i \<longleftrightarrow> 0 \<le> i \<and> i < 256"

lemma player_array_byte [simp]: "player_array (uint (b :: byte))"
  using uint_lt2p [of b] by (simp add: player_array_def)

definition upd_player :: "int \<Rightarrow> (player \<Rightarrow> player) \<Rightarrow> world \<Rightarrow> world" where
  "upd_player i f s =
     (let s = (if player_array i then s else remark (BadIndex i) s)
      in s\<lparr>players := (players s)(i := f (players s i))\<rparr>)"

definition rand :: "world \<Rightarrow> int \<times> world" where
  "rand s = (rands s 0, s\<lparr>rands := (\<lambda>i. rands s (Suc i))\<rparr>)"

definition crash :: "fault \<Rightarrow> world \<Rightarrow> world" where
  "crash f s = s\<lparr>status := Crashed f\<rparr>"

text \<open>
  The process before \<open>main\<close>: globals are zero, \<open>cuboid.zspeed\<close> has the 50 ms that
  \<open>tunnelServer\<close> sets first, nobody has sent anything and the disk is empty.
\<close>

definition zero_player :: player where
  "zero_player = \<lparr>p_pid = 0, p_username = replicate 64 0, p_x = 0, p_y = 0, p_z = 0, p_yaw = 0,
     p_pitch = 0, p_mode = 0, p_valid = False, p_ignore = False\<rparr>"

definition no_CPE :: CPE where
  "no_CPE = \<lparr>blockDefs = False, blockDefsExt = False, envMapAspect = False, entProperty = False,
     extEntityPos = False, fastMap = False, extText = False, extBlocks = False\<rparr>"

definition zero_user :: user_t where
  "zero_user = \<lparr>u_x = 0, u_y = 0, u_z = 0, u_yaw = 0, u_pitch = 0,
     u_hx = 0, u_hy = 0, u_hz = 0, u_hyaw = 0, u_hpitch = 0\<rparr>"

definition zero_copy :: copy_t where
  "zero_copy = \<lparr>c_x1 = 0, c_y1 = 0, c_z1 = 0, c_x2 = 0, c_y2 = 0, c_z2 = 0, c_size = 0,
     c_chunkName = [], c_place = False, c_start = False, c_halt = False\<rparr>"

definition zero_paste :: paste_t where
  "zero_paste = \<lparr>ps_x = 0, ps_y = 0, ps_z = 0, ps_chunkName = [],
     ps_place = False, ps_start = False, ps_halt = False\<rparr>"

definition zero_cuboid :: cuboid_t where
  "zero_cuboid = \<lparr>q_x1 = 0, q_y1 = 0, q_z1 = 0, q_x2 = 0, q_y2 = 0, q_z2 = 0, q_block = 0,
     q_place = False, q_start = False, q_halt = False, q_type = 0, q_zlimit = False,
     q_getBlock = False, q_zspeed = 50\<rparr>"

definition start :: world where
  "start = \<lparr>segs = (\<lambda>_. []), ending = (\<lambda>_. Closed), accepts = (\<lambda>_. []), sent = (\<lambda>_. []),
     indet = (\<lambda>_. 0), remarks = [], status = Running,
     players = (\<lambda>_. zero_player), user = zero_user, copy = zero_copy, paste = zero_paste,
     cuboid = zero_cuboid, cpeClient = no_CPE, cpeServer = no_CPE, hide = False, gimped = False,
     paint = False, paintBid = 0, plotBlock = 0, zPlace = False, points = 0, hax = 0, haxType = [],
     useCPE = 0, unused = 0, username = replicate 64 0, mppass = replicate 64 0,
     motd = replicate 64 0, servername = replicate 64 0, tunnelUser = replicate 64 0,
     ignores = replicate 64 (replicate 64 0), ignoreN = 0,
     gimp = replicate 6024 (replicate 256 0), gimpN = 0, mapC = [], mapSize = 0, lmap = [],
     blocks = [], lvlx = 0, lvly = 0, lvlz = 0, fucked = False, gotMotd = False, joined = False,
     clientThread = False, builderThread = False, rands = (\<lambda>_. 0), files = (\<lambda>_. None), creatable = (\<lambda>_. True),
     inflate = (\<lambda>_ _ _. []), inflateEnd = (\<lambda>_ _ _. 0)\<rparr>"

text \<open>\<open>realloc\<close>: what was there stays, what is new is indeterminate.\<close>

definition resize :: "nat \<Rightarrow> byte list \<Rightarrow> 'a net_scheme \<Rightarrow> byte list \<times> 'a net_scheme" where
  "resize n buf s = (let (new, s) = fresh (n - length buf) s in (take n buf @ new, s))"

lemma length_resize [simp]: "length (fst (resize n buf s)) = n"
  by (simp add: resize_def fresh_def)

section \<open>Helpers called on the state\<close>

text \<open>\<open>strEqual\<close> with its two stack buffers; \<open>row\<close> reads a row of \<open>ignores[64][64]\<close>.\<close>

definition call_strEqual :: "byte list \<Rightarrow> byte list \<Rightarrow> bool \<Rightarrow> 'a net_scheme \<Rightarrow> bool \<times> 'a net_scheme" where
  "call_strEqual equals str caseSensitive s =
     (let (j1, s) = fresh 256 s; (j2, s) = fresh 256 s
      in (strEqual j1 j2 equals str caseSensitive, s))"

definition row :: "nat \<Rightarrow> byte list list \<Rightarrow> 'a net_scheme \<Rightarrow> byte list \<times> 'a net_scheme" where
  "row i rows s = (if i < length rows then (rows ! i, s) else fresh 64 s)"

text \<open>What both threads do with the name of a CPE extension.\<close>

definition ext_flag :: "byte list \<Rightarrow> CPE \<Rightarrow> CPE" where
  "ext_flag nextname c =
     c\<lparr>fastMap := (fastMap c \<or> strcmp0 nextname (lit ''FastMap'')),
       extEntityPos := (extEntityPos c \<or> strcmp0 nextname (lit ''ExtEntityPositions'')),
       extText := (extText c \<or> strcmp0 nextname (lit ''ExtendedTextures'')),
       extBlocks := (extBlocks c \<or> strcmp0 nextname (lit ''ExtendedBlocks'')),
       blockDefs := (blockDefs c \<or> strcmp0 nextname (lit ''BlockDefinitions'')),
       blockDefsExt := (blockDefsExt c \<or> strcmp0 nextname (lit ''BlockDefinitionsExt''))\<rparr>"

end
