(* ===== verification/Level.thy ===== *)
theory Level
  imports World
begin

text \<open>
  The level: its dimensions, the index \<open>calculateOffset\<close> computes, the buffer \<open>map\<close>, and the
  download of a level (\<open>levelData\<close>, \<open>levelFinalize\<close> of \<open>src/client.c\<close>).
\<close>

section \<open>Indexing the level\<close>

definition calculateOffset :: "u16 \<Rightarrow> u16 \<Rightarrow> u16 \<Rightarrow> world \<Rightarrow> int" where
  "calculateOffset x y z s =
     sint (scast y * (ucast (lvlx s) * ucast (lvlz s)) + scast z * ucast (lvlz s) + scast x :: i32)"

definition map_read :: "int \<Rightarrow> world \<Rightarrow> byte option" where
  "map_read off s = (if 0 \<le> off \<and> off < int (length (lmap s)) then Some (lmap s ! nat off) else None)"

definition map_write :: "int \<Rightarrow> byte \<Rightarrow> world \<Rightarrow> world" where
  "map_write off b s =
     (if 0 \<le> off \<and> off < int (length (lmap s)) then s\<lparr>lmap := (lmap s)[nat off := b]\<rparr>
      else crash (MapIndex off) s)"

section \<open>Downloading a level\<close>

definition levelData :: "world \<Rightarrow> world" where
  "levelData s =
     (let (_, chunk_len, s) = recvW tunnelSock 2 s;
          chunk_lenhost = sint (ntohs (ld16 chunk_len))
      in if chunk_lenhost < 0 then crash (BadSize chunk_lenhost) s
         else
           let n = nat chunk_lenhost;
               s = s\<lparr>mapSize := mapSize s + chunk_lenhost\<rparr>;
               (buf, s) = resize (nat (mapSize s) + n) (mapC s) s;
               (ret, pass, s) = recvW tunnelSock n s;
               (garbage, s) =
                 (if n < 1024 then
                    let (_, g, s) = recvW tunnelSock (1024 - n) s; (rest, s) = fresh n s
                    in (g @ rest, s)
                  else fresh 1024 s);
               (_, percent2, s) = recvW tunnelSock 1 s;
               s = s\<lparr>mapC := put_at (nat (mapSize s) - n) pass buf\<rparr>
           in sends serverSock
                ([SendW [0x03], SendW chunk_len, SendW (take (nat ret) pass)]
                 @ (if n < 1024 then [SendW (take (nat (1024 - ret)) garbage)] else [])
                 @ [SendW percent2]) s)"

text \<open>
  \<open>uLong uncompressedsize = lvlx * lvly * lvlz\<close>, computed in 32 bits. Where four is added to it the
  sum is not reduced: a level within four bytes of 4 GB cannot be allocated.
\<close>

definition uncompressedsize :: "world \<Rightarrow> nat" where
  "uncompressedsize s = unat (ucast (lvlx s) * ucast (lvly s) * ucast (lvlz s) :: i32)"

definition z_failed :: "int \<Rightarrow> bool" where
  \<comment> \<open>\<open>Z_BUF_ERROR\<close>, \<open>Z_MEM_ERROR\<close>, \<open>Z_DATA_ERROR\<close>\<close>
  "z_failed r \<longleftrightarrow> r = - 5 \<or> r = - 4 \<or> r = - 3"

definition levelFinalize :: "world \<Rightarrow> world" where
  "levelFinalize s =
     (let (fs, s) = recvs tunnelSock [RecvW 2, RecvW 2, RecvW 2] s;
          x = fs ! 0; y = fs ! 1; z = fs ! 2;
          s = s\<lparr>lvlx := ntohs (ld16 x), lvly := ntohs (ld16 y), lvlz := ntohs (ld16 z)\<rparr>;
          s = sends serverSock [SendW [0x04], SendW x, SendW y, SendW z] s;
          more = uncompressedsize s + 4;
          next_in = take (nat (mapSize s)) (mapC s);
          (heap, s) = fresh more s;
          outputbuf = put_at 0 (inflate s 31 next_in more) heap
      in if z_failed (inflateEnd s 31 next_in more) then s\<lparr>status := Exited\<rparr>
         else s\<lparr>mapC := [], mapSize := 0, blocks := take 4 outputbuf,
                lmap := take (uncompressedsize s) (drop 4 outputbuf)\<rparr>)"

definition levelFastFinalize :: "world \<Rightarrow> world" where
  \<comment> \<open>not called by the program: the bytes it inflates never reach \<open>map\<close>\<close>
  "levelFastFinalize s =
     (let (fs, s) = recvs tunnelSock [RecvW 2, RecvW 2, RecvW 2] s;
          x = fs ! 0; y = fs ! 1; z = fs ! 2;
          s = s\<lparr>lvlx := ntohs (ld16 x), lvly := ntohs (ld16 y), lvlz := ntohs (ld16 z)\<rparr>;
          s = sends serverSock [SendW [0x04], SendW x, SendW y, SendW z] s;
          next_in = take (nat (mapSize s)) (mapC s);
          more = uncompressedsize s + 4;
          s = copied (uncompressedsize s) (length (inflate s (- 8) next_in more)) s
      in if z_failed (inflateEnd s (- 8) next_in more) then s\<lparr>status := Exited\<rparr>
         else let (m, s) = resize (uncompressedsize s) (lmap s) s
              in s\<lparr>mapC := [], mapSize := 0, lmap := m\<rparr>)"

section \<open>Facts about the index\<close>

definition flat_index :: "int \<Rightarrow> int \<Rightarrow> int \<Rightarrow> int \<Rightarrow> int \<Rightarrow> int" where
  "flat_index lx lz x y z = y * (lx * lz) + z * lz + x"

lemma calculateOffset_wraps:
  "calculateOffset x y z s
     = signed_take_bit 31 (flat_index (uint (lvlx s)) (uint (lvlz s)) (sint x) (sint y) (sint z))"
proof -
  have "(scast y * (ucast (lvlx s) * ucast (lvlz s)) + scast z * ucast (lvlz s) + scast x :: i32)
      = word_of_int (flat_index (uint (lvlx s)) (uint (lvlz s)) (sint x) (sint y) (sint z))"
    by (simp add: flat_index_def)
  then show ?thesis by (simp add: calculateOffset_def sint_sbintrunc')
qed

lemma calculateOffset_exact:
  assumes "- (2 ^ 31) \<le> flat_index (uint (lvlx s)) (uint (lvlz s)) (sint x) (sint y) (sint z)"
    and "flat_index (uint (lvlx s)) (uint (lvlz s)) (sint x) (sint y) (sint z) < 2 ^ 31"
  shows "calculateOffset x y z s = flat_index (uint (lvlx s)) (uint (lvlz s)) (sint x) (sint y) (sint z)"
  unfolding calculateOffset_wraps using assms by (simp add: signed_take_bit_int_eq_self)

lemma sint_small: "uint (w :: u16) < 2 ^ 15 \<Longrightarrow> sint w = uint w"
proof -
  assume "uint w < 2 ^ 15"
  moreover have "0 \<le> uint w" by simp
  ultimately have "signed_take_bit 15 (uint w) = uint w"
    by (intro signed_take_bit_int_eq_self) linarith+
  then show ?thesis by (simp add: sint_uint)
qed

definition in_level :: "world \<Rightarrow> u16 \<Rightarrow> u16 \<Rightarrow> u16 \<Rightarrow> bool" where
  "in_level s x y z \<longleftrightarrow> x < lvlx s \<and> y < lvly s \<and> z < lvlz s"

definition volume :: "world \<Rightarrow> int" where
  "volume s = uint (lvlx s) * uint (lvly s) * uint (lvlz s)"

text \<open>Coordinates fit a \<open>short\<close> and no index of the level leaves the range of \<open>int\<close>.\<close>

definition small_level :: "world \<Rightarrow> bool" where
  "small_level s \<longleftrightarrow> uint (lvlx s) \<le> 2 ^ 15 \<and> uint (lvly s) \<le> 2 ^ 15 \<and> uint (lvlz s) \<le> 2 ^ 15
     \<and> volume s + uint (lvlz s) * uint (lvlz s) + uint (lvlx s) < 2 ^ 31"

lemma flat_index_nonneg:
  "0 \<le> x \<Longrightarrow> 0 \<le> y \<Longrightarrow> 0 \<le> z \<Longrightarrow> 0 \<le> lx \<Longrightarrow> 0 \<le> lz \<Longrightarrow> 0 \<le> flat_index lx lz x y z"
  by (simp add: flat_index_def)

lemma flat_index_upper:
  assumes "0 \<le> lx" "0 \<le> lz" "x < lx" "y < ly" "z < lz"
  shows "flat_index lx lz x y z \<le> (ly - 1) * (lx * lz) + (lz - 1) * lz + (lx - 1)"
proof -
  from assms have "y * (lx * lz) \<le> (ly - 1) * (lx * lz)" by (intro mult_right_mono) auto
  moreover from assms have "z * lz \<le> (lz - 1) * lz" by (intro mult_right_mono) auto
  ultimately show ?thesis using assms by (simp add: flat_index_def)
qed

lemma in_level_uint:
  "in_level s x y z \<Longrightarrow> uint x < uint (lvlx s) \<and> uint y < uint (lvly s) \<and> uint z < uint (lvlz s)"
  by (simp add: in_level_def word_less_def)

lemma calculateOffset_in:
  assumes small: "small_level s" and inl: "in_level s x y z"
  shows "calculateOffset x y z s
    = flat_index (uint (lvlx s)) (uint (lvlz s)) (uint x) (uint y) (uint z)"
proof -
  let ?lx = "uint (lvlx s)" and ?ly = "uint (lvly s)" and ?lz = "uint (lvlz s)"
  note u = in_level_uint [OF inl]
  have sints: "sint x = uint x" "sint y = uint y" "sint z = uint z"
    using u small by (auto simp: small_level_def intro!: sint_small)
  have "flat_index ?lx ?lz (uint x) (uint y) (uint z)
      \<le> (?ly - 1) * (?lx * ?lz) + (?lz - 1) * ?lz + (?lx - 1)"
    by (rule flat_index_upper) (use u in auto)
  also have "\<dots> \<le> volume s + ?lz * ?lz + ?lx"
    by (simp add: volume_def algebra_simps)
  also have "\<dots> < 2 ^ 31" using small by (simp add: small_level_def)
  finally have "flat_index ?lx ?lz (uint x) (uint y) (uint z) < 2 ^ 31" .
  moreover have "0 \<le> flat_index ?lx ?lz (uint x) (uint y) (uint z)"
    by (rule flat_index_nonneg) auto
  ultimately show ?thesis by (simp add: calculateOffset_exact sints)
qed

lemma mixed_radix_inj:
  fixes n :: int
  assumes "0 \<le> x" "x < n" "0 \<le> x'" "x' < n" "z * n + x = z' * n + x'"
  shows "z = z' \<and> x = x'"
proof -
  have "(c * n + b) div n = c" if "0 \<le> b" "b < n" for b c
    using that by simp
  with assms have "z = z'" by metis
  with assms(5) show ?thesis by simp
qed

text \<open>On a level whose length equals its width the index is a bijection onto the buffer.\<close>

lemma square_index_bounds:
  assumes "small_level s" "lvlx s = lvlz s" "in_level s x y z"
  shows "0 \<le> calculateOffset x y z s \<and> calculateOffset x y z s < volume s"
proof -
  let ?n = "uint (lvlz s)" and ?ly = "uint (lvly s)"
  note u = in_level_uint [OF assms(3)]
  have off: "calculateOffset x y z s = flat_index ?n ?n (uint x) (uint y) (uint z)"
    using calculateOffset_in [OF assms(1,3)] assms(2) by simp
  have "flat_index ?n ?n (uint x) (uint y) (uint z)
      \<le> (?ly - 1) * (?n * ?n) + (?n - 1) * ?n + (?n - 1)"
    by (rule flat_index_upper) (use u assms(2) in auto)
  also have "\<dots> = volume s - 1" by (simp add: volume_def assms(2) algebra_simps)
  finally show ?thesis unfolding off using flat_index_nonneg by simp
qed

lemma square_index_inj:
  assumes "small_level s" "lvlx s = lvlz s" "in_level s x y z" "in_level s x' y' z'"
    and "calculateOffset x y z s = calculateOffset x' y' z' s"
  shows "x = x' \<and> y = y' \<and> z = z'"
proof -
  let ?n = "uint (lvlz s)"
  note u = in_level_uint [OF assms(3)] and u' = in_level_uint [OF assms(4)]
  have eq: "flat_index ?n ?n (uint x) (uint y) (uint z) = flat_index ?n ?n (uint x') (uint y') (uint z')"
    using calculateOffset_in [OF assms(1,3)] calculateOffset_in [OF assms(1,4)] assms(2,5) by simp
  have "flat_index ?n ?n a b c = (b * ?n + c) * ?n + a" for a b c
    by (simp add: flat_index_def algebra_simps)
  with eq have "(uint y * ?n + uint z) * ?n + uint x = (uint y' * ?n + uint z') * ?n + uint x'"
    by simp
  then have "uint y * ?n + uint z = uint y' * ?n + uint z' \<and> uint x = uint x'"
    by (intro mixed_radix_inj) (use u u' assms(2) in auto)
  moreover from this have "uint y = uint y' \<and> uint z = uint z'"
    by (intro mixed_radix_inj [of _ ?n]) (use u u' in auto)
  ultimately show ?thesis by (simp add: word_uint_eq_iff)
qed

lemma uint_minus_one: "(w :: u16) \<noteq> 0 \<Longrightarrow> uint (w - 1) = uint w - 1"
proof -
  assume "w \<noteq> 0"
  then have "uint (1 :: u16) \<le> uint w" by (simp add: word_neq_0_conv word_less_def)
  then have "uint (w - 1) = uint w - uint (1 :: u16)" by (rule uint_sub_lem [THEN iffD1])
  then show ?thesis by simp
qed

text \<open>On a level longer than wide the far corner lies outside the buffer.\<close>

lemma corner_outside:
  assumes "small_level s" "lvlx s < lvlz s" "1 \<le> lvlx s" "1 \<le> lvly s"
  shows "in_level s (lvlx s - 1) (lvly s - 1) (lvlz s - 1)"
    and "volume s \<le> calculateOffset (lvlx s - 1) (lvly s - 1) (lvlz s - 1) s"
proof -
  let ?x = "lvlx s - 1" and ?y = "lvly s - 1" and ?z = "lvlz s - 1"
  let ?lx = "uint (lvlx s)" and ?ly = "uint (lvly s)" and ?lz = "uint (lvlz s)"
  have nz: "lvlx s \<noteq> 0" "lvly s \<noteq> 0" "lvlz s \<noteq> 0" using assms(2-4) by auto
  then show inl: "in_level s ?x ?y ?z" by (simp add: in_level_def word_less_def uint_minus_one)
  have u: "uint ?x = ?lx - 1" "uint ?y = ?ly - 1" "uint ?z = ?lz - 1"
    using nz by (simp_all add: uint_minus_one)
  have "1 \<le> ?lx" using assms(3) by (simp add: word_le_def)
  moreover have "?lx + 1 \<le> ?lz" using assms(2) by (simp add: word_less_def)
  ultimately have "1 * 1 \<le> (?lz - 1) * (?lz - ?lx)" by (intro mult_mono) auto
  then have "volume s \<le> flat_index ?lx ?lz (?lx - 1) (?ly - 1) (?lz - 1)"
    by (simp add: volume_def flat_index_def algebra_simps)
  then show "volume s \<le> calculateOffset ?x ?y ?z s"
    by (simp add: calculateOffset_in [OF assms(1) inl] u)
qed

text \<open>
  C18: The index \<open>calculateOffset\<close> computes names every cell of the level by its own byte of
  the level buffer if and only if the level is as long as it is wide: the code multiplies
  \<open>z\<close> by the length where the width belongs. On a longer level indices run past the end of
  the buffer, on a wider one two cells share a byte.
\<close>

theorem calculateOffset_addresses_level:
  assumes "small_level s" and "2 \<le> lvlz s" and "1 \<le> lvlx s" and "1 \<le> lvly s"
  shows "((\<forall>x y z. in_level s x y z \<longrightarrow> 0 \<le> calculateOffset x y z s \<and> calculateOffset x y z s < volume s)
      \<and> (\<forall>x y z x' y' z'. in_level s x y z \<longrightarrow> in_level s x' y' z'
            \<longrightarrow> calculateOffset x y z s = calculateOffset x' y' z' s \<longrightarrow> x = x' \<and> y = y' \<and> z = z'))
    \<longleftrightarrow> lvlx s = lvlz s"
proof (cases "lvlx s" "lvlz s" rule: linorder_cases)
  case equal
  with assms(1) show ?thesis
    using square_index_bounds square_index_inj by blast
next
  case less
  then show ?thesis using corner_outside [OF assms(1) less assms(3,4)] by (metis not_le less_irrefl)
next
  case greater
  then have "in_level s (lvlz s) 0 0" "in_level s 0 0 1"
    using assms(2-4) by (auto simp: in_level_def word_less_nat_alt word_le_nat_alt)
  moreover have "calculateOffset (lvlz s) 0 0 s = calculateOffset 0 0 1 s"
    using calculation by (simp add: calculateOffset_in [OF assms(1)] flat_index_def)
  ultimately show ?thesis using greater by (metis less_irrefl zero_neq_one)
qed

definition cube :: world where
  "cube = start\<lparr>lvlx := 3, lvly := 3, lvlz := 3\<rparr>"

theorem calculateOffset_addresses_level_witness:
  "0 \<le> calculateOffset 2 1 2 cube \<and> calculateOffset 2 1 2 cube < volume cube
    \<and> calculateOffset 2 1 2 cube \<noteq> calculateOffset 1 2 2 cube"
proof -
  have "small_level cube" "2 \<le> lvlz cube" "1 \<le> lvlx cube" "1 \<le> lvly cube" "lvlx cube = lvlz cube"
    by (simp_all add: cube_def small_level_def volume_def word_le_def)
  moreover have "in_level cube 2 1 2" "in_level cube 1 2 2"
    by (simp_all add: in_level_def cube_def word_less_def)
  moreover have "(2 :: u16) \<noteq> 1" by simp
  ultimately show ?thesis using calculateOffset_addresses_level [of cube] by blast
qed

text \<open>What the copy of the level holds at a cell.\<close>

definition under :: "u16 \<times> u16 \<times> u16 \<Rightarrow> world \<Rightarrow> byte option" where
  "under p s = (case p of (x, y, z) \<Rightarrow> map_read (calculateOffset x y z s) s)"

lemma under_cong:
  "lmap t = lmap s \<Longrightarrow> lvlx t = lvlx s \<Longrightarrow> lvlz t = lvlz s \<Longrightarrow> under p t = under p s"
  by (simp add: under_def calculateOffset_def map_read_def split: prod.split)

section \<open>Facts about the download\<close>

text \<open>What of the level data is there: the first \<open>mapSize\<close> bytes of \<open>mapC\<close>.\<close>

definition received :: "world \<Rightarrow> byte list" where
  "received s = take (nat (mapSize s)) (mapC s)"

definition download_ok :: "world \<Rightarrow> bool" where
  "download_ok s \<longleftrightarrow> 0 \<le> mapSize s \<and> nat (mapSize s) \<le> length (mapC s)"

lemma sint_of_nat16: "n < 2 ^ 15 \<Longrightarrow> sint (of_nat n :: u16) = int n"
proof -
  assume n: "n < 2 ^ 15"
  then have "uint (of_nat n :: u16) = int n"
    by (simp add: unsigned_of_nat take_bit_nat_eq_self)
  with n show ?thesis by (simp add: sint_small)
qed

lemma levelData_run:
  assumes out: "accepts s serverSock = []"
    and n: "n \<le> 1024" and len: "length data = n" "length pad = 1024 - n"
    and inp: "incoming tunnelSock s = st16 (htons (of_nat n)) @ data @ pad @ [pct] @ rest"
  shows "levelData s = s\<lparr>
    segs := (segs s)(tunnelSock := skip 1027 (segs s tunnelSock)),
    sent := (sent s)(serverSock := sent s serverSock
      @ 3 # st16 (htons (of_nat n)) @ data @ pad @ [pct]),
    indet := (\<lambda>i. indet s (nat (mapSize s + int n) + n - length (mapC s) + (n + i))),
    mapSize := mapSize s + int n,
    mapC := put_at (nat (mapSize s + int n) - n) data
      (take (nat (mapSize s + int n) + n) (mapC s)
       @ map (indet s) [0 ..< nat (mapSize s + int n) + n - length (mapC s)])\<rparr>"
proof -
  have h: "sint (of_nat n :: u16) = int n" using n by (simp add: sint_of_nat16)
  note run = levelData_def recvW_enough wire_simps inp h emit_def sendW_open resize_def fresh_def sip_def
  show ?thesis
  proof (cases "n = 1024")
    case False
    then have "n < 1024" using n by simp
    then show ?thesis using out len by (simp add: run) (simp add: Let_def)
  next
    case True
    then show ?thesis using out len by (simp add: run)
  qed
qed

lemma levelFinalize_run:
  assumes out: "accepts s serverSock = []"
    and len: "length bx = 2" "length bY = 2" "length bz = 2"
    and inp: "incoming tunnelSock s = bx @ bY @ bz @ rest"
    and vol: "vol = unat (ucast (ntohs (ld16 bx)) * ucast (ntohs (ld16 bY)) * ucast (ntohs (ld16 bz)) :: i32)"
    and ok: "\<not> z_failed (inflateEnd s 31 (received s) (vol + 4))"
    and z: "inflate s 31 (received s) (vol + 4) = hdr @ cells" "length hdr = 4" "length cells = vol"
  shows "levelFinalize s = s\<lparr>
    segs := (segs s)(tunnelSock := skip 6 (segs s tunnelSock)),
    sent := (sent s)(serverSock := sent s serverSock @ 4 # bx @ bY @ bz),
    lvlx := ntohs (ld16 bx), lvly := ntohs (ld16 bY), lvlz := ntohs (ld16 bz),
    indet := (\<lambda>i. indet s (vol + 4 + i)),
    mapC := [], mapSize := 0, blocks := hdr, lmap := cells\<rparr>"
proof -
  have r: "readable [RecvW 2, RecvW 2, RecvW 2] (segs s tunnelSock)"
    by (rule readable_wrapped) (simp_all add: inp len)
  show ?thesis
    using out len z ok
    by (simp add: levelFinalize_def wire_simps recvs_ready [OF r] inp
        uncompressedsize_def vol [symmetric] received_def sip_def emit_def fresh_def put_at_def)
qed

lemma levelData_facts:
  assumes "download_ok s" and "accepts s serverSock = []"
    and "n \<le> 1024" and "length data = n" "length pad = 1024 - n"
    and "incoming tunnelSock s = st16 (htons (of_nat n)) @ data @ pad @ [pct] @ rest"
  shows "download_ok (levelData s) \<and> received (levelData s) = received s @ data
    \<and> sent (levelData s) serverSock
        = sent s serverSock @ [0x03] @ st16 (htons (of_nat n)) @ data @ pad @ [pct]
    \<and> incoming tunnelSock (levelData s) = rest"
  using assms by (simp add: levelData_run received_def download_ok_def put_at_def nat_add_distrib)

text \<open>
  C19: A level-data packet with a chunk of at most 1024 bytes is relayed to the game client
  byte for byte, and its chunk is appended to the compressed level kept so far.
\<close>

theorem levelData_accumulates:
  assumes "download_ok s" and "accepts s serverSock = []"
    and "n \<le> 1024" and "length data = n" "length pad = 1024 - n"
    and "incoming tunnelSock s = st16 (htons (of_nat n)) @ data @ pad @ [pct] @ rest"
  shows "download_ok (levelData s) \<and> received (levelData s) = received s @ data
    \<and> sent (levelData s) serverSock
        = sent s serverSock @ [0x03] @ st16 (htons (of_nat n)) @ data @ pad @ [pct]
    \<and> incoming tunnelSock (levelData s) = rest"
  by (rule levelData_facts [OF assms])

definition one_chunk :: world where
  "one_chunk = start\<lparr>segs := (\<lambda>_. [])(tunnelSock :=
     [[4], [0], replicate 1000 7, replicate 24 7 @ [100]])\<rparr>"

theorem levelData_accumulates_witness:
  "received (levelData one_chunk) = replicate 1024 7
    \<and> sent (levelData one_chunk) serverSock = [3, 4, 0] @ replicate 1024 7 @ [100]"
proof -
  have be: "st16 (htons 1024) = [4, 0]" by (simp add: st16_def htons_def)
  have "replicate 1000 7 @ replicate 24 7 = replicate 1024 (7 :: byte)"
    by (simp only: replicate_add [symmetric]) simp
  then have inp: "incoming tunnelSock one_chunk
      = st16 (htons (of_nat 1024)) @ replicate 1024 7 @ [] @ [100] @ []"
    by (simp add: one_chunk_def start_def be)
  have "download_ok one_chunk" "accepts one_chunk serverSock = []"
    by (simp_all add: one_chunk_def start_def download_ok_def)
  from levelData_accumulates [OF this _ _ _ inp] show ?thesis
    by (simp add: be) (simp add: one_chunk_def start_def received_def)
qed

end
