(* ===== verification/Outgoing.thy ===== *)
theory Outgoing
  imports Level
begin

text \<open>
  The packets the tunnel makes up itself: the protocol functions at the head of
  \<open>src/helper.c\<close> and \<open>tunnelMsg\<close> of \<open>src/server.c\<close>. Coordinates go through \<open>htons\<close>
  and are sent as the host stores them.
\<close>

definition coords :: "u16 \<Rightarrow> u16 \<Rightarrow> u16 \<Rightarrow> byte list list" where
  \<comment> \<open>the three \<open>memcpy\<close>s into \<open>buf\<close>, after \<open>htons\<close>\<close>
  "coords x y z = [st16 (htons x), st16 (htons y), st16 (htons z)]"

definition tunnelTeleport :: "u16 \<Rightarrow> u16 \<Rightarrow> u16 \<Rightarrow> byte \<Rightarrow> byte \<Rightarrow> 'a net_scheme \<Rightarrow> 'a net_scheme" where
  "tunnelTeleport x y z yaw pitch =
     sends serverSock ([SendW [0x08], SendW [255]] @ map SendW (coords x y z)
       @ [SendW [yaw], SendW [pitch]])"

definition tunnelMove :: "u16 \<Rightarrow> u16 \<Rightarrow> u16 \<Rightarrow> byte \<Rightarrow> byte \<Rightarrow> 'a net_scheme \<Rightarrow> 'a net_scheme" where
  "tunnelMove x y z yaw pitch =
     sends tunnelSock ([SendW [0x08], SendW [255]] @ map SendW (coords x y z)
       @ [SendW [yaw], SendW [pitch]])"

definition tunnelSetBlock :: "u16 \<Rightarrow> u16 \<Rightarrow> u16 \<Rightarrow> byte \<Rightarrow> 'a net_scheme \<Rightarrow> 'a net_scheme" where
  "tunnelSetBlock x y z bid =
     sends serverSock ([SendW [0x06]] @ map SendW (coords x y z) @ [SendW [bid]])"

text \<open>
  \<open>setBlock\<close> with \<open>sendpos\<close> first moves the player next to the block. The statement
  \<open>cunt + 64;\<close> of the code computes a value and drops it.
\<close>

definition setBlock :: "u16 \<Rightarrow> u16 \<Rightarrow> u16 \<Rightarrow> byte \<Rightarrow> bool \<Rightarrow> 'a net_scheme \<Rightarrow> 'a net_scheme" where
  "setBlock x y z bid sendpos s =
     (let s = (if sendpos then
                 let s = tunnelSetBlock x y z bid s;
                     s = remark (Slept 5) s;
                     s = tunnelMove (x * 32) (y * 32) (z * 32) 0 0 s
                 in tunnelTeleport (x * 32) (y * 32) (z * 32) 0 0 s
               else s);
          (p, bid) = (if bid = 0 then (0, 1) else (1, bid))
      in sends tunnelSock ([SendW [0x05]] @ map SendW (coords x y z) @ [SendW [p], SendW [bid]]) s)"

definition sendMessage :: "byte \<Rightarrow> byte list \<Rightarrow> 'a net_scheme \<Rightarrow> 'a net_scheme" where
  "sendMessage pid msg = sends tunnelSock [SendW [0x0d], SendW [pid], SendW (toMCString msg)]"

definition tunnelMsg :: "byte list \<Rightarrow> 'a net_scheme \<Rightarrow> 'a net_scheme" where
  \<comment> \<open>plain \<open>send\<close>s\<close>
  "tunnelMsg msg = sends serverSock [Send [0x0d], Send [0], Send (toMCString msg)]"

section \<open>The bytes of these packets\<close>

definition be16 :: "u16 \<Rightarrow> byte list" where
  \<comment> \<open>network order\<close>
  "be16 w = [ucast (drop_bit 8 w), ucast w]"

lemma st16_htons_be [simp]: "st16 (htons w) = be16 w"
  by (simp add: st16_htons) (simp add: st16_def be16_def)

lemma be16_of_ld16: "length bs = 2 \<Longrightarrow> be16 (ntohs (ld16 bs)) = bs"
  by (simp flip: st16_htons_be)

lemma ld16_be16: "ntohs (ld16 (be16 w)) = w"
  by (simp flip: st16_htons_be)

lemma length_be16 [simp]: "length (be16 w) = 2"
  by (simp add: be16_def)

definition posbytes :: "u16 \<Rightarrow> u16 \<Rightarrow> u16 \<Rightarrow> byte list" where
  "posbytes x y z = be16 x @ be16 y @ be16 z"

lemma length_posbytes [simp]: "length (posbytes x y z) = 6"
  by (simp add: posbytes_def)

definition message :: "byte \<Rightarrow> byte list \<Rightarrow> byte list" where
  "message pid msg = [0x0d, pid] @ toMCString msg"

lemma tunnelTeleport_open [wire_simps]:
  "accepts s serverSock = [] \<Longrightarrow> tunnelTeleport x y z yaw pitch s
     = emit serverSock ([0x08, 255] @ posbytes x y z @ [yaw, pitch]) s"
  by (simp add: tunnelTeleport_def sends_open coords_def posbytes_def)

lemma tunnelMove_open [wire_simps]:
  "accepts s tunnelSock = [] \<Longrightarrow> tunnelMove x y z yaw pitch s
     = emit tunnelSock ([0x08, 255] @ posbytes x y z @ [yaw, pitch]) s"
  by (simp add: tunnelMove_def sends_open coords_def posbytes_def)

lemma tunnelSetBlock_open [wire_simps]:
  "accepts s serverSock = [] \<Longrightarrow> tunnelSetBlock x y z bid s
     = emit serverSock ([0x06] @ posbytes x y z @ [bid]) s"
  by (simp add: tunnelSetBlock_def sends_open coords_def posbytes_def)

lemma sendMessage_open [wire_simps]:
  "accepts s tunnelSock = [] \<Longrightarrow> sendMessage pid msg s = emit tunnelSock (message pid msg) s"
  by (simp add: sendMessage_def sends_open message_def)

lemma tunnelMsg_open [wire_simps]:
  "accepts s serverSock = [] \<Longrightarrow> tunnelMsg msg s = emit serverSock (message 0 msg) s"
  by (simp add: tunnelMsg_def sends_open message_def)

text \<open>What \<open>setBlock\<close> asks of the game server.\<close>

definition place_packet :: "u16 \<Rightarrow> u16 \<Rightarrow> u16 \<Rightarrow> byte \<Rightarrow> byte list" where
  "place_packet x y z bid = [0x05] @ posbytes x y z @ (if bid = 0 then [0, 1] else [1, bid])"

definition move_packet :: "u16 \<Rightarrow> u16 \<Rightarrow> u16 \<Rightarrow> byte list" where
  "move_packet x y z = [0x08, 255] @ posbytes (x * 32) (y * 32) (z * 32) @ [0, 0]"

lemma setBlock_open [wire_simps]:
  "accepts s serverSock = [] \<Longrightarrow> accepts s tunnelSock = [] \<Longrightarrow> setBlock x y z bid sendpos s =
     (if sendpos then
        s\<lparr>sent := (sent s)(serverSock := sent s serverSock @ [0x06] @ posbytes x y z @ [bid] @ move_packet x y z,
                     tunnelSock := sent s tunnelSock @ move_packet x y z @ place_packet x y z bid),
          remarks := remarks s @ [Slept 5]\<rparr>
      else emit tunnelSock (place_packet x y z bid) s)"
  by (simp add: setBlock_def wire_simps coords_def posbytes_def place_packet_def move_packet_def
      emit_def remark_def fun_upd_twist)

end
