(* ===== verification/FromServer.thy ===== *)
theory FromServer
  imports Outgoing
begin

text \<open>
  The thread that serves the game server: \<open>mcConnect\<close> of \<open>src/client.c\<close>. One definition per
  packet, in the code's order: the fields it receives from \<open>tunnelSock\<close>, what it does with
  them, what it sends to the game client on \<open>serverSock\<close>. A run of \<open>RecvW\<close> and \<open>SendW\<close> is
  the code's \<open>recvW\<close> and \<open>sendW\<close> calls, a \<open>Recv\<close> or \<open>Send\<close> one of its plain \<open>recv\<close> or
  \<open>send\<close> calls. A \<open>short\<close> that is only copied through a buffer stays the two bytes it
  arrived as.
\<close>

section \<open>Login and the session packets\<close>

definition mc_login :: "world \<Rightarrow> world" where
  "mc_login s =
     (let s = (if useCPE s = 0 then s\<lparr>unused := 0\<rparr> else s)
      in sends tunnelSock [SendW [0x00], SendW [7], SendW (toMCString (username s)),
           SendW (toMCString (mppass s)), SendW [unused s]] s)"

text \<open>
  The connection: what the resolver and the socket calls answer is an argument. The result of
  \<open>gethostbyname\<close> is followed without a test; the other two failures are tested for and end
  the program.
\<close>

datatype dial = Unresolved | NoSocket | Refused | Connected

definition mc_connect :: "dial \<Rightarrow> world \<Rightarrow> world" where
  "mc_connect d s =
     (case d of Unresolved \<Rightarrow> crash NullHost s
      | NoSocket \<Rightarrow> s\<lparr>status := Exited\<rparr>
      | Refused \<Rightarrow> s\<lparr>status := Exited\<rparr>
      | Connected \<Rightarrow> mc_login s)"

text \<open>
  \<open>sprintf(buf, haxType)\<close> into 64 bytes: the text is a format. A \<open>%\<close> in it is recorded, and
  the model then goes on with the text itself.
\<close>

definition sprintf_hax :: "world \<Rightarrow> byte list \<times> world" where
  "sprintf_hax s =
     (let s = (if 37 \<in> set (cstr (haxType s)) then remark (Format (haxType s)) s else s);
          s = copied 64 (Suc (length (cstr (haxType s)))) s
      in (cstr (haxType s), s))"

definition mc_motd :: "world \<Rightarrow> world" where
  "mc_motd s =
     (let (fs, s) = recvs tunnelSock [RecvW 1, RecvW 64, RecvW 64, Recv 1] s;
          cservername = fs ! 1; cmotd = fs ! 2; fucker = fs ! 3;
          (haxMotd, haxServername, s) =
            (if hax s = 1 then
               let (buf1, s) = sprintf_hax s; (buf2, s) = sprintf_hax s
               in (toMCString buf1, toMCString buf2, s)
             else (strncpy 64 cmotd, strncpy 64 cservername, s));
          s = sends serverSock [SendW [0x00], SendW [0x07], SendW haxServername,
                SendW haxMotd, Send fucker] s
      in s\<lparr>motd := strncpy 64 cmotd, servername := strncpy 64 cservername, gotMotd := True\<rparr>)"

definition mc_ping :: "world \<Rightarrow> world" where
  "mc_ping s = sends serverSock [SendW [0x01]] s"

definition mc_levelInit :: "world \<Rightarrow> world" where
  "mc_levelInit s =
     (if fastMap (cpeServer s) \<and> fastMap (cpeClient s) then
        let (fs, s) = recvs tunnelSock [RecvW 4] s
        in sends serverSock (SendW [0x02] # map SendW fs) s
      else sends serverSock [SendW [0x02]] s)"

definition mc_levelData :: "world \<Rightarrow> world" where
  "mc_levelData s =
     (if fastMap (cpeServer s) \<and> fastMap (cpeClient s) then levelData s else levelData s)"

definition mc_levelFinalize :: "world \<Rightarrow> world" where
  "mc_levelFinalize s =
     (let s = levelFinalize s
      in if status s \<noteq> Running then s
         else
           let s = (if joined s then s
                    else tunnelMsg (lit ''&0[&4LavaTunnel&0] &fType '' @ [39] @ lit ''help for commands.'') s)
           in s\<lparr>joined := True\<rparr>)"

definition mc_setBlock :: "world \<Rightarrow> world" where
  "mc_setBlock s =
     (let (fs, s) = recvs tunnelSock [RecvW 2, RecvW 2, RecvW 2, RecvW 1] s;
          x = ld16 (fs ! 0); y = ld16 (fs ! 1); z = ld16 (fs ! 2); block = fs ! 3;
          s = sends serverSock (SendW [0x06] # map SendW fs) s;
          offset = calculateOffset (ntohs x) (ntohs y) (ntohs z) s
      in map_write offset (block ! 0) s)"

section \<open>Players\<close>

fun ignore_loop :: "int \<Rightarrow> nat list \<Rightarrow> world \<Rightarrow> world" where
  "ignore_loop pid [] s = s"
| "ignore_loop pid (i # is) s =
     (let (r, s) = row i (ignores s) s;
          (eq, s) = call_strEqual (p_username (players s pid)) r True s;
          s = (if eq then upd_player pid (\<lambda>p. p\<lparr>p_ignore := True\<rparr>) s else s)
      in ignore_loop pid is s)"

definition check_ignores :: "int \<Rightarrow> world \<Rightarrow> world" where
  "check_ignores pid s = ignore_loop pid [0 ..< nat (ignoreN s + 1)] s"

definition mc_spawn :: "world \<Rightarrow> world" where
  "mc_spawn s =
     (let (fs, s) = recvs tunnelSock
            [RecvW 1, RecvW 64, RecvW 2, RecvW 2, RecvW 2, RecvW 1, RecvW 1] s;
          pid = uint (fs ! 0 ! 0); name = fs ! 1;
          (behind, s) = fresh 1 s;
          s = upd_player pid (\<lambda>p. p\<lparr>p_pid := fs ! 0 ! 0,
                p_username := cleanString (p_username p) name (behind ! 0),
                p_x := ntohs (ld16 (fs ! 2)), p_y := ntohs (ld16 (fs ! 3)), p_z := ntohs (ld16 (fs ! 4)),
                p_yaw := fs ! 5 ! 0, p_pitch := fs ! 6 ! 0\<rparr>) s;
          s = check_ignores pid s;
          s = upd_player pid (\<lambda>p. p\<lparr>p_valid := True\<rparr>) s
      in sends serverSock (SendW [0x07] # map SendW fs) s)"

text \<open>What follows a position of a player that is being followed or plotted.\<close>

definition trail :: "int \<Rightarrow> world \<Rightarrow> world" where
  "trail pid s =
     (let p = players s pid;
          s = (if p_mode p = 1 then tunnelTeleport (p_x p) (p_y p) (p_z p) (p_yaw p) (p_pitch p) s
               else s)
      in if p_mode p = 2 then
           let s = tunnelTeleport (p_x p) (p_y p) (p_z p) (p_yaw p) (p_pitch p) s
           in setBlock (p_x p div 32) (p_y p div 32) (p_z p div 32) (plotBlock s) True s
         else s)"

definition mc_position :: "world \<Rightarrow> world" where
  "mc_position s =
     (if extEntityPos (cpeClient s) \<and> extEntityPos (cpeServer s) then
        let (fs, s) = recvs tunnelSock [RecvW 1, RecvW 4, RecvW 4, RecvW 4, RecvW 1, RecvW 1] s;
            pid = uint (fs ! 0 ! 0);
            s = upd_player pid (\<lambda>p. p\<lparr>p_x := ntohs 69, p_y := ntohs 69, p_z := ntohs 69,
                  p_yaw := fs ! 4 ! 0, p_pitch := fs ! 5 ! 0\<rparr>) s;
            s = sends serverSock (SendW [0x08] # map SendW fs) s
        in trail pid s
      else
        let (fs, s) = recvs tunnelSock [RecvW 1, RecvW 2, RecvW 2, RecvW 2, RecvW 1, RecvW 1] s;
            pid = uint (fs ! 0 ! 0);
            s = upd_player pid (\<lambda>p. p\<lparr>p_x := ntohs (ld16 (fs ! 1)), p_y := ntohs (ld16 (fs ! 2)),
                  p_z := ntohs (ld16 (fs ! 3)), p_yaw := fs ! 4 ! 0, p_pitch := fs ! 5 ! 0\<rparr>) s;
            s = sends serverSock (SendW [0x08] # map SendW fs) s
        in trail pid s)"

definition mc_moveLook :: "world \<Rightarrow> world" where
  "mc_moveLook s =
     (let (fs, s) = recvs tunnelSock [RecvW 1, RecvW 1, RecvW 1, RecvW 1, RecvW 1, RecvW 1] s;
          pid = uint (fs ! 0 ! 0);
          s = upd_player pid (\<lambda>p. p\<lparr>p_x := p_x p + scast (fs ! 1 ! 0), p_y := p_y p + scast (fs ! 2 ! 0),
                p_z := p_z p + scast (fs ! 3 ! 0), p_yaw := fs ! 4 ! 0, p_pitch := fs ! 5 ! 0\<rparr>) s;
          s = sends serverSock (SendW [0x09] # map SendW fs) s
      in trail pid s)"

definition mc_move :: "world \<Rightarrow> world" where
  "mc_move s =
     (let (fs, s) = recvs tunnelSock [RecvW 1, RecvW 1, RecvW 1, RecvW 1] s;
          pid = uint (fs ! 0 ! 0);
          s = upd_player pid (\<lambda>p. p\<lparr>p_x := p_x p + scast (fs ! 1 ! 0), p_y := p_y p + scast (fs ! 2 ! 0),
                p_z := p_z p + scast (fs ! 3 ! 0)\<rparr>) s;
          s = sends serverSock (SendW [0x0a] # map SendW fs) s
      in trail pid s)"

definition mc_look :: "world \<Rightarrow> world" where
  "mc_look s =
     (let (fs, s) = recvs tunnelSock [RecvW 1, RecvW 1, RecvW 1] s;
          s = upd_player (uint (fs ! 0 ! 0)) (\<lambda>p. p\<lparr>p_yaw := fs ! 1 ! 0, p_pitch := fs ! 2 ! 0\<rparr>) s
      in sends serverSock (SendW [0x0b] # map SendW fs) s)"

definition mc_despawn :: "world \<Rightarrow> world" where
  "mc_despawn s =
     (let (fs, s) = recvs tunnelSock [RecvW 1] s;
          s = sends serverSock (SendW [0x0c] # map SendW fs) s
      in upd_player (uint (fs ! 0 ! 0)) (\<lambda>p. p\<lparr>p_valid := False, p_mode := 0\<rparr>) s)"

definition mc_chat :: "world \<Rightarrow> world" where
  "mc_chat s =
     (let (fs, s) = recvs tunnelSock [RecvW 1, RecvW 64] s
      in sends serverSock (SendW [0x0d] # map SendW fs) s)"

definition mc_kick :: "world \<Rightarrow> world" where
  "mc_kick s =
     (let (fs, s) = recvs tunnelSock [RecvW 64] s;
          s = s\<lparr>cuboid := (cuboid s)\<lparr>q_halt := True\<rparr>\<rparr>;
          s = sends serverSock (SendW [0x0e] # map SendW fs) s;
          s = remark (Slept 20) s;
          s = copied 64 65 s
      in s\<lparr>status := Exited\<rparr>)"

definition mc_usertype :: "world \<Rightarrow> world" where
  "mc_usertype s =
     (let (fs, s) = recvs tunnelSock [RecvW 1] s
      in sends serverSock (SendW [0x0f] # map SendW fs) s)"

section \<open>Protocol extensions\<close>

definition mc_extInfo :: "world \<Rightarrow> world" where
  "mc_extInfo s =
     (let (fs, s) = recvs tunnelSock [RecvW 64, RecvW 2] s;
          app = fs ! 0; count = htons (ntohs (ld16 (fs ! 1)));
          s = copied 1 2 s
      in sends serverSock [SendW [0x10], SendW app, SendW (st16 count)] s)"

definition mc_extEntry :: "world \<Rightarrow> world" where
  "mc_extEntry s =
     (let (fs, s) = recvs tunnelSock [RecvW 64, RecvW 4] s;
          nextname = nullTerm (strncpy 64 (fs ! 0));
          s = s\<lparr>cpeClient := ext_flag nextname (cpeClient s)\<rparr>
      in sends serverSock (SendW [0x11] # map SendW fs) s)"

definition mc_clickDistance :: "world \<Rightarrow> world" where
  "mc_clickDistance s =
     (let (fs, s) = recvs tunnelSock [RecvW 2] s
      in sends serverSock (SendW [0x12] # map SendW fs) s)"

definition mc_customBlocks :: "world \<Rightarrow> world" where
  "mc_customBlocks s =
     (let (fs, s) = recvs tunnelSock [Recv 1] s
      in sends serverSock (Send [0x13] # map Send fs) s)"

definition mc_holdThis :: "world \<Rightarrow> world" where
  \<comment> \<open>the code drops this packet\<close>
  "mc_holdThis s = (let (fs, s) = recvs tunnelSock [Recv 1, Recv 1] s in s)"

definition mc_textHotKey :: "world \<Rightarrow> world" where
  "mc_textHotKey s =
     (let (fs, s) = recvs tunnelSock [RecvW 64, RecvW 64, Recv 4, Recv 1] s;
          s = copied 3 4 s
      in sends serverSock [Send [0x15], SendW (fs ! 0), SendW (fs ! 1), Send (fs ! 2), Send (fs ! 3)] s)"

definition mc_extAddPlayerName :: "world \<Rightarrow> world" where
  "mc_extAddPlayerName s =
     (let (fs, s) = recvs tunnelSock [RecvW 2, RecvW 64, RecvW 64, RecvW 64, RecvW 1] s
      in sends serverSock (SendW [0x16] # map SendW fs) s)"

text \<open>
  \<open>char pid = entityid\<close> is signed. The positions in the packet are not used. The name is
  cleaned into an uninitialised array and copied from there.
\<close>

definition add_entity :: "byte \<Rightarrow> byte list \<Rightarrow> byte \<Rightarrow> byte \<Rightarrow> world \<Rightarrow> world" where
  "add_entity entityid skinname yaw pitch s =
     (let pid = schar entityid;
          s = upd_player pid (\<lambda>p. p\<lparr>p_pid := entityid, p_x := ntohs 20, p_y := ntohs 20, p_z := ntohs 20,
                p_yaw := yaw, p_pitch := pitch\<rparr>) s;
          (mrclean, s) = fresh 64 s;
          (behind, s) = fresh 1 s;
          mrclean = cleanString mrclean skinname (behind ! 0);
          s = upd_player pid (\<lambda>p. p\<lparr>p_username := put_at 0 (cstr mrclean @ [0]) (p_username p)\<rparr>) s;
          s = check_ignores pid s
      in upd_player pid (\<lambda>p. p\<lparr>p_valid := True\<rparr>) s)"

definition mc_extAddEntity2 :: "world \<Rightarrow> world" where
  "mc_extAddEntity2 s =
     (if extEntityPos (cpeClient s) \<and> extEntityPos (cpeServer s) then
        let (fs, s) = recvs tunnelSock
              [RecvW 1, RecvW 64, RecvW 64, RecvW 4, RecvW 4, RecvW 4, RecvW 1, RecvW 1] s
        in add_entity (fs ! 0 ! 0) (fs ! 2) (fs ! 6 ! 0) (fs ! 7 ! 0) s
      else
        let (fs, s) = recvs tunnelSock
              [RecvW 1, RecvW 64, RecvW 64, RecvW 2, RecvW 2, RecvW 2, RecvW 1, RecvW 1] s;
            s = sends serverSock (SendW [0x21] # map SendW fs) s
        in add_entity (fs ! 0 ! 0) (fs ! 2) (fs ! 6 ! 0) (fs ! 7 ! 0) s)"

definition mc_extRemovePlayerName :: "world \<Rightarrow> world" where
  \<comment> \<open>\<open>char pid = nameid\<close>: the low byte of the number as the host reads it, signed\<close>
  "mc_extRemovePlayerName s =
     (let (fs, s) = recvs tunnelSock [RecvW 2] s;
          s = sends serverSock (Send [0x18] # map Send fs) s
      in upd_player (schar (fs ! 0 ! 0)) (\<lambda>p. p\<lparr>p_valid := False\<rparr>) s)"

definition mc_envSetColor :: "world \<Rightarrow> world" where
  "mc_envSetColor s =
     (let (fs, s) = recvs tunnelSock [Recv 1, Recv 2, Recv 2, Recv 2] s
      in sends serverSock (Send [0x19] # map Send fs) s)"

definition mc_makeSelection :: "world \<Rightarrow> world" where
  "mc_makeSelection s =
     (let (fs, s) = recvs tunnelSock
            [Recv 1, Recv 64, Recv 2, Recv 2, Recv 2, Recv 2, Recv 2, Recv 2, Recv 2, Recv 2, Recv 2, Recv 2] s;
          s = copied 1 2 s
      in sends serverSock (Send [0x1A] # map Send fs) s)"

definition mc_removeSelection :: "world \<Rightarrow> world" where
  "mc_removeSelection s =
     (let (fs, s) = recvs tunnelSock [Recv 1] s
      in sends serverSock (Send [0x1B] # map Send fs) s)"

definition mc_setBlockPermission :: "world \<Rightarrow> world" where
  "mc_setBlockPermission s =
     (let (fs, s) = recvs tunnelSock [RecvW 1, RecvW 1, RecvW 1] s;
          (allowplace, allowdelete) = (if hax s = 1 then ([1], [1]) else (fs ! 1, fs ! 2))
      in sends serverSock [SendW [0x1C], SendW (fs ! 0), SendW allowplace, SendW allowdelete] s)"

definition mc_changeModel :: "world \<Rightarrow> world" where
  "mc_changeModel s =
     (let (fs, s) = recvs tunnelSock [Recv 1, RecvW 64] s
      in sends serverSock [Send [0x1D], Send (fs ! 0), SendW (fs ! 1)] s)"

definition mc_envMapAppearance :: "world \<Rightarrow> world" where
  "mc_envMapAppearance s =
     (let (fs, s) = recvs tunnelSock [RecvW 64, RecvW 1, RecvW 1, RecvW 2, RecvW 2, RecvW 2] s
      in sends serverSock (SendW [30] # map SendW fs) s)"

definition mc_envSetWeatherType :: "world \<Rightarrow> world" where
  "mc_envSetWeatherType s =
     (let (fs, s) = recvs tunnelSock [RecvW 1] s
      in sends serverSock (SendW [0x1F] # map SendW fs) s)"

text \<open>\<open>jumpheight\<close> is one \<open>char\<close> that two bytes are received into and two are copied from.\<close>

definition mc_hackControl :: "world \<Rightarrow> world" where
  "mc_hackControl s =
     (let (fs, s) = recvs tunnelSock [RecvW 1, RecvW 1, RecvW 1, RecvW 1, RecvW 1, RecvW 2] s;
          s = copied 1 2 s;
          out = (if hax s = 1 then [[255], [1], [255], [255], [1], [255, fs ! 5 ! 1]] else fs)
      in sends serverSock (SendW [0x20] # map SendW out) s)"

definition mc_playerClicked :: "world \<Rightarrow> world" where
  "mc_playerClicked s =
     (let (fs, s) = recvs tunnelSock
            [Recv 1, Recv 1, Recv 2, Recv 2, Recv 1, Recv 2, Recv 2, Recv 2, Recv 1] s
      in sends serverSock (Send [34] # map Send fs) s)"

definition mc_defineBlock :: "world \<Rightarrow> world" where
  "mc_defineBlock s =
     (let (fs, s) = recvs tunnelSock
            [RecvW 1, RecvW 64, RecvW 1, RecvW 1, RecvW 1, RecvW 1, RecvW 1, RecvW 1, RecvW 1,
             RecvW 1, RecvW 1, RecvW 1, RecvW 1, RecvW 1, RecvW 1, RecvW 1] s
      in sends serverSock
           ([SendW [35], SendW (fs ! 0), SendW (fs ! 1), SendW (fs ! 2), SendW (fs ! 3),
             SendW (fs ! 4), Send (fs ! 5)] @ map SendW (drop 6 fs)) s)"

definition mc_removeBlock :: "world \<Rightarrow> world" where
  "mc_removeBlock s =
     (let (fs, s) = recvs tunnelSock [RecvW 1] s
      in sends serverSock (SendW [36] # map SendW fs) s)"

definition mc_defineBlockExt :: "world \<Rightarrow> world" where
  "mc_defineBlockExt s =
     (let (fs, s) = recvs tunnelSock
            ([RecvW 1, RecvW 64]
             @ [RecvW 1, RecvW 1, RecvW 1, RecvW 1, RecvW 1, RecvW 1, RecvW 1]
             @ [RecvW 1, RecvW 1, RecvW 1, RecvW 1]
             @ [RecvW 1, RecvW 1, RecvW 1]
             @ [RecvW 1, RecvW 1, RecvW 1]
             @ [RecvW 1, RecvW 1, RecvW 1, RecvW 1, RecvW 1]) s
      in sends serverSock (SendW [37] # map SendW fs) s)"

definition mc_bulkBlocks :: "world \<Rightarrow> world" where
  "mc_bulkBlocks s =
     (let (fs, s) = recvs tunnelSock [RecvW 1, RecvW 1024, RecvW 256] s
      in sends serverSock (SendW [38] # map SendW fs) s)"

definition mc_textColor :: "world \<Rightarrow> world" where
  "mc_textColor s =
     (let (fs, s) = recvs tunnelSock [Recv 1, Recv 1, Recv 1, Recv 1, Recv 1] s
      in sends serverSock (Send [39] # map Send fs) s)"

definition mc_envUrl :: "world \<Rightarrow> world" where
  "mc_envUrl s =
     (let (fs, s) = recvs tunnelSock [RecvW 64] s
      in sends serverSock (SendW [40] # map SendW fs) s)"

definition mc_envProperty :: "world \<Rightarrow> world" where
  "mc_envProperty s =
     (let (fs, s) = recvs tunnelSock [RecvW 1, RecvW 4] s
      in sends serverSock (SendW [41] # map SendW fs) s)"

definition mc_entityProperty :: "world \<Rightarrow> world" where
  \<comment> \<open>received and not passed on\<close>
  "mc_entityProperty s = (let (fs, s) = recvs tunnelSock [RecvW 1, RecvW 2, RecvW 4] s in s)"

definition mc_twoWayPing :: "world \<Rightarrow> world" where
  "mc_twoWayPing s =
     (let (fs, s) = recvs tunnelSock [RecvW 1, RecvW 2] s
      in sends serverSock (SendW [43] # map SendW fs) s)"

definition mc_inventoryOrder :: "world \<Rightarrow> world" where
  "mc_inventoryOrder s =
     (let (fs, s) = recvs tunnelSock [RecvW 1, RecvW 1] s
      in sends serverSock (SendW [44] # map SendW fs) s)"

section \<open>The receive loop\<close>

text \<open>
  The connection to the game server is gone. The text is formatted into \<open>msg\<close> and then
  padded from \<open>msg\<close> into \<open>msg\<close>; \<open>bError\<close> waits for a key and ends the process.
\<close>

definition mc_disconnect :: "world \<Rightarrow> world" where
  "mc_disconnect s =
     (let s = sends serverSock [Send [0x0e]] s;
          (msg, s) = fresh 64 s;
          msg = put_at 0 (lit ''[LavaTunnel] Disconnected!'' @ [0]) msg;
          msg = map (toMCString_mem 0 0 ((!) msg)) [0 ..< 64];
          s = sends serverSock [SendW msg] s;
          s = remark (Slept 10) s
      in s\<lparr>status := Exited\<rparr>)"

text \<open>The chain of \<open>if (id == ...)\<close>: \<open>id\<close> is the same in every test, so at most one runs.\<close>

definition mc_handlers :: "(byte \<times> (world \<Rightarrow> world)) list" where
  "mc_handlers =
     [(0x00, mc_motd), (0x01, mc_ping), (0x02, mc_levelInit), (0x03, mc_levelData),
      (0x04, mc_levelFinalize), (0x06, mc_setBlock), (0x07, mc_spawn), (0x08, mc_position),
      (0x09, mc_moveLook), (0x0a, mc_move), (0x0b, mc_look), (0x0c, mc_despawn), (0x0d, mc_chat),
      (0x0e, mc_kick), (0x0f, mc_usertype), (0x10, mc_extInfo), (0x11, mc_extEntry),
      (0x12, mc_clickDistance), (0x13, mc_customBlocks), (0x14, mc_holdThis),
      (0x15, mc_textHotKey), (0x16, mc_extAddPlayerName), (0x21, mc_extAddEntity2),
      (0x18, mc_extRemovePlayerName), (0x19, mc_envSetColor), (0x1A, mc_makeSelection),
      (0x1B, mc_removeSelection), (0x1C, mc_setBlockPermission), (0x1D, mc_changeModel),
      (30, mc_envMapAppearance), (0x1F, mc_envSetWeatherType), (0x20, mc_hackControl),
      (34, mc_playerClicked), (35, mc_defineBlock), (36, mc_removeBlock), (37, mc_defineBlockExt),
      (39, mc_textColor), (38, mc_bulkBlocks), (40, mc_envUrl), (41, mc_envProperty),
      (42, mc_entityProperty), (43, mc_twoWayPing), (44, mc_inventoryOrder)]"

definition mc_packet :: "byte \<Rightarrow> world \<Rightarrow> world" where
  "mc_packet i s = (case map_of mc_handlers i of Some h \<Rightarrow> h s | None \<Rightarrow> s)"

definition mc_iter :: "world \<Rightarrow> world" where
  "mc_iter s =
     (if status s \<noteq> Running then s
      else let (returnVal, b, s) = recvW tunnelSock 1 s
           in if returnVal < 1 then mc_disconnect s else mc_packet (b ! 0) s)"

end
