(* ===== verification/Blocks.thy ===== *)
theory Blocks
  imports World
begin

text \<open>
  Block names: \<open>getBid\<close> of \<open>src/build.c\<close>, a chain of comparisons in which the last match
  sets the result. It answers 0 for a name it does not know, and 0 is air.
\<close>

definition block_table :: "(string list \<times> byte) list" where
  "block_table =
     [([''stone'', ''1''], 1), ([''grass'', ''2''], 2), ([''dirt'', ''3''], 3),
      ([''cobblestone'', ''4''], 4), ([''wood'', ''5''], 5), ([''tree'', ''6''], 6),
      ([''sand'', ''12''], 12), ([''gravel''], 13), ([''goldore''], 14), ([''ironore''], 15),
      ([''coal''], 16), ([''trunk''], 17), ([''leaves''], 18), ([''sponge''], 19),
      ([''glass''], 20), ([''red''], 21), ([''orange''], 22), ([''yellow''], 23),
      ([''lightgreen''], 24), ([''green''], 25), ([''aqua''], 26), ([''cyan''], 27),
      ([''blue''], 28), ([''purple''], 29), ([''indigo''], 30), ([''violet''], 31),
      ([''magenta''], 32), ([''pink''], 33), ([''black''], 34), ([''grey''], 35),
      ([''white''], 36), ([''rose''], 38), ([''redmushroom''], 39), ([''brownmushroom''], 40),
      ([''gold''], 41), ([''iron''], 42), ([''stair''], 44), ([''brick''], 45), ([''tnt''], 46),
      ([''mossycobblestone''], 48), ([''obsidian''], 49),
      ([''cobblestoneslab''], 50), ([''rope''], 51), ([''sandstone''], 52), ([''snow''], 53),
      ([''fire''], 54), ([''lightpink''], 55), ([''forestgreen''], 56), ([''brown''], 57),
      ([''deepblue''], 58), ([''turquoise''], 59), ([''ice''], 60), ([''ceramictile''], 61),
      ([''magma''], 62), ([''pillar''], 63), ([''crate''], 64), ([''stonebrick''], 65),
      ([''air'', ''0''], 0)]"

definition getBid :: "byte list \<Rightarrow> byte" where
  "getBid block =
     fold (\<lambda>(names, n) bid. if list_ex (\<lambda>name. strcmp0 block (lit name)) names then n else bid)
       block_table 0"

text \<open>
  The names are pairwise different C strings, so that a name means the number of the only
  line it is on.
\<close>

definition all_names :: "string list" where
  "all_names = concat (map fst block_table)"

lemma lit_inject:
  "list_all (\<lambda>c. of_char c \<noteq> (0 :: byte)) a \<Longrightarrow> list_all (\<lambda>c. of_char c \<noteq> (0 :: byte)) b
   \<Longrightarrow> strcmp0 (lit a) (lit b) \<longleftrightarrow> a = b"
proof -
  assume nz: "list_all (\<lambda>c. of_char c \<noteq> (0 :: byte)) a" "list_all (\<lambda>c. of_char c \<noteq> (0 :: byte)) b"
  then have "0 \<notin> set (lit a)" "0 \<notin> set (lit b)" by (auto simp: lit_def list_all_iff)
  moreover have "inj (of_char :: char \<Rightarrow> byte)"
  proof (rule injI)
    fix c d :: char
    have u: "unat (of_char c :: byte) = of_char c" for c :: char
    proof -
      have "unat (of_nat (of_char c) :: byte) = of_char c"
        unfolding unsigned_of_nat by (simp add: take_bit_nat_eq_self)
      then show ?thesis by (simp add: of_nat_of_char)
    qed
    assume "of_char c = (of_char d :: byte)"
    then have "(of_char c :: nat) = of_char d" by (metis u)
    then show "c = d" by simp
  qed
  then have "lit a = lit b \<longleftrightarrow> a = b" by (simp add: lit_def inj_map_eq_map)
  ultimately show ?thesis by (simp add: strcmp0_def cstr_no_nul)
qed

lemma getBid_unknown:
  "\<forall>name \<in> set all_names. \<not> strcmp0 block (lit name) \<Longrightarrow> getBid block = 0"
proof -
  have "fold (\<lambda>(names, n) bid. if list_ex (\<lambda>name. strcmp0 block (lit name)) names then n else bid) t b = b"
    if "\<forall>name \<in> set (concat (map fst t)). \<not> strcmp0 block (lit name)" for t b
    using that by (induction t arbitrary: b) (auto simp: list_ex_iff)
  then show "\<forall>name \<in> set all_names. \<not> strcmp0 block (lit name) \<Longrightarrow> getBid block = 0"
    by (simp add: all_names_def getBid_def)
qed

text \<open>No answer is -1, which the callers test for.\<close>

lemma getBid_values: "getBid block \<in> insert 0 (set (map snd block_table))"
proof -
  have "fold (\<lambda>(names, n) bid. if list_ex (\<lambda>name. strcmp0 block (lit name)) names then n else bid) t b
      \<in> insert b (set (map snd t))" for t b
  proof (induction t arbitrary: b)
    case (Cons e t)
    obtain names n where e: "e = (names, n)" by (cases e)
    show ?case using Cons [of n] Cons [of b] by (auto simp: e)
  qed simp
  then show ?thesis unfolding getBid_def .
qed

lemma getBid_known: "getBid block \<noteq> 255"
  using getBid_values [of block] by (auto simp: block_table_def)

lemma fold_last_match:
  assumes "Q names" "\<forall>(ns, m) \<in> set post. \<not> Q ns"
  shows "fold (\<lambda>(ns, m) bid. if Q ns then m else bid) (pre @ (names, n) # post) b = n"
proof -
  have "fold (\<lambda>(ns, m) bid. if Q ns then m else bid) post c = c" for c
    using assms(2) by (induction post arbitrary: c) auto
  with assms(1) show ?thesis by simp
qed

lemma distinct_names: "distinct all_names"
  by (simp add: all_names_def block_table_def)

lemma names_are_texts: "list_all (list_all (\<lambda>c. of_char c \<noteq> (0 :: byte))) all_names"
  by (simp add: all_names_def block_table_def)

text \<open>
  C36: The chain of comparisons is a table: every listed name means the number of its line,
  whatever the order of the lines, and every other name means 0, the number of air; -1, which
  the callers take for an unknown block, is never the answer.
\<close>

theorem getBid_reads_the_table:
  "(\<forall>(names, n) \<in> set block_table. \<forall>name \<in> set names. strcmp0 block (lit name) \<longrightarrow> getBid block = n)
    \<and> ((\<forall>name \<in> set all_names. \<not> strcmp0 block (lit name)) \<longrightarrow> getBid block = 0)
    \<and> getBid block \<noteq> 255"
proof -
  have "getBid block = n" if e: "(names, n) \<in> set block_table" "name \<in> set names" "strcmp0 block (lit name)"
    for names n name
  proof -
    obtain pre post where t: "block_table = pre @ (names, n) # post" using split_list [OF e(1)] by blast
    have all: "all_names = concat (map fst pre) @ names @ concat (map fst post)"
      unfolding all_names_def t by simp
    have "name' \<notin> set names'" if "(names', m) \<in> set post" "strcmp0 block (lit name')" for names' m name'
    proof
      assume n': "name' \<in> set names'"
      have mem: "name' \<in> set (concat (map fst post))" using that(1) n' by force
      with e(2) have "name \<in> set all_names" "name' \<in> set all_names" by (simp_all add: all)
      moreover have "strcmp0 (lit name) (lit name')" using e(3) that(2) by (simp add: strcmp0_def)
      ultimately have "name = name'" using lit_inject names_are_texts by (auto simp: list_all_iff)
      with mem e(2) distinct_names show False by (auto simp: all)
    qed
    then have "\<forall>(ns, m) \<in> set post. \<not> list_ex (\<lambda>name. strcmp0 block (lit name)) ns"
      by (auto simp: list_ex_iff)
    moreover have "list_ex (\<lambda>name. strcmp0 block (lit name)) names" using e by (auto simp: list_ex_iff)
    ultimately show ?thesis unfolding getBid_def t by (rule fold_last_match [rotated])
  qed
  then show ?thesis using getBid_unknown getBid_known by blast
qed

theorem getBid_reads_the_table_witness: "getBid (lit ''tnt'' @ [0]) = 46"
proof -
  have "([''tnt''], 46) \<in> set block_table" by (simp add: block_table_def)
  moreover have "strcmp0 (lit ''tnt'' @ [0]) (lit ''tnt'')" by (simp add: strcmp0_def lit_def)
  ultimately show ?thesis using getBid_reads_the_table [of "lit ''tnt'' @ [0]"] by force
qed

end
