(* ===== verification/Commands.thy ===== *)
theory Commands
  imports Outgoing Blocks
begin

text \<open>
  The player's commands: \<open>commandFunc\<close> of \<open>src/command.c\<close>, one definition per command. The
  argument is the C string in the caller's buffer; what successive \<open>strtok\<close> calls return
  are its \<open>tokens\<close>. A command returns whether it was known, with the new state.
\<close>

definition tag :: "byte list" where
  "tag = lit ''&0[&4LavaTunnel&0] &f''"

definition say :: "string \<Rightarrow> 'a net_scheme \<Rightarrow> 'a net_scheme" where
  "say text = tunnelMsg (tag @ lit text)"

text \<open>\<open>sprintf\<close> into an array of 64 bytes, then \<open>tunnelMsg\<close> of that array.\<close>

definition sayf :: "byte list \<Rightarrow> 'a net_scheme \<Rightarrow> 'a net_scheme" where
  "sayf text s = tunnelMsg text (copied 64 (Suc (length text)) s)"

definition goto_player :: "int \<Rightarrow> world \<Rightarrow> world" where
  \<comment> \<open>\<open>tunnelTeleport\<close> to where player \<open>i\<close> was last seen\<close>
  "goto_player i s =
     (let p = players s i in tunnelTeleport (p_x p) (p_y p) (p_z p) (p_yaw p) (p_pitch p) s)"

definition goto_user :: "world \<Rightarrow> world" where
  "goto_user s =
     (let u = user s in tunnelTeleport (u_x u) (u_y u) (u_z u) (u_yaw u) (u_pitch u) s)"

section \<open>Commands without arguments\<close>

definition cmd_hide :: "world \<Rightarrow> bool \<times> world" where
  "cmd_hide s =
     (if \<not> hide s then (True, (say ''Stopped sending position to server.'' s)\<lparr>hide := True\<rparr>)
      else (True, (say ''Now sending position to server.'' s)\<lparr>hide := False\<rparr>))"

definition cmd_back :: "world \<Rightarrow> bool \<times> world" where
  "cmd_back s = (True, goto_user s)"

fun ptp_loop :: "nat \<Rightarrow> int \<Rightarrow> int \<Rightarrow> int \<Rightarrow> world \<Rightarrow> world" where
  "ptp_loop 0 vx vy pitch s = s"
| "ptp_loop (Suc k) vx vy pitch s =
     (let vy = vy + pitch;
          s = setBlock (word_of_int vx) (word_of_int vy) (word_of_int (cdiv (sint (u_z (user s))) 32)) 2 True s
      in ptp_loop k (vx + 1) vy pitch s)"

definition cmd_ptp :: "world \<Rightarrow> bool \<times> world" where
  "cmd_ptp s =
     (let u = user s;
          pitch = - schar (u_pitch u);
          y2 = (if u_pitch u \<noteq> 0 then u_y u + word_of_int pitch else u_y u);
          x2 = u_x u; z2 = u_z u;
          s = ptp_loop 10 (cdiv (sint x2) 32) (cdiv (sint (u_y u)) 32) pitch s
      in (True, tunnelTeleport x2 y2 z2 (u_yaw u) (u_pitch u) s))"

definition cmd_roll :: "world \<Rightarrow> bool \<times> world" where
  "cmd_roll s =
     (let (r, s) = rand s;
          randomnumber = crem r (99999 - 10000) + 1
      in (True, sendMessage 0 (lit ''I rolled a '' @ dec randomnumber @ lit ''.'') s))"

definition cmd_gimp :: "world \<Rightarrow> bool \<times> world" where
  "cmd_gimp s =
     (if gimpN s < 1 then (True, say ''Gimp file is empty or doesnt exist.'' s)
      else if \<not> gimped s then (True, (say ''You are now gimped.'' s)\<lparr>gimped := True\<rparr>)
      else (True, (say ''Ungimped.'' s)\<lparr>gimped := False\<rparr>))"

text \<open>\<open>dump\<close> prints 10000 bytes of the level and falls through to the commands with arguments.\<close>

definition cmd_dump :: "world \<Rightarrow> world" where
  "cmd_dump s =
     (if length (lmap s) < 10000 then crash (MapIndex (int (length (lmap s)))) s
      else s\<lparr>remarks := remarks s @ replicate 10000 (Slept 1)\<rparr>)"

definition cmd_cancel :: "world \<Rightarrow> bool \<times> world" where
  "cmd_cancel s =
     (let s = (if hide s then (goto_user s)\<lparr>hide := False\<rparr> else s);
          s = s\<lparr>gimped := False, cuboid := (cuboid s)\<lparr>q_halt := True\<rparr>,
                paste := (paste s)\<lparr>ps_halt := True, ps_place := False\<rparr>,
                paint := False, zPlace := False, copy := (copy s)\<lparr>c_place := False\<rparr>,
                players := (\<lambda>i. if player_array i then (players s i)\<lparr>p_mode := 0\<rparr> else players s i)\<rparr>
      in (True, say ''Cancled all toggles/actions.'' s))"

section \<open>Looking for a player\<close>

text \<open>
  The first index whose name passes \<open>strEqual\<close> without case, and the first whose name
  contains the argument. \<open>strEqual\<close> takes its stack buffers from the state, so the search
  returns one.
\<close>

fun find_equal :: "byte list \<Rightarrow> int list \<Rightarrow> world \<Rightarrow> int option \<times> world" where
  "find_equal arg [] s = (None, s)"
| "find_equal arg (i # is) s =
     (let s = (if player_array i then s else remark (BadIndex i) s);
          (eq, s) = call_strEqual arg (p_username (players s i)) False s
      in if eq then (Some i, s) else find_equal arg is s)"

definition find_containing :: "byte list \<Rightarrow> world \<Rightarrow> int option" where
  "find_containing arg s = find (\<lambda>i. strstr (p_username (players s i)) arg) [0 .. 255]"

section \<open>Commands with arguments\<close>

definition cmd_tp :: "byte list list \<Rightarrow> world \<Rightarrow> bool \<times> world" where
  "cmd_tp args s =
     (case args of [] \<Rightarrow> (True, say ''tp: missing argument.'' s)
      | arg # _ \<Rightarrow>
          (case find_containing arg s of
             Some i \<Rightarrow> (True, goto_player i s)
           | None \<Rightarrow> (True, tunnelMsg (tag @ lit ''Can'' @ [39] @ lit ''t find player.'') s)))"

definition quoted :: "string \<Rightarrow> byte list" where
  "quoted text = 39 # lit text"

definition help_player :: "byte list list" where
  "help_player =
     [lit ''&0================'', lit ''&4Player related commands:'',
      quoted ''help <player,build,packets> - prints help for x cmds.'',
      quoted ''hide - stop sending your position to the server'',
      quoted ''tp <player> - teleports you to <player>'',
      quoted ''follow <player> - follow <player>'',
      quoted ''specate <player> - follow <player> while invisible'',
      quoted ''cancel - cancel all toggles and actions e.g. follow'',
      quoted ''ignore <player> - ignore all chat from <player> (see ignore.txt)'',
      quoted ''gimp - gimp/joker yourself'',
      quoted ''find <player> - gives the coords of <player>'',
      quoted ''back - go back to where the server thinks you are'',
      lit ''&0================'']"

definition help_build :: "byte list list" where
  "help_build =
     [lit ''&0==============='', lit ''&4Build related commands:'',
      quoted ''zspeed <speed> - time the tunnel will wait between'',
      lit ''each block placed in ms, use '' @ [39] @ lit ''none'' @ [39] @ lit '' for no limit'',
      quoted ''z block - place two blocks to define a cuboid'',
      lit ''leave <mode> blank for regular cuboid'',
      quoted ''paint <block> - same as /paint from MCLawl servers'',
      lit ''&0==============='']"

definition cmd_help :: "byte list list \<Rightarrow> world \<Rightarrow> bool \<times> world" where
  "cmd_help args s =
     (case args of
        [] \<Rightarrow> (True, fold tunnelMsg
          [tag @ lit ''Usage: help <option>'', tag @ quoted ''help player - player related cmds like '' @ quoted ''tp'',
           tag @ quoted ''help build - building cmds like '' @ quoted ''z''] s)
      | arg # _ \<Rightarrow>
          let s = (if strcmp0 arg (lit ''player'') then fold tunnelMsg help_player s else s);
              s = (if strcmp0 arg (lit ''build'') then fold tunnelMsg help_build s else s)
          in (True, s))"

definition cmd_plotmotion :: "byte list list \<Rightarrow> world \<Rightarrow> bool \<times> world" where
  "cmd_plotmotion args s =
     (case args of
        [] \<Rightarrow> (True, say ''plotmotion: Missing playername'' s)
      | [arg] \<Rightarrow> (True, say ''plotmotion: Missing block'' s)
      | arg # block # _ \<Rightarrow>
          if getBid block \<noteq> 255 then
            let s = s\<lparr>plotBlock := getBid block\<rparr>;
                (i, s) = find_equal arg [0 .. 255] s
            in (case i of
                  None \<Rightarrow> (True, s)
                | Some i \<Rightarrow>
                    let s = upd_player i (\<lambda>p. p\<lparr>p_mode := 2\<rparr>) s;
                        s = goto_player i s
                    in (True, sayf (tag @ lit ''plotmotion: Plotmotioning '' @ [39] @ arg @ [39]
                          @ lit '' with '' @ [39] @ block @ [39]) s))
          else (True, say ''plotmotion: unknown block'' s))"

definition cmd_paint :: "byte list list \<Rightarrow> world \<Rightarrow> bool \<times> world" where
  "cmd_paint args s =
     (case args of
        [] \<Rightarrow> (True, say ''paint: Missing argument.'' s)
      | arg # _ \<Rightarrow>
          if getBid arg \<noteq> 255 then
            let s = s\<lparr>paintBid := getBid arg, paint := True\<rparr>
            in (True, sayf (tag @ lit ''Painting with '' @ [39] @ arg @ [39] @ lit ''.'') s)
          else (True, say ''z: Unknown block!'' s))"

definition chunk_path :: "byte list \<Rightarrow> byte list" where
  "chunk_path arg = lit ''chunks'' @ [92] @ arg @ lit ''.chunk''"

definition cmd_paste :: "byte list list \<Rightarrow> world \<Rightarrow> bool \<times> world" where
  "cmd_paste args s =
     (case args of
        [] \<Rightarrow> (True, say ''paste: missing chunkname'' s)
      | arg # _ \<Rightarrow>
          let s = copied 64 (Suc (length (chunk_path arg))) s
          in (True, s\<lparr>paste := (paste s)\<lparr>ps_chunkName := chunk_path arg, ps_place := True\<rparr>,
                      zPlace := True\<rparr>))"

definition cmd_copy :: "byte list list \<Rightarrow> world \<Rightarrow> bool \<times> world" where
  "cmd_copy args s =
     (case args of
        [] \<Rightarrow> (True, say ''copy: missing chunkname'' s)
      | arg # _ \<Rightarrow>
          let s = copied 64 (Suc (length (chunk_path arg))) s
          in (True, s\<lparr>copy := (copy s)\<lparr>c_chunkName := chunk_path arg, c_halt := False, c_place := True\<rparr>,
                      points := 0, zPlace := True\<rparr>))"

definition cmd_z :: "byte list list \<Rightarrow> world \<Rightarrow> bool \<times> world" where
  "cmd_z args s =
     (let s = (case args of
          [] \<Rightarrow> let s = say ''z: Place two points.'' s
                in s\<lparr>cuboid := (cuboid s)\<lparr>q_getBlock := True\<rparr>\<rparr>
        | arg # _ \<Rightarrow>
            if getBid arg \<noteq> 255 then
              let s = s\<lparr>cuboid := (cuboid s)\<lparr>q_block := getBid arg, q_getBlock := False\<rparr>\<rparr>
              in say ''z: Place two points.'' s
            else say ''z: Unknown block!'' s)
      in (True, s\<lparr>points := 0, zPlace := True,
            cuboid := (cuboid s)\<lparr>q_halt := False, q_place := True, q_type := 0\<rparr>\<rparr>))"

definition cmd_zspeed :: "byte list list \<Rightarrow> world \<Rightarrow> bool \<times> world" where
  "cmd_zspeed args s =
     (case args of
        [] \<Rightarrow> (True, say ''zspeed: missing argument.'' s)
      | arg # _ \<Rightarrow>
          let s = (if strcmp0 arg (lit ''none'') then
                     say ''zspeed: no build speed delay huge cuboids may lag''
                       (s\<lparr>cuboid := (cuboid s)\<lparr>q_zlimit := False\<rparr>\<rparr>)
                   else s\<lparr>cuboid := (cuboid s)\<lparr>q_zspeed := atoi arg, q_zlimit := True\<rparr>\<rparr>)
          in (True, sayf (tag @ lit ''zspeed: speed set to '' @ dec (q_zspeed (cuboid s)) @ lit ''ms.'') s))"

text \<open>The loop of \<open>find\<close> starts at \<open>player[-1]\<close>.\<close>

definition cmd_find :: "byte list list \<Rightarrow> world \<Rightarrow> bool \<times> world" where
  "cmd_find args s =
     (case args of
        [] \<Rightarrow> (True, say ''find: missing argument.'' s)
      | arg # _ \<Rightarrow>
          let (i, s) = find_equal arg [- 1 .. 255] s
          in (case i of
                None \<Rightarrow> (True, tunnelMsg (tag @ lit ''Can'' @ [39] @ lit ''t find player.'') s)
              | Some i \<Rightarrow>
                  let p = players s i
                  in (True, sayf (tag @ cstr (p_username p) @ lit '' found at ''
                        @ dec (uint (p_x p div 32)) @ lit '', '' @ dec (uint (p_y p div 32)) @ lit '', ''
                        @ dec (uint (p_z p div 32)) @ lit '' ('' @ dec (uint (p_yaw p)) @ lit '', ''
                        @ dec (uint (p_pitch p)) @ lit '')'') s)))"

definition cmd_ignore :: "byte list list \<Rightarrow> world \<Rightarrow> bool \<times> world" where
  "cmd_ignore args s =
     (case args of
        [] \<Rightarrow> (True, say ''ignore: missing argument.'' s)
      | arg # _ \<Rightarrow>
          let (i, s) = find_equal arg [0 .. 255] s
          in (case i of
                None \<Rightarrow> (True, tunnelMsg (tag @ lit ''Can'' @ [39] @ lit ''t find player.'') s)
              | Some i \<Rightarrow>
                  if p_ignore (players s i) then
                    let s = sayf (tag @ lit ''Stopped ignoring '' @ cstr (p_username (players s i)) @ lit ''.'') s
                    in (True, upd_player i (\<lambda>p. p\<lparr>p_ignore := False\<rparr>) s)
                  else
                    let s = sayf (tag @ lit ''Ignoring '' @ cstr (p_username (players s i)) @ lit ''.'') s
                    in (True, upd_player i (\<lambda>p. p\<lparr>p_ignore := True\<rparr>) s)))"

fun follow_loop :: "byte list \<Rightarrow> int list \<Rightarrow> bool \<Rightarrow> world \<Rightarrow> bool \<times> world" where
  "follow_loop arg [] found s = (found, s)"
| "follow_loop arg (i # is) found s =
     (if strstr (p_username (players s i)) arg then
        follow_loop arg is True (goto_player i (upd_player i (\<lambda>p. p\<lparr>p_mode := 1\<rparr>) s))
      else follow_loop arg is found s)"

definition cmd_follow :: "byte list list \<Rightarrow> world \<Rightarrow> bool \<times> world" where
  \<comment> \<open>\<open>found\<close> has no initial value\<close>
  "cmd_follow args s =
     (case args of
        [] \<Rightarrow> (True, say ''follow: missing argument.'' s)
      | arg # _ \<Rightarrow>
          let (b, s) = fresh 1 s;
              (found, s) = follow_loop arg [0 .. 255] (b ! 0 \<noteq> 0) s
          in if \<not> found then (True, tunnelMsg (tag @ lit ''follow: couldn'' @ [39] @ lit ''t find player.'') s)
             else (True, s))"

definition cmd_spectate :: "byte list list \<Rightarrow> world \<Rightarrow> bool \<times> world" where
  "cmd_spectate args s =
     (case args of
        [] \<Rightarrow> (True, say ''spectate: missing argument.'' s)
      | arg # _ \<Rightarrow>
          let (i, s) = find_equal arg [0 .. 255] s
          in (case i of
                None \<Rightarrow> (True, s)
              | Some i \<Rightarrow>
                  let s = upd_player i (\<lambda>p. p\<lparr>p_mode := 1\<rparr>) s;
                      s = s\<lparr>hide := True\<rparr>
                  in (True, goto_player i s)))"

section \<open>Dispatch\<close>

definition argument_commands :: "(string \<times> (byte list list \<Rightarrow> world \<Rightarrow> bool \<times> world)) list" where
  "argument_commands =
     [(''tp'', cmd_tp), (''help'', cmd_help), (''plotmotion'', cmd_plotmotion), (''paint'', cmd_paint),
      (''paste'', cmd_paste), (''copy'', cmd_copy), (''z'', cmd_z), (''zspeed'', cmd_zspeed),
      (''find'', cmd_find), (''ignore'', cmd_ignore), (''follow'', cmd_follow),
      (''spectate'', cmd_spectate)]"

definition commandFunc :: "byte list \<Rightarrow> world \<Rightarrow> bool \<times> world" where
  "commandFunc command s =
     (if strcmp0 command (lit ''hide'') then cmd_hide s
      else if strcmp0 command (lit ''back'') then cmd_back s
      else if strcmp0 command (lit ''ptp'') then cmd_ptp s
      else if strcmp0 command (lit ''roll'') then cmd_roll s
      else if strcmp0 command (lit ''gimp'') then cmd_gimp s
      else
        let s = (if strcmp0 command (lit ''dump'') then cmd_dump s else s)
        in if status s \<noteq> Running then (False, s)
           else if strcmp0 command (lit ''cancel'') then cmd_cancel s
           else (case tokens (cstr command) of
                   [] \<Rightarrow> (False, s)
                 | arg0 # args \<Rightarrow>
                     (case find (\<lambda>(name, _). strcmp0 arg0 (lit name)) argument_commands of
                        None \<Rightarrow> (False, s)
                      | Some (_, cmd) \<Rightarrow> cmd args s)))"

end
