(* ===== verification/FromClient.thy ===== *)
theory FromClient
  imports Commands
begin

text \<open>
  The thread that serves the game client: \<open>tunnelServer\<close> of \<open>src/server.c\<close>. As in
  \<open>FromServer\<close>, one definition per packet: the fields it receives from \<open>serverSock\<close>, what
  it does with them, what it sends to the game server on \<open>tunnelSock\<close>.
\<close>

section \<open>Login, blocks and positions\<close>

text \<open>
  The wait for the game client: \<open>accept\<close> is called until it returns something other than 0.
  \<open>INVALID_SOCKET\<close> is such a value, so that a failed call counts as a client; nothing can be
  received from it. \<open>None\<close>: still waiting after the given answers.
\<close>

definition INVALID_SOCKET :: i32 where
  "INVALID_SOCKET = - 1"

fun ts_accept :: "i32 list \<Rightarrow> world \<Rightarrow> world option" where
  "ts_accept [] s = None"
| "ts_accept (v # vs) s =
     (if v = 0 then ts_accept vs s
      else
        let s = (if v = INVALID_SOCKET then
                   s\<lparr>segs := (segs s)(serverSock := []), ending := (ending s)(serverSock := Failed)\<rparr>
                 else s)
        in Some (s\<lparr>cuboid := (cuboid s)\<lparr>q_zspeed := 50\<rparr>\<rparr>))"

definition ts_login :: "world \<Rightarrow> world" where
  "ts_login s =
     (let s = s\<lparr>fucked := True\<rparr>;
          (fs, s) = recvs serverSock [RecvW 1, RecvW 64, RecvW 64, RecvW 1] s;
          (behind, s) = fresh 1 s;
          s = s\<lparr>unused := fs ! 3 ! 0, tunnelUser := cleanString (tunnelUser s) (fs ! 1) (behind ! 0)\<rparr>
      in s\<lparr>clientThread := True, builderThread := True, cuboid := (cuboid s)\<lparr>q_start := False\<rparr>\<rparr>)"

text \<open>
  While \<open>zPlace\<close> is set a placed block is a point for the building commands. The three
  parts follow each other in the code and share \<open>points\<close>.
\<close>

definition point_cuboid :: "u16 \<Rightarrow> u16 \<Rightarrow> u16 \<Rightarrow> byte \<Rightarrow> world \<Rightarrow> world" where
  "point_cuboid x y z blocktype s =
     (if q_place (cuboid s) then
        if points s = 0 then
          say ''z: First point.''
            (s\<lparr>cuboid := (cuboid s)\<lparr>q_x1 := ntohs x, q_y1 := ntohs y, q_z1 := ntohs z\<rparr>, points := 1\<rparr>)
        else if points s = 1 then
          let s = s\<lparr>cuboid := (cuboid s)\<lparr>q_x2 := ntohs x, q_y2 := ntohs y, q_z2 := ntohs z\<rparr>\<rparr>;
              s = (if q_getBlock (cuboid s) then s\<lparr>cuboid := (cuboid s)\<lparr>q_block := blocktype\<rparr>\<rparr> else s);
              s = s\<lparr>points := 0, cuboid := (cuboid s)\<lparr>q_place := False, q_start := True\<rparr>, zPlace := False\<rparr>
          in say ''z: Second point, starting cuboid!'' s
        else s
      else s)"

definition point_paste :: "u16 \<Rightarrow> u16 \<Rightarrow> u16 \<Rightarrow> world \<Rightarrow> world" where
  "point_paste x y z s =
     (if ps_place (paste s) then
        let s = s\<lparr>paste := (paste s)\<lparr>ps_x := ntohs x, ps_y := ntohs y, ps_z := ntohs z\<rparr>\<rparr>;
            s = sayf (tag @ lit ''paste: pasting '' @ cstr (ps_chunkName (paste s))) s
        in s\<lparr>paste := (paste s)\<lparr>ps_place := False, ps_start := True\<rparr>, zPlace := False\<rparr>
      else s)"

definition point_copy :: "u16 \<Rightarrow> u16 \<Rightarrow> u16 \<Rightarrow> world \<Rightarrow> world" where
  "point_copy x y z s =
     (if c_place (copy s) then
        if points s = 0 then
          say ''copy: First point.''
            (s\<lparr>copy := (copy s)\<lparr>c_x1 := ntohs x, c_y1 := ntohs y, c_z1 := ntohs z\<rparr>, points := 1\<rparr>)
        else if points s = 1 then
          say ''copy: Second point, copying''
            (s\<lparr>copy := (copy s)\<lparr>c_x2 := ntohs x, c_y2 := ntohs y, c_z2 := ntohs z,
                 c_place := False, c_start := True\<rparr>, points := 0, zPlace := False\<rparr>)
        else s
      else s)"

text \<open>
  \<open>tunnelSetBlock\<close> is called with the coordinates still in network order, and turns them
  round once more.
\<close>

definition restore_block :: "u16 \<Rightarrow> u16 \<Rightarrow> u16 \<Rightarrow> world \<Rightarrow> world" where
  "restore_block x y z s =
     (let offset = calculateOffset (ntohs x) (ntohs y) (ntohs z) s
      in case map_read offset s of
           None \<Rightarrow> crash (MapIndex offset) s
         | Some b \<Rightarrow> tunnelSetBlock x y z b (tunnelSetBlock x y z b (tunnelSetBlock x y z b s)))"

definition ts_setBlock :: "world \<Rightarrow> world" where
  "ts_setBlock s =
     (let (fs, s) = recvs serverSock [RecvW 2, RecvW 2, RecvW 2, RecvW 1, RecvW 1] s;
          x = ld16 (fs ! 0); y = ld16 (fs ! 1); z = ld16 (fs ! 2);
          mode = fs ! 3 ! 0; blocktype = fs ! 4 ! 0
      in if zPlace s then
           let s = point_cuboid x y z blocktype s;
               s = point_paste x y z s;
               s = point_copy x y z s
           in restore_block x y z s
         else
           let (mode, blocktype) = (if paint s then (1, paintBid s) else (mode, blocktype))
           in sends tunnelSock [SendW [0x05], SendW (fs ! 0), SendW (fs ! 1), SendW (fs ! 2),
                SendW [mode], SendW [blocktype]] s)"

definition ts_position :: "world \<Rightarrow> world" where
  "ts_position s =
     (let (fs, s) = recvs serverSock [RecvW 1, RecvW 2, RecvW 2, RecvW 2, RecvW 1, RecvW 1] s;
          x = ntohs (ld16 (fs ! 1)); y = ntohs (ld16 (fs ! 2)); z = ntohs (ld16 (fs ! 3))
      in if \<not> hide s then
           let s = s\<lparr>user := (user s)\<lparr>u_x := x, u_y := y, u_z := z,
                       u_yaw := fs ! 4 ! 0, u_pitch := fs ! 5 ! 0\<rparr>\<rparr>
           in sends tunnelSock (SendW [0x08] # map SendW fs) s
         else s\<lparr>user := (user s)\<lparr>u_hx := x, u_hy := y, u_hz := z,
                  u_hyaw := fs ! 4 ! 0, u_hpitch := fs ! 5 ! 0\<rparr>\<rparr>)"

section \<open>Chat\<close>

text \<open>
  A joke text from the file is sent in pieces of 64. The loop runs once too often: piece
  \<open>n\<close> is written behind both arrays of \<open>n\<close> rows. The text is read from the rows of \<open>gimp\<close>
  as they lie in memory.
\<close>

fun gimp_loop :: "nat list \<Rightarrow> nat \<Rightarrow> byte list \<Rightarrow> world \<Rightarrow> world" where
  "gimp_loop [] n text s = s"
| "gimp_loop (i # is) n text s =
     (let buf = strncpy 64 (drop (64 * i) text);
          s = copied (64 * n) (64 * i + 64) s;
          buf2 = toMCString buf;
          s = copied (64 * n) (64 * i + 64) s;
          s = sendMessage (if i < n then 1 else 0) buf2 s
      in gimp_loop is n text s)"

definition gimp_text :: "int \<Rightarrow> world \<Rightarrow> byte list" where
  "gimp_text i s = (if 0 \<le> i then concat (drop (nat i) (gimp s)) else [])"

definition ts_gimped :: "byte \<Rightarrow> world \<Rightarrow> world" where
  "ts_gimped what s =
     (let (r, s) = rand s
      in if gimpN s - 1 = 0 then crash DivZero s
         else
           let randomnumber = crem r (gimpN s - 1) + 1;
               text = gimp_text randomnumber s;
               s = remark (BadIndex (- 1)) s;
               sz = length (cstr text) + length (cstr (p_username (players s (- 1))))
           in if 64 \<le> sz then
                let n = (sz + 63) div 64 in gimp_loop [0 ..< Suc n] n text s
              else sendMessage what (toMCString text) s)"

definition ts_chat :: "world \<Rightarrow> world" where
  "ts_chat s =
     (let (fs, s) = recvs serverSock [RecvW 1, RecvW 64] s;
          what = fs ! 0 ! 0; message = fs ! 1;
          (msg, s) = fresh 64 s;
          (behind, s) = fresh 1 s;
          msg = cleanString msg message (behind ! 0)
      in if msg ! 0 = 39 \<and> 2 \<le> length (cstr msg) then
           let command = tl (cstr msg);
               (known, s) = commandFunc command s
           in if status s = Running \<and> \<not> known then say ''Unknown command.'' s else s
         else if gimped s \<and> message ! 0 \<noteq> 47 then
           if what = 0 then ts_gimped what s else s
         else sendMessage what message s)"

section \<open>Protocol extensions\<close>

definition ts_extInfo :: "world \<Rightarrow> world" where
  "ts_extInfo s =
     (let (fs, s) = recvs serverSock [RecvW 64, RecvW 2] s;
          count = htons (ntohs (ld16 (fs ! 1)) - 1);
          s = copied 1 2 s
      in sends tunnelSock [SendW [0x10], SendW (fs ! 0), SendW (st16 count)] s)"

definition ts_extEntry :: "world \<Rightarrow> world" where
  "ts_extEntry s =
     (let (fs, s) = recvs serverSock [RecvW 64, RecvW 4] s;
          nextname = nullTerm (strncpy 64 (fs ! 0));
          s = s\<lparr>cpeServer := ext_flag nextname (cpeServer s)\<rparr>
      in sends tunnelSock (SendW [0x11] # map SendW fs) s)"

definition ts_clickDistance :: "world \<Rightarrow> world" where
  "ts_clickDistance s =
     (let (fs, s) = recvs serverSock [RecvW 2] s
      in sends tunnelSock (SendW [0x12] # map SendW fs) s)"

definition ts_customBlocks :: "world \<Rightarrow> world" where
  "ts_customBlocks s =
     (let (fs, s) = recvs serverSock [RecvW 1] s
      in sends tunnelSock (SendW [0x13] # map SendW fs) s)"

definition ts_holdThis :: "world \<Rightarrow> world" where
  "ts_holdThis s =
     (let (fs, s) = recvs serverSock [RecvW 1, RecvW 1] s
      in sends tunnelSock (SendW [0x14] # map SendW fs) s)"

definition ts_textHotKey :: "world \<Rightarrow> world" where
  \<comment> \<open>\<open>keymods\<close> is received and not sent\<close>
  "ts_textHotKey s =
     (let (fs, s) = recvs serverSock [RecvW 64, RecvW 64, RecvW 4, RecvW 1] s;
          s = copied 3 4 s
      in sends tunnelSock [SendW [0x15], SendW (fs ! 0), SendW (fs ! 1), SendW (fs ! 2)] s)"

definition ts_extAddPlayerName :: "world \<Rightarrow> world" where
  "ts_extAddPlayerName s =
     (let (fs, s) = recvs serverSock [Recv 2, RecvW 64, RecvW 64, RecvW 64, Recv 1] s;
          s = copied 1 2 s
      in sends tunnelSock [Send [0x16], Send (fs ! 0), SendW (fs ! 1), SendW (fs ! 2),
           SendW (fs ! 3), Send (fs ! 4)] s)"

definition ts_extAddEntity2 :: "world \<Rightarrow> world" where
  \<comment> \<open>\<open>entityid\<close> is received and not sent\<close>
  "ts_extAddEntity2 s =
     (let (fs, s) = recvs serverSock
            [Recv 1, RecvW 64, RecvW 64, RecvW 2, RecvW 2, RecvW 2, Recv 1, Recv 1] s
      in sends tunnelSock [Send [0x21], SendW (fs ! 1), SendW (fs ! 2), SendW (fs ! 3), SendW (fs ! 4),
           SendW (fs ! 5), Send (fs ! 6), Send (fs ! 7)] s)"

definition ts_extRemovePlayerName :: "world \<Rightarrow> world" where
  "ts_extRemovePlayerName s =
     (let (fs, s) = recvs serverSock [Recv 2] s;
          s = copied 1 2 s
      in sends tunnelSock (Send [0x18] # map Send fs) s)"

definition ts_envSetColor :: "world \<Rightarrow> world" where
  "ts_envSetColor s =
     (let (fs, s) = recvs serverSock [Recv 1, Recv 2, Recv 2, Recv 2] s
      in sends tunnelSock (Send [0x19] # map Send fs) s)"

definition ts_makeSelection :: "world \<Rightarrow> world" where
  "ts_makeSelection s =
     (let (fs, s) = recvs serverSock
            [Recv 1, Recv 64, Recv 2, Recv 2, Recv 2, Recv 2, Recv 2, Recv 2, Recv 2, Recv 2, Recv 2, Recv 2] s;
          s = copied 1 2 s
      in sends tunnelSock (Send [0x1A] # map Send fs) s)"

definition ts_removeSelection :: "world \<Rightarrow> world" where
  "ts_removeSelection s =
     (let (fs, s) = recvs serverSock [Recv 1] s
      in sends tunnelSock (Send [0x1B] # map Send fs) s)"

definition ts_setBlockPermission :: "world \<Rightarrow> world" where
  "ts_setBlockPermission s =
     (let (fs, s) = recvs serverSock [RecvW 1, RecvW 1, RecvW 1] s
      in sends tunnelSock (SendW [0x1C] # map SendW fs) s)"

definition ts_changeModel :: "world \<Rightarrow> world" where
  "ts_changeModel s =
     (let (fs, s) = recvs serverSock [Recv 1, RecvW 64] s
      in sends tunnelSock [Send [0x1D], Send (fs ! 0), SendW (fs ! 1)] s)"

definition ts_envMapAppearance :: "world \<Rightarrow> world" where
  "ts_envMapAppearance s =
     (let (fs, s) = recvs serverSock [RecvW 64, Recv 1, Recv 1, Recv 2] s;
          s = copied 1 2 s
      in sends tunnelSock [Send [0x1E], SendW (fs ! 0), Send (fs ! 1), Send (fs ! 2), Send (fs ! 3)] s)"

definition ts_envSetWeatherType :: "world \<Rightarrow> world" where
  "ts_envSetWeatherType s =
     (let (fs, s) = recvs serverSock [RecvW 1] s
      in sends tunnelSock (SendW [0x1F] # map SendW fs) s)"

definition ts_playerClicked :: "world \<Rightarrow> world" where
  "ts_playerClicked s =
     (let (fs, s) = recvs serverSock
            [RecvW 1, RecvW 1, RecvW 1, RecvW 2, RecvW 2, RecvW 1, RecvW 2, RecvW 2, RecvW 2, RecvW 1] s
      in sends tunnelSock (SendW [0x22] # map SendW fs) s)"

definition ts_twoWayPing :: "world \<Rightarrow> world" where
  \<comment> \<open>\<open>buf\<close> is overwritten with \<open>data\<close>, which has no value\<close>
  "ts_twoWayPing s =
     (let (fs, s) = recvs serverSock [RecvW 1, RecvW 2] s;
          (data, s) = fresh 2 s
      in sends tunnelSock [SendW [43], SendW (fs ! 0), SendW data] s)"

section \<open>The receive loop\<close>

definition ts_disconnect :: "world \<Rightarrow> world" where
  "ts_disconnect s = s\<lparr>status := Exited\<rparr>"

text \<open>A second login packet is not tested for: its body is taken for packets.\<close>

definition ts_handlers :: "(byte \<times> (world \<Rightarrow> world)) list" where
  "ts_handlers =
     [(0x05, ts_setBlock), (0x08, ts_position), (0x0d, ts_chat), (0x10, ts_extInfo),
      (0x11, ts_extEntry), (0x12, ts_clickDistance), (0x13, ts_customBlocks), (0x14, ts_holdThis),
      (0x15, ts_textHotKey), (0x16, ts_extAddPlayerName), (0x21, ts_extAddEntity2),
      (0x18, ts_extRemovePlayerName), (0x19, ts_envSetColor), (0x1A, ts_makeSelection),
      (0x1B, ts_removeSelection), (0x1C, ts_setBlockPermission), (0x1D, ts_changeModel),
      (0x1E, ts_envMapAppearance), (0x1F, ts_envSetWeatherType), (0x22, ts_playerClicked),
      (43, ts_twoWayPing)]"

definition ts_packet :: "byte \<Rightarrow> world \<Rightarrow> world" where
  "ts_packet i s =
     (if i = 0x00 \<and> \<not> fucked s then ts_login s
      else case map_of ts_handlers i of Some h \<Rightarrow> h s | None \<Rightarrow> s)"

definition ts_iter :: "world \<Rightarrow> world" where
  "ts_iter s =
     (if status s \<noteq> Running then s
      else let (retval, b, s) = recvW serverSock 1 s
           in if retval < 1 then ts_disconnect s else ts_packet (b ! 0) s)"

end
