(* ===== verification/Frames.thy ===== *)
theory Frames
  imports FromServer FromClient
begin

text \<open>
  Laws of change. Most handlers receive some fields, store a few globals and send; a relation
  between the state before and after that every one of these steps respects is respected by
  every packet the handlers serve. The locales name the steps, from what all handlers do to
  what single threads do; the relations are given where they are used.
\<close>

locale steps =
  fixes R :: "world \<Rightarrow> world \<Rightarrow> bool"
  assumes R_refl: "R s s"
    and R_remark: "R s t \<Longrightarrow> R s (remark e t)"
    and R_fresh: "R s t \<Longrightarrow> R s (snd (fresh n t))"
begin

lemma R_if: "(b \<Longrightarrow> R s t) \<Longrightarrow> (\<not> b \<Longrightarrow> R s u) \<Longrightarrow> R s (if b then t else u)"
  by simp

lemma R_pair:
  "R s t \<Longrightarrow> R s (snd (a, t))" "R s t \<Longrightarrow> R s (snd (snd (c, d, t)))"
  "R s (snd p) \<Longrightarrow> R s (snd q) \<Longrightarrow> R s (snd (if b then p else q))"
  "R s (snd (snd v)) \<Longrightarrow> R s (snd (snd w)) \<Longrightarrow> R s (snd (snd (if b then v else w)))"
  by simp_all

lemma R_stack:
  "R s t \<Longrightarrow> R s (copied c n t)" "R s t \<Longrightarrow> R s (snd (call_strEqual x y z t))"
  "R s t \<Longrightarrow> R s (snd (row i rs t))" "R s t \<Longrightarrow> R s (snd (resize n m t))"
  unfolding copied_def call_strEqual_def row_def resize_def Let_def case_prod_beta
  by (intro R_remark R_fresh R_if R_pair | assumption)+

lemmas R_plain_steps = R_refl R_remark R_fresh R_if R_pair R_stack

end

section \<open>The extension packets of the game client\<close>

text \<open>They are received from the client and sent to the game server; \<open>ExtEntry\<close> is apart
  because it also stores what it learns.\<close>

locale client_turn = steps +
  assumes R_recvs: "R s (snd (recvs serverSock cs s))"
    and R_sends: "R s t \<Longrightarrow> R s (sends tunnelSock scs t)"
begin

lemma ts_forwarded:
  "R s (ts_extInfo s)" "R s (ts_clickDistance s)" "R s (ts_customBlocks s)" "R s (ts_holdThis s)"
  "R s (ts_textHotKey s)" "R s (ts_extAddPlayerName s)" "R s (ts_extAddEntity2 s)"
  "R s (ts_extRemovePlayerName s)" "R s (ts_envSetColor s)" "R s (ts_makeSelection s)"
  "R s (ts_removeSelection s)" "R s (ts_setBlockPermission s)" "R s (ts_changeModel s)"
  "R s (ts_envMapAppearance s)" "R s (ts_envSetWeatherType s)" "R s (ts_playerClicked s)"
  "R s (ts_twoWayPing s)"
  unfolding ts_extInfo_def ts_clickDistance_def ts_customBlocks_def
    ts_holdThis_def ts_textHotKey_def ts_extAddPlayerName_def ts_extAddEntity2_def
    ts_extRemovePlayerName_def ts_envSetColor_def ts_makeSelection_def ts_removeSelection_def
    ts_setBlockPermission_def ts_changeModel_def ts_envMapAppearance_def ts_envSetWeatherType_def
    ts_playerClicked_def ts_twoWayPing_def Let_def case_prod_beta
  by (intro R_plain_steps R_recvs R_sends)+

end

section \<open>The packets of the game server\<close>

text \<open>
  They are received from the game server and sent to the client. Only \<open>trail\<close>, for a player
  who is followed or plotted, answers the game server.
\<close>

locale server_turn = steps +
  assumes R_recvs: "R s (snd (recvs tunnelSock cs s))"
    and R_recvW: "R s t \<Longrightarrow> R s (snd (snd (recvW tunnelSock n t)))"
    and R_sends: "R s t \<Longrightarrow> R s (sends serverSock scs t)"
    and R_player: "(\<And>p. p_mode (f p) = p_mode p \<or> p_mode (f p) = 0) \<Longrightarrow> R s t \<Longrightarrow> R s (upd_player i f t)"
    and R_trail: "player_array pid \<Longrightarrow> R s t \<Longrightarrow> R s (trail pid t)"
    and R_status: "R s t \<Longrightarrow> R s (t\<lparr>status := st\<rparr>)"
    and R_halt: "R s t \<Longrightarrow> R s (t\<lparr>cuboid := (cuboid t)\<lparr>q_halt := True\<rparr>\<rparr>)"
    and R_client: "R s t \<Longrightarrow> R s (t\<lparr>cpeClient := ext\<rparr>)"
    and R_session: "R s t \<Longrightarrow> R s (t\<lparr>motd := m\<rparr>)" "R s t \<Longrightarrow> R s (t\<lparr>servername := m\<rparr>)"
      "R s t \<Longrightarrow> R s (t\<lparr>gotMotd := h\<rparr>)" "R s t \<Longrightarrow> R s (t\<lparr>joined := h\<rparr>)"
    and R_level: "R s t \<Longrightarrow> R s (t\<lparr>lvlx := x\<rparr>)" "R s t \<Longrightarrow> R s (t\<lparr>lvly := x\<rparr>)"
      "R s t \<Longrightarrow> R s (t\<lparr>lvlz := x\<rparr>)" "R s t \<Longrightarrow> R s (t\<lparr>mapC := m\<rparr>)"
      "R s t \<Longrightarrow> R s (t\<lparr>mapSize := off\<rparr>)" "R s t \<Longrightarrow> R s (t\<lparr>blocks := m\<rparr>)"
      "R s t \<Longrightarrow> R s (t\<lparr>lmap := m\<rparr>)"
begin

lemmas R_steps = R_plain_steps R_recvs R_recvW R_sends R_player R_trail R_status R_halt R_client
  R_session R_level

lemma R_calls:
  "R s t \<Longrightarrow> R s (crash flt t)" "R s t \<Longrightarrow> R s (snd (sprintf_hax t))" "R s t \<Longrightarrow> R s (map_write off w t)"
  "R s t \<Longrightarrow> R s (tunnelMsg m t)"
  unfolding crash_def sprintf_hax_def map_write_def tunnelMsg_def Let_def case_prod_beta
  by (intro R_steps | assumption)+

lemma R_ignore_loop: "R s t \<Longrightarrow> R s (ignore_loop pid is t)"
proof (induction "is" arbitrary: t)
  case (Cons i "is")
  show ?case unfolding ignore_loop.simps Let_def case_prod_beta
    by (rule Cons.IH) (intro R_steps Cons.prems | simp)+
qed simp

lemma R_add_entity: "R s t \<Longrightarrow> R s (add_entity e sk yaw pitch t)"
  unfolding add_entity_def Let_def case_prod_beta check_ignores_def
  by (intro R_steps R_ignore_loop | simp)+

lemmas R_served = R_steps R_calls R_ignore_loop R_add_entity

lemma R_levels: "R s (levelData s)" "R s (levelFinalize s)"
  unfolding levelData_def levelFinalize_def Let_def case_prod_beta by (intro R_served)+

lemma R_mc_session:
  "R s (mc_motd s)" "R s (mc_ping s)" "R s (mc_levelFinalize s)" "R s (mc_levelInit s)" "R s (mc_levelData s)" "R s (mc_setBlock s)"
  "R s (mc_spawn s)" "R s (mc_position s)" "R s (mc_moveLook s)" "R s (mc_move s)"
  "R s (mc_look s)" "R s (mc_despawn s)" "R s (mc_chat s)" "R s (mc_kick s)"
  "R s (mc_usertype s)"
  unfolding mc_motd_def mc_ping_def mc_levelFinalize_def mc_levelInit_def mc_levelData_def mc_setBlock_def mc_spawn_def
    mc_position_def mc_moveLook_def mc_move_def mc_look_def mc_despawn_def mc_chat_def mc_kick_def
    mc_usertype_def check_ignores_def Let_def case_prod_beta
  by (intro R_served R_levels | simp)+

lemma R_mc_ext:
  "R s (mc_extInfo s)" "R s (mc_extEntry s)" "R s (mc_clickDistance s)"
  "R s (mc_customBlocks s)" "R s (mc_holdThis s)" "R s (mc_textHotKey s)"
  "R s (mc_extAddPlayerName s)" "R s (mc_extAddEntity2 s)" "R s (mc_extRemovePlayerName s)"
  "R s (mc_envSetColor s)" "R s (mc_makeSelection s)" "R s (mc_removeSelection s)"
  "R s (mc_setBlockPermission s)" "R s (mc_changeModel s)" "R s (mc_envMapAppearance s)"
  "R s (mc_envSetWeatherType s)" "R s (mc_hackControl s)" "R s (mc_playerClicked s)"
  "R s (mc_defineBlock s)" "R s (mc_removeBlock s)" "R s (mc_defineBlockExt s)"
  "R s (mc_textColor s)" "R s (mc_bulkBlocks s)" "R s (mc_envUrl s)"
  "R s (mc_envProperty s)" "R s (mc_entityProperty s)" "R s (mc_twoWayPing s)"
  "R s (mc_inventoryOrder s)"
  unfolding mc_extInfo_def mc_extEntry_def mc_clickDistance_def mc_customBlocks_def mc_holdThis_def
    mc_textHotKey_def mc_extAddPlayerName_def mc_extAddEntity2_def mc_extRemovePlayerName_def
    mc_envSetColor_def mc_makeSelection_def mc_removeSelection_def mc_setBlockPermission_def
    mc_changeModel_def mc_envMapAppearance_def mc_envSetWeatherType_def mc_hackControl_def
    mc_playerClicked_def mc_defineBlock_def mc_removeBlock_def mc_defineBlockExt_def
    mc_textColor_def mc_bulkBlocks_def mc_envUrl_def mc_envProperty_def mc_entityProperty_def
    mc_twoWayPing_def mc_inventoryOrder_def Let_def case_prod_beta
  by (intro R_served | simp)+

lemma mc_packet: "R s (mc_packet i s)"
proof -
  have "list_all (\<lambda>(i, h). \<forall>t. R t (h t)) mc_handlers"
    by (simp add: mc_handlers_def R_mc_session R_mc_ext)
  then have "R s (h s)" if "map_of mc_handlers i = Some h" for h
    using map_of_SomeD [OF that] by (fastforce simp: list_all_iff)
  then show ?thesis by (auto simp: mc_packet_def R_refl split: option.split)
qed

lemma mc_iter: "R s (mc_iter s)" if trans: "\<And>t u. R s t \<Longrightarrow> R t u \<Longrightarrow> R s u"
  unfolding mc_iter_def mc_disconnect_def Let_def case_prod_beta
  by (intro R_served trans [OF R_recvW [OF R_refl] mc_packet])

end

section \<open>Both\<close>

text \<open>A relation that does not care which connection is used respects all of them.\<close>

locale preserved = steps +
  assumes R_recvs: "R s (snd (recvs k cs s))"
    and R_recvW: "R s t \<Longrightarrow> R s (snd (snd (recvW k n t)))"
    and R_sends: "R s t \<Longrightarrow> R s (sends k scs t)"
    and R_player: "R s t \<Longrightarrow> R s (upd_player i f t)"
    and R_status: "R s t \<Longrightarrow> R s (t\<lparr>status := st\<rparr>)"
    and R_halt: "R s t \<Longrightarrow> R s (t\<lparr>cuboid := (cuboid t)\<lparr>q_halt := True\<rparr>\<rparr>)"
    and R_ext: "R s t \<Longrightarrow> R s (t\<lparr>cpeServer := ext\<rparr>)" "R s t \<Longrightarrow> R s (t\<lparr>cpeClient := ext\<rparr>)"
    and R_session: "R s t \<Longrightarrow> R s (t\<lparr>motd := m\<rparr>)" "R s t \<Longrightarrow> R s (t\<lparr>servername := m\<rparr>)"
      "R s t \<Longrightarrow> R s (t\<lparr>gotMotd := h\<rparr>)" "R s t \<Longrightarrow> R s (t\<lparr>joined := h\<rparr>)"
    and R_level: "R s t \<Longrightarrow> R s (t\<lparr>lvlx := x\<rparr>)" "R s t \<Longrightarrow> R s (t\<lparr>lvly := x\<rparr>)"
      "R s t \<Longrightarrow> R s (t\<lparr>lvlz := x\<rparr>)" "R s t \<Longrightarrow> R s (t\<lparr>mapC := m\<rparr>)"
      "R s t \<Longrightarrow> R s (t\<lparr>mapSize := off\<rparr>)" "R s t \<Longrightarrow> R s (t\<lparr>blocks := m\<rparr>)"
      "R s t \<Longrightarrow> R s (t\<lparr>lmap := m\<rparr>)"
begin

lemmas R_basic = R_plain_steps R_recvs R_recvW R_sends R_player R_status R_halt R_ext R_session
  R_level

lemma R_packets:
  "R s t \<Longrightarrow> R s (tunnelMsg m t)" "R s t \<Longrightarrow> R s (tunnelTeleport a b c yaw pitch t)"
  "R s t \<Longrightarrow> R s (tunnelMove a b c yaw pitch t)" "R s t \<Longrightarrow> R s (tunnelSetBlock a b c w t)"
  "R s t \<Longrightarrow> R s (setBlock a b c w p t)" "R s t \<Longrightarrow> R s (sendMessage what m t)"
  unfolding tunnelMsg_def tunnelTeleport_def tunnelMove_def tunnelSetBlock_def setBlock_def
    sendMessage_def Let_def case_prod_beta
  by (intro R_basic | assumption)+

lemma R_trail: "R s t \<Longrightarrow> R s (trail pid t)"
  unfolding trail_def Let_def by (intro R_basic R_packets)

end

sublocale preserved \<subseteq> from_client: client_turn R
  by unfold_locales (fact R_recvs, erule R_sends)

sublocale preserved \<subseteq> from_server: server_turn R
  by unfold_locales (fact R_recvs | erule R_recvW R_sends R_player R_trail R_status R_halt R_ext
    R_session R_level)+

context preserved
begin

lemmas R_calls = R_stack from_server.R_calls

lemmas R_intros = R_basic R_packets R_trail R_calls from_server.R_ignore_loop
  from_server.R_add_entity

lemma ts_ext: "R s (ts_extEntry s)"
  unfolding ts_extEntry_def Let_def case_prod_beta by (intro R_intros)

end

text \<open>What every command keeps, a line of chat that is a command keeps.\<close>

lemma commandFunc_keeps:
  assumes plain: "\<And>f t. f \<in> {cmd_hide, cmd_back, cmd_ptp, cmd_roll, cmd_gimp, cmd_cancel} \<Longrightarrow> P t \<Longrightarrow> P (snd (f t))"
    and dump: "\<And>t. P t \<Longrightarrow> P (cmd_dump t)"
    and args: "\<And>f ws t. f \<in> snd ` set argument_commands \<Longrightarrow> P t \<Longrightarrow> P (snd (f ws t))"
    and "P s"
  shows "P (snd (commandFunc c s))"
proof -
  define t where "t = (if strcmp0 c (lit ''dump'') then cmd_dump s else s)"
  have t: "P t" using \<open>P s\<close> by (simp add: t_def dump)
  have found: "P (snd (case find (\<lambda>(name, _). strcmp0 arg0 (lit name)) argument_commands of
        None \<Rightarrow> (False, t) | Some (_, cmd) \<Rightarrow> cmd ws t))" for arg0 ws
  proof (cases "find (\<lambda>(name, _). strcmp0 arg0 (lit name)) argument_commands")
    case (Some nc)
    then have "snd nc \<in> snd ` set argument_commands" by (metis find_Some_iff nth_mem imageI)
    with t args show ?thesis by (simp add: Some case_prod_beta)
  qed (simp add: t)
  have "P (snd (if status t \<noteq> Running then (False, t)
      else if strcmp0 c (lit ''cancel'') then cmd_cancel t
      else (case tokens (cstr c) of [] \<Rightarrow> (False, t)
            | arg0 # ws \<Rightarrow> (case find (\<lambda>(name, _). strcmp0 arg0 (lit name)) argument_commands of
                None \<Rightarrow> (False, t) | Some (_, cmd) \<Rightarrow> cmd ws t))))"
    using found t plain by (simp split: list.split)
  then show ?thesis
    using plain \<open>P s\<close> by (simp only: commandFunc_def Let_def t_def [symmetric]) simp
qed

end
