(* ===== verification/Progress.thy ===== *)
theory Progress
  imports Frames
begin

text \<open>
  Both receive loops end: a turn of a loop either ends the process or consumes at least one
  byte of what the peer will ever send. And what no handler of either thread takes back: once
  a paste has been cancelled, \<open>paste.halt\<close> stays set.
\<close>

section \<open>What is left to receive\<close>

definition left :: "sock \<Rightarrow> 'a net_scheme \<Rightarrow> nat" where
  "left k s = length (incoming k s)"

named_theorems kept \<open>what does not touch the segments, and keeps \<open>paste.halt\<close>\<close>

lemma recv1_left: "recv1 e n ss = (r, g, ss') \<Longrightarrow> length (concat ss') \<le> length (concat ss)"
  by (induction e n ss rule: recv1.induct) (auto split: if_splits ending.splits)

lemma recv1_eats: "recv1 e n ss = (r, g, ss') \<Longrightarrow> 0 < r \<Longrightarrow> length (concat ss') < length (concat ss)"
  by (induction e n ss rule: recv1.induct) (auto split: if_splits ending.splits)

lemma recvW_loop_left:
  "recvW_loop e n acc ss = (r, g, ss') \<Longrightarrow> length (concat ss') \<le> length (concat ss)"
proof (induction e n acc ss arbitrary: r g ss' rule: recvW_loop.induct)
  case (1 e sz acc ss)
  obtain v t ss1 where one: "recv1 e (sz - length acc) ss = (v, t, ss1)" by (metis prod_cases3)
  note le = recv1_left [OF one]
  show ?case
  proof (cases "length acc < sz \<and> 0 < v")
    case True
    then have "recvW_loop e sz (acc @ t) ss1 = (r, g, ss')"
      using "1.prems" one by (simp add: recvW_loop.simps [of e sz acc ss])
    with 1 one True le show ?thesis by fastforce
  next
    case False
    then have "ss' = ss1 \<or> ss' = ss"
      using "1.prems" one by (auto simp: recvW_loop.simps [of e sz acc ss] split: if_splits)
    with le show ?thesis by auto
  qed
qed

lemma recvW_loop_eats:
  assumes "recvW_loop e n [] ss = (r, g, ss')" "1 \<le> r"
  shows "length (concat ss') < length (concat ss)"
proof -
  obtain v t ss1 where one: "recv1 e n ss = (v, t, ss1)" by (metis prod_cases3)
  have "0 < n \<and> 0 < v"
    using assms one by (auto simp: recvW_loop.simps [of e n "[]" ss] split: if_splits)
  then have "recvW_loop e n t ss1 = (r, g, ss')"
    using assms one by (simp add: recvW_loop.simps [of e n "[]" ss])
  from recvW_loop_left [OF this] recv1_eats [OF one] \<open>0 < n \<and> 0 < v\<close> show ?thesis by simp
qed

lemma left_recvW: "left k (snd (snd (recvW j n s))) \<le> left k s"
  using recvW_loop_left [of "ending s j" n "[]" "segs s j"]
  by (auto simp: recvW_def left_def fresh_def split: prod.split)

lemma left_recvW_less: "1 \<le> fst (recvW k n s) \<Longrightarrow> left k (snd (snd (recvW k n s))) < left k s"
  using recvW_loop_eats [of "ending s k" n "segs s k"]
  by (auto simp: recvW_def left_def fresh_def split: prod.splits)

lemma left_recv: "left k (snd (snd (recv j n s))) \<le> left k s"
  using recv1_left [of "ending s j" n "segs s j"]
  by (auto simp: recv_def left_def fresh_def split: prod.split)

lemma left_rcv: "left k (snd (rcv j c s)) \<le> left k s"
  by (cases c) (simp_all add: left_recvW left_recv)

lemma left_recvs: "left k (snd (recvs j cs s)) \<le> left k s"
proof (induction cs arbitrary: s)
  case (Cons c cs)
  have "left k (snd (recvs j cs (snd (rcv j c s)))) \<le> left k s"
    using Cons [of "snd (rcv j c s)"] left_rcv [of k j c s] by simp
  then show ?case by (simp add: recvs_def case_prod_beta)
qed (simp add: recvs_def)

lemma paste_recvs [kept]: "paste (snd (recvs j cs s)) = paste (s :: world)"
proof (induction cs arbitrary: s)
  case (Cons c cs)
  have "paste (snd (rcv j c s)) = paste s"
    by (cases c) (simp_all add: recvW_def recv_def fresh_def case_prod_beta)
  with Cons show ?case by (simp add: recvs_def case_prod_beta)
qed (simp add: recvs_def)

lemma kept_basic [kept]:
  "left k (remark e s) = left k s" "left k (copied c n s) = left k s"
  "left k (snd (fresh m s)) = left k s" "left k (emit j bs s) = left k s"
  by (simp_all add: left_def remark_def copied_def fresh_def emit_def)

lemma paste_basic [kept]:
  "paste (remark e s) = paste s" "paste (copied c n s) = paste s" "paste (snd (fresh m s)) = paste s"
  "paste (upd_player i f s) = paste s" "paste (crash flt s) = paste s" "paste (snd (rand s)) = paste s"
  by (simp_all add: remark_def copied_def fresh_def upd_player_def crash_def rand_def)

lemma left_world [kept]:
  "left k (upd_player i f s) = left k s" "left k (crash flt s) = left k s" "left k (snd (rand s)) = left k s"
  by (simp_all add: left_def remark_def upd_player_def crash_def rand_def)

lemma snd_call_kept [kept]:
  "segs (snd_call j c s) = segs s" "paste (snd_call j c (s' :: world)) = paste s'"
  by (cases c; simp add: snd_call.simps sendW_def send_def case_prod_beta)+

lemma segs_sends [kept]: "segs (sends j cs s) = segs s"
  by (induction cs arbitrary: s) (simp_all add: sends.simps kept)

lemma left_sends [kept]: "left k (sends j cs s) = left k s"
  by (simp add: left_def kept)

lemma paste_sends [kept]: "paste (sends j cs s) = paste (s :: world)"
  by (induction cs arbitrary: s) (simp_all add: sends.simps kept)

lemma kept_packets [kept]:
  "left k (tunnelTeleport x y z a b s) = left k s" "paste (tunnelTeleport x y z a b t) = paste (t :: world)"
  "left k (tunnelMove x y z a b s) = left k s" "paste (tunnelMove x y z a b t) = paste t"
  "left k (tunnelSetBlock x y z c s) = left k s" "paste (tunnelSetBlock x y z c t) = paste t"
  "left k (sendMessage c m s) = left k s" "paste (sendMessage c m t) = paste t"
  "left k (tunnelMsg m s) = left k s" "paste (tunnelMsg m t) = paste t"
  by (simp_all add: tunnelTeleport_def tunnelMove_def tunnelSetBlock_def sendMessage_def
      tunnelMsg_def kept)

lemma kept_setBlock [kept]:
  "left k (setBlock x y z b p s) = left k s" "paste (setBlock x y z b p t) = paste (t :: world)"
  by (simp_all add: setBlock_def Let_def kept split: prod.split)

section \<open>Commands\<close>

lemma kept_say [kept]:
  "left k (say t s) = left k s" "paste (say t w) = paste (w :: world)"
  "left k (sayf m s) = left k s" "paste (sayf m w) = paste (w :: world)"
  by (simp_all add: say_def sayf_def kept)

lemma kept_goto [kept]:
  "left k (goto_player i s) = left k s" "paste (goto_player i s) = paste s"
  "left k (goto_user s) = left k s" "paste (goto_user s) = paste s"
  by (simp_all add: goto_player_def goto_user_def Let_def kept)

lemma kept_ptp [kept]: "left k (ptp_loop n vx vy p s) = left k s" "paste (ptp_loop n vx vy p s) = paste s"
  by (induction n vx vy p s rule: ptp_loop.induct) (simp_all add: Let_def kept)

lemma kept_find_equal [kept]:
  "left k (snd (find_equal a is s)) = left k s" "paste (snd (find_equal a is s)) = paste s"
  by (induction a "is" s rule: find_equal.induct)
    (simp_all add: call_strEqual_def Let_def case_prod_beta kept)

lemma kept_follow [kept]:
  "left k (snd (follow_loop a is f s)) = left k s" "paste (snd (follow_loop a is f s)) = paste s"
  by (induction a "is" f s rule: follow_loop.induct) (simp_all add: kept)

lemma kept_fold_msg [kept]:
  "left k (fold tunnelMsg ms s) = left k s" "paste (fold tunnelMsg ms w) = paste (w :: world)"
  by (induction ms arbitrary: s w) (simp_all add: kept)

text \<open>Field updates that touch neither.\<close>

lemma left_updates [kept]:
  "left k (s\<lparr>hide := h\<rparr>) = left k s" "left k (s\<lparr>gimped := h\<rparr>) = left k s"
  "left k (s\<lparr>remarks := r\<rparr>) = left k s" "left k (s\<lparr>plotBlock := b\<rparr>) = left k s"
  "left k (s\<lparr>paintBid := b\<rparr>) = left k s" "left k (s\<lparr>paint := h\<rparr>) = left k s"
  "left k (s\<lparr>paste := ps\<rparr>) = left k s" "left k (s\<lparr>zPlace := h\<rparr>) = left k s"
  "left k (s\<lparr>copy := c\<rparr>) = left k s" "left k (s\<lparr>points := n\<rparr>) = left k s"
  "left k (s\<lparr>cuboid := q\<rparr>) = left k s" "left k (s\<lparr>players := pl\<rparr>) = left k s"
  "left k (s\<lparr>status := st\<rparr>) = left k s" "left k (s\<lparr>fucked := h\<rparr>) = left k s"
  "left k (s\<lparr>unused := b\<rparr>) = left k s" "left k (s\<lparr>tunnelUser := m\<rparr>) = left k s"
  "left k (s\<lparr>clientThread := h\<rparr>) = left k s" "left k (s\<lparr>builderThread := h\<rparr>) = left k s"
  "left k (s\<lparr>user := u\<rparr>) = left k s" "left k (s\<lparr>cpeServer := e\<rparr>) = left k s"
  "left k (s\<lparr>cpeClient := e\<rparr>) = left k s" "left k (s\<lparr>motd := m\<rparr>) = left k s"
  "left k (s\<lparr>servername := m\<rparr>) = left k s" "left k (s\<lparr>gotMotd := h\<rparr>) = left k s"
  "left k (s\<lparr>joined := h\<rparr>) = left k s" "left k (s\<lparr>lvlx := x\<rparr>) = left k s"
  "left k (s\<lparr>lvly := x\<rparr>) = left k s" "left k (s\<lparr>lvlz := x\<rparr>) = left k s"
  "left k (s\<lparr>mapC := m\<rparr>) = left k s" "left k (s\<lparr>mapSize := i\<rparr>) = left k s"
  "left k (s\<lparr>blocks := m\<rparr>) = left k s" "left k (s\<lparr>lmap := m\<rparr>) = left k s"
  by (simp_all add: left_def)

text \<open>The commands receive nothing, and \<open>paste.halt\<close> is only ever set.\<close>

definition tame :: "world \<Rightarrow> world \<Rightarrow> bool" where
  "tame s s' \<longleftrightarrow> (\<forall>k. left k s' \<le> left k s) \<and> (ps_halt (paste s) \<longrightarrow> ps_halt (paste s'))"

lemmas tame_simps = tame_def Let_def case_prod_beta kept

lemma tame_plain:
  "tame s (snd (cmd_hide s))" "tame s (snd (cmd_back s))" "tame s (snd (cmd_ptp s))"
  "tame s (snd (cmd_roll s))" "tame s (snd (cmd_gimp s))" "tame s (cmd_dump s)" "tame s (snd (cmd_cancel s))"
  by (simp_all add: tame_simps cmd_hide_def cmd_back_def cmd_ptp_def cmd_roll_def cmd_gimp_def
      cmd_dump_def cmd_cancel_def)

lemma tame_args:
  "tame s (snd (cmd_tp args s))" "tame s (snd (cmd_help args s))" "tame s (snd (cmd_plotmotion args s))"
  "tame s (snd (cmd_paint args s))" "tame s (snd (cmd_paste args s))" "tame s (snd (cmd_copy args s))"
  "tame s (snd (cmd_z args s))" "tame s (snd (cmd_zspeed args s))" "tame s (snd (cmd_find args s))"
  "tame s (snd (cmd_ignore args s))" "tame s (snd (cmd_follow args s))" "tame s (snd (cmd_spectate args s))"
  by (simp_all add: tame_simps cmd_tp_def cmd_help_def cmd_plotmotion_def cmd_paint_def cmd_paste_def
      cmd_copy_def cmd_z_def cmd_zspeed_def cmd_find_def cmd_ignore_def cmd_follow_def
      cmd_spectate_def split: list.split option.split)

lemma tame_refl: "tame s s"
  by (simp add: tame_def)

lemma tame_trans: "tame s t \<Longrightarrow> tame t u \<Longrightarrow> tame s u"
  unfolding tame_def using le_trans by blast

lemma tame_commandFunc: "tame s (snd (commandFunc c s))"
  by (rule commandFunc_keeps)
    (auto simp: argument_commands_def tame_plain tame_args tame_refl elim!: tame_trans)

section \<open>Handlers\<close>

lemma kept_points [kept]:
  "left k (point_cuboid x y z b s) = left k s" "paste (point_cuboid x y z b s) = paste s"
  "left k (point_copy x y z s) = left k s" "paste (point_copy x y z s) = paste s"
  "left k (point_paste x y z s) = left k s"
  "ps_halt (paste (point_paste x y z s)) = ps_halt (paste s)"
  "left k (restore_block x y z s) = left k s" "paste (restore_block x y z s) = paste s"
  by (simp_all add: point_cuboid_def point_copy_def point_paste_def restore_block_def Let_def kept
      split: option.split)

lemma kept_gimp_loop [kept]:
  "left k (gimp_loop is n t s) = left k s" "paste (gimp_loop is n t s) = paste s"
  by (induction "is" n t s rule: gimp_loop.induct) (simp_all add: Let_def kept)

lemma kept_gimped [kept]:
  "left k (ts_gimped w s) = left k s" "paste (ts_gimped w s) = paste s"
  by (simp_all add: ts_gimped_def Let_def case_prod_beta kept del: gimp_loop.simps upt_Suc)

lemma tame_recvs: "tame s (snd (recvs j cs s))"
  by (simp add: tame_def left_recvs kept)

lemmas ts_tame = tame_def Let_def case_prod_beta kept left_recvs

lemma tame_ts_login: "tame s (ts_login s)"
  by (simp add: ts_tame ts_login_def order_trans [OF left_recvs])

lemma tame_ts_state:
  "tame s (ts_setBlock s)" "tame s (ts_position s)"
  by (simp_all add: ts_tame ts_setBlock_def ts_position_def)

lemma tame_sendMessage: "tame s (sendMessage c m s)"
  by (simp add: tame_def kept)

lemma tame_say: "tame s (say t s)"
  by (simp add: tame_def kept)

lemma tame_gimped: "tame s (ts_gimped w s)"
  by (simp add: tame_def kept)

lemma tame_fresh: "tame s (snd (fresh n s))"
  by (simp add: tame_def kept)

lemma tame_if: "(b \<Longrightarrow> tame s t) \<Longrightarrow> (\<not> b \<Longrightarrow> tame s u) \<Longrightarrow> tame s (if b then t else u)"
  by simp

lemma tame_ts_chat: "tame s (ts_chat s)"
proof -
  have cmd: "tame u (if status (snd (commandFunc c u)) = Running \<and> \<not> fst (commandFunc c u)
      then say t (snd (commandFunc c u)) else snd (commandFunc c u))" for c t u
    using tame_trans [OF tame_commandFunc tame_say] by (simp add: tame_commandFunc)
  define t where "t = snd (fresh 1 (snd (fresh 64 (snd (recvs serverSock [RecvW 1, RecvW 64] s)))))"
  have t: "tame s t"
    unfolding t_def by (blast intro: tame_trans tame_recvs tame_fresh)
  have "tame t (ts_chat s)"
    unfolding ts_chat_def Let_def case_prod_beta t_def [symmetric]
    by (intro tame_if cmd tame_gimped tame_refl tame_sendMessage)
  with t show ?thesis by (rule tame_trans)
qed

lemma tame_recvW: "tame s t \<Longrightarrow> tame s (snd (snd (recvW j n t)))"
  using left_recvW [of _ j n t]
  by (auto simp: tame_def recvW_def fresh_def case_prod_beta intro: order_trans)

interpretation tame: preserved tame
  by unfold_locales (simp_all add: tame_refl tame_recvs tame_recvW, simp_all add: tame_def kept)

lemma tame_ts_packet: "tame s (ts_packet i s)"
proof -
  have "list_all (\<lambda>(i, h). \<forall>t. tame t (h t)) ts_handlers"
    by (simp add: ts_handlers_def tame_ts_state tame_ts_chat tame.ts_ext tame.from_client.ts_forwarded)
  then have "tame s (h s)" if "map_of ts_handlers i = Some h" for h
    using map_of_SomeD [OF that] by (fastforce simp: list_all_iff)
  then show ?thesis by (auto simp: ts_packet_def tame_ts_login tame_refl split: option.split)
qed

section \<open>The loops end\<close>

lemma left_tame: "tame s t \<Longrightarrow> left k t \<le> left k s"
  by (simp add: tame_def)

lemma mc_iter_progress:
  "status (mc_iter s) \<noteq> Running \<or> left tunnelSock (mc_iter s) < left tunnelSock s"
proof (cases "status s = Running \<and> 1 \<le> fst (recvW tunnelSock 1 s)")
  case True
  let ?t = "snd (snd (recvW tunnelSock 1 s))"
  let ?b = "fst (snd (recvW tunnelSock 1 s)) ! 0"
  have "mc_iter s = mc_packet ?b ?t"
    using True by (simp add: mc_iter_def Let_def case_prod_beta)
  moreover have "left tunnelSock ?t < left tunnelSock s" using True left_recvW_less by blast
  ultimately show ?thesis
    using left_tame [OF tame.from_server.mc_packet [of ?t ?b], of tunnelSock] by simp
qed (auto simp: mc_iter_def mc_disconnect_def Let_def case_prod_beta)

lemma ts_iter_progress:
  "status (ts_iter s) \<noteq> Running \<or> left serverSock (ts_iter s) < left serverSock s"
proof (cases "status s = Running \<and> 1 \<le> fst (recvW serverSock 1 s)")
  case True
  let ?t = "snd (snd (recvW serverSock 1 s))"
  let ?b = "fst (snd (recvW serverSock 1 s)) ! 0"
  have "ts_iter s = ts_packet ?b ?t"
    using True by (simp add: ts_iter_def Let_def case_prod_beta)
  moreover have "left serverSock ?t < left serverSock s" using True left_recvW_less by blast
  ultimately show ?thesis
    using left_tame [OF tame_ts_packet [of ?t ?b], of serverSock] by simp
qed (auto simp: ts_iter_def ts_disconnect_def Let_def case_prod_beta)

text \<open>A turn that stops or has less to go, repeated, stops.\<close>

lemma progress_stops:
  fixes f :: "world \<Rightarrow> world"
  assumes step: "\<And>s. status (f s) \<noteq> Running \<or> left k (f s) < left k s"
    and stop: "\<And>s. status s \<noteq> Running \<Longrightarrow> f s = s"
  shows "left k s < n \<Longrightarrow> status ((f ^^ n) s) \<noteq> Running"
proof (induction n arbitrary: s)
  case (Suc n)
  have stays: "(f ^^ m) t = t" if "status t \<noteq> Running" for m t
    by (induction m) (simp_all add: stop that)
  have "status ((f ^^ n) (f s)) \<noteq> Running"
  proof (cases "status (f s) = Running")
    case True
    with step [of s] Suc.prems have "left k (f s) < n" by auto
    then show ?thesis by (rule Suc.IH)
  qed (simp add: stays)
  then show ?case by (simp add: funpow_swap1)
qed simp

text \<open>
  C13: The thread that serves the game server ends: whatever the game server sends, once it has
  closed the connection the loop leaves after at most one turn per byte and one more, having
  shut the program down (or faulted on the way).
\<close>

theorem server_thread_ends:
  "status ((mc_iter ^^ Suc (length (incoming tunnelSock s))) s) \<noteq> Running"
  using progress_stops [of mc_iter tunnelSock s "Suc (left tunnelSock s)"] mc_iter_progress
  by (simp add: left_def mc_iter_def)

text \<open>
  C14: The thread that serves the game client ends likewise: no input of the client keeps its
  loop, or a command it runs, going after the connection is closed.
\<close>

theorem client_thread_ends:
  "status ((ts_iter ^^ Suc (length (incoming serverSock s))) s) \<noteq> Running"
  using progress_stops [of ts_iter serverSock s "Suc (left serverSock s)"] ts_iter_progress
  by (simp add: left_def ts_iter_def)

end
