(* ===== verification/Builder.thy ===== *)
theory Builder
  imports Commands
begin

text \<open>
  The builder thread of \<open>src/build.c\<close>: it polls \<open>paste.start\<close>, \<open>copy.start\<close> and
  \<open>cuboid.start\<close> and works a box of cells. The thread runs beside the two socket threads,
  which set its points, its \<open>halt\<close> flags and the level, so it is a machine that makes one
  turn of a loop per step: \<open>AtY\<close>, \<open>AtX\<close> and \<open>AtZ\<close> are the tests of its three nested
  \<open>while\<close> loops.
\<close>

section \<open>The machine\<close>

datatype phase = AtY | AtX | AtZ

record locals =
  l_px :: u16
  l_py :: u16
  l_pz :: u16
  l_vx :: u16
  l_vy :: u16
  l_vz :: u16
  l_hidden :: bool
  l_buf :: "byte list"
  l_loop :: nat

datatype builder =
    PollPaste | PollCopy | PollCuboid
  | InPaste phase locals
  | InCopy phase locals
  | InCuboid phase locals

text \<open>Order two ends of a range: \<open>if (a > b)\<close>, through a \<open>short\<close>.\<close>

definition ordered :: "u16 \<Rightarrow> u16 \<Rightarrow> u16 \<times> u16" where
  "ordered a b = (if b < a then (b, a) else (a, b))"

text \<open>Stay hidden if \<open>hide\<close> is already toggled.\<close>

definition hide_self :: "world \<Rightarrow> bool \<times> world" where
  "hide_self s = (hide s, s\<lparr>hide := True\<rparr>)"

definition unhide_self :: "bool \<Rightarrow> world \<Rightarrow> world" where
  "unhide_self hidden s = (if \<not> hidden then s\<lparr>hide := False\<rparr> else s)"

section \<open>Paste\<close>

text \<open>
  The first six bytes of the file are the extent. \<open>fread\<close> leaves what it got of its one
  item of 9000 bytes in the buffer. \<open>paste.x > px\<close> compares an unsigned with a signed number.
\<close>

definition paste_swap :: "u16 \<Rightarrow> u16 \<Rightarrow> u16 \<times> u16" where
  "paste_swap a p = (if uint a > sint p then (p, a) else (a, p))"

definition paste_begin :: "world \<Rightarrow> builder \<times> world" where
  "paste_begin s =
     (let (pastebuf, s) = fresh 9000 s
      in case files s (cstr (ps_chunkName (paste s))) of
           None \<Rightarrow> (PollPaste, crash NullFile s)
         | Some content \<Rightarrow>
             let pastebuf = put_at 0 (take 9000 content) pastebuf;
                 (hidden, s) = hide_self s;
                 px = ps_x (paste s) + ld16 (take 2 pastebuf) - 1;
                 py = ps_y (paste s) + ld16 (take 2 (drop 2 pastebuf)) - 1;
                 pz = ps_z (paste s) + ld16 (take 2 (drop 4 pastebuf)) - 1;
                 (x, px) = paste_swap (ps_x (paste s)) px;
                 (y, py) = paste_swap (ps_y (paste s)) py;
                 (z, pz) = paste_swap (ps_z (paste s)) pz;
                 s = s\<lparr>paste := (paste s)\<lparr>ps_x := x, ps_y := y, ps_z := z\<rparr>\<rparr>
             in (InPaste AtY \<lparr>l_px = px, l_py = py, l_pz = pz, l_vx = x, l_vy = y, l_vz = z,
                   l_hidden = hidden, l_buf = pastebuf, l_loop = 6\<rparr>, s))"

definition pastebuf_at :: "nat \<Rightarrow> byte list \<Rightarrow> world \<Rightarrow> byte \<times> world" where
  "pastebuf_at i buf s =
     (if i < length buf then (buf ! i, s)
      else let (b, s) = fresh 1 (remark (OverRead (length buf) i) s) in (b ! 0, s))"

definition paste_cell :: "u16 \<Rightarrow> u16 \<Rightarrow> u16 \<Rightarrow> nat \<Rightarrow> byte list \<Rightarrow> world \<Rightarrow> world" where
  "paste_cell x y z bufLoop pastebuf s =
     (let (b, s) = pastebuf_at bufLoop pastebuf s
      in if b \<noteq> 0 then
           let s = setBlock x y z b True s
           in if q_zlimit (cuboid s) then remark (Slept (q_zspeed (cuboid s))) s else s
         else s)"

fun paste_step :: "phase \<Rightarrow> locals \<Rightarrow> world \<Rightarrow> builder \<times> world" where
  "paste_step AtY l s =
     (if sint (l_vy l) \<le> sint (l_py l) then (InPaste AtX (l\<lparr>l_vx := ps_x (paste s)\<rparr>), s)
      else (PollCopy, unhide_self (l_hidden l) (s\<lparr>paste := (paste s)\<lparr>ps_start := False\<rparr>\<rparr>)))"
| "paste_step AtX l s =
     (if sint (l_vx l) \<le> sint (l_px l) then (InPaste AtZ (l\<lparr>l_vz := ps_z (paste s)\<rparr>), s)
      else (InPaste AtY (l\<lparr>l_vy := l_vy l + 1\<rparr>), s))"
| "paste_step AtZ l s =
     (if sint (l_vz l) \<le> sint (l_pz l) then
        if ps_halt (paste s) then
          (InPaste AtX (l\<lparr>l_vx := l_vx l + 1\<rparr>), s\<lparr>paste := (paste s)\<lparr>ps_start := False\<rparr>\<rparr>)
        else (InPaste AtZ (l\<lparr>l_loop := l_loop l + 1, l_vz := l_vz l + 1\<rparr>),
              paste_cell (l_vx l) (l_vy l) (l_vz l) (l_loop l) (l_buf l) s)
      else (InPaste AtX (l\<lparr>l_vx := l_vx l + 1\<rparr>), s))"

section \<open>Copy\<close>

text \<open>The loop that counts \<open>compare\<close> from one end to the other, cut to a \<open>short\<close>.\<close>

definition extent :: "u16 \<Rightarrow> u16 \<Rightarrow> u16" where
  "extent a b = (if a \<le> b then b - a + 1 else 0)"

definition copy_size :: "u16 \<Rightarrow> u16 \<Rightarrow> u16 \<Rightarrow> int" where
  "copy_size ux uy uz = sint (scast ux * scast uy * scast uz + 6 :: i32)"

definition copy_begin :: "world \<Rightarrow> builder \<times> world" where
  "copy_begin s =
     (let (x1, x2) = ordered (c_x1 (copy s)) (c_x2 (copy s));
          (y1, y2) = ordered (c_y1 (copy s)) (c_y2 (copy s));
          (z1, z2) = ordered (c_z1 (copy s)) (c_z2 (copy s));
          ux = extent x1 x2; uy = extent y1 y2; uz = extent z1 z2;
          n = copy_size ux uy uz;
          s = s\<lparr>copy := (copy s)\<lparr>c_x1 := x1, c_y1 := y1, c_z1 := z1,
                c_x2 := x2, c_y2 := y2, c_z2 := z2, c_size := n\<rparr>\<rparr>;
          s = sayf (tag @ lit ''copy: size of area: '' @ dec (n - 6) @ lit '' Bytes, ''
                @ dec (cdiv (n - 6) 1024) @ lit '' KB,'') s;
          s = tunnelMsg (dec (cdiv (cdiv n 1024) 1024) @ lit '' MB'') s
      in if n < 6 then (PollCopy, crash (BadSize n) s)
         else
           let (copyBuf, s) = fresh (nat n) s;
               copyBuf = put_at 0 (st16 ux @ st16 uy @ st16 uz) copyBuf
           in (InCopy AtY \<lparr>l_px = 0, l_py = 0, l_pz = 0, l_vx = x1, l_vy = y1, l_vz = z1,
                 l_hidden = False, l_buf = copyBuf, l_loop = 6\<rparr>, s))"

definition copy_end :: "locals \<Rightarrow> world \<Rightarrow> builder \<times> world" where
  "copy_end l s =
     (let s = say ''copy: writing to file...'' s;
          path = cstr (c_chunkName (copy s))
      in if \<not> creatable s path then (PollCopy, crash NullFile s)
         else
           let s = s\<lparr>files := (files s)(path \<mapsto> l_buf l)\<rparr>;
               s = s\<lparr>copy := (copy s)\<lparr>c_size := 0, c_start := False\<rparr>\<rparr>
           in (PollCuboid, say ''copy: done!'' s))"

fun copy_step :: "phase \<Rightarrow> locals \<Rightarrow> world \<Rightarrow> builder \<times> world" where
  "copy_step AtY l s =
     (if sint (l_vy l) \<le> uint (c_y2 (copy s)) then (InCopy AtX (l\<lparr>l_vx := c_x1 (copy s)\<rparr>), s)
      else copy_end l s)"
| "copy_step AtX l s =
     (if sint (l_vx l) \<le> uint (c_x2 (copy s)) then (InCopy AtZ (l\<lparr>l_vz := c_z1 (copy s)\<rparr>), s)
      else (InCopy AtY (l\<lparr>l_vy := l_vy l + 1\<rparr>), s))"
| "copy_step AtZ l s =
     (if sint (l_vz l) \<le> uint (c_z2 (copy s)) then
        let offset = calculateOffset (l_vx l) (l_vy l) (l_vz l) s
        in case map_read offset s of
             None \<Rightarrow> (InCopy AtZ l, crash (MapIndex offset) s)
           | Some b \<Rightarrow>
               if l_loop l < length (l_buf l) then
                 (InCopy AtZ (l\<lparr>l_buf := (l_buf l)[l_loop l := b], l_loop := l_loop l + 1,
                    l_vz := l_vz l + 1\<rparr>), s)
               else (InCopy AtZ l, crash (HeapIndex (int (l_loop l))) s)
      else (InCopy AtX (l\<lparr>l_vx := l_vx l + 1\<rparr>), s))"

section \<open>Cuboid\<close>

definition cuboid_begin :: "world \<Rightarrow> builder \<times> world" where
  "cuboid_begin s =
     (let (x1, x2) = ordered (q_x1 (cuboid s)) (q_x2 (cuboid s));
          (y1, y2) = ordered (q_y1 (cuboid s)) (q_y2 (cuboid s));
          (z1, z2) = ordered (q_z1 (cuboid s)) (q_z2 (cuboid s));
          s = s\<lparr>cuboid := (cuboid s)\<lparr>q_x1 := x1, q_y1 := y1, q_z1 := z1,
                q_x2 := x2, q_y2 := y2, q_z2 := z2\<rparr>\<rparr>;
          (hidden, s) = hide_self s
      in (InCuboid AtY \<lparr>l_px = 0, l_py = 0, l_pz = 0, l_vx = x1, l_vy = y1, l_vz = z1,
            l_hidden = hidden, l_buf = [], l_loop = 0\<rparr>, s))"

definition cuboid_end :: "locals \<Rightarrow> world \<Rightarrow> builder \<times> world" where
  "cuboid_end l s =
     (PollPaste, remark (Slept 2) (say ''z: Finished!''
        (unhide_self (l_hidden l) (s\<lparr>cuboid := (cuboid s)\<lparr>q_start := False\<rparr>\<rparr>))))"

definition cuboid_cell :: "u16 \<Rightarrow> u16 \<Rightarrow> u16 \<Rightarrow> byte \<Rightarrow> world \<Rightarrow> world" where
  "cuboid_cell x y z there s =
     (let block = q_block (cuboid s)
      in if there \<noteq> block then
           if q_zlimit (cuboid s) then remark (Slept (q_zspeed (cuboid s))) (setBlock x y z block False s)
           else setBlock x y z block True s
         else s)"

fun cuboid_step :: "phase \<Rightarrow> locals \<Rightarrow> world \<Rightarrow> builder \<times> world" where
  "cuboid_step AtY l s =
     (if sint (l_vy l) \<le> uint (q_y2 (cuboid s)) then
        let l = l\<lparr>l_vx := q_x1 (cuboid s)\<rparr>
        in if q_halt (cuboid s) then cuboid_end l (s\<lparr>cuboid := (cuboid s)\<lparr>q_start := False\<rparr>\<rparr>)
           else (InCuboid AtX l, s)
      else cuboid_end l s)"
| "cuboid_step AtX l s =
     (if sint (l_vx l) \<le> uint (q_x2 (cuboid s)) then
        let l = l\<lparr>l_vz := q_z1 (cuboid s)\<rparr>
        in if q_halt (cuboid s) then
             (InCuboid AtY (l\<lparr>l_vy := l_vy l + 1\<rparr>), s\<lparr>cuboid := (cuboid s)\<lparr>q_start := False\<rparr>\<rparr>)
           else (InCuboid AtZ l, s)
      else (InCuboid AtY (l\<lparr>l_vy := l_vy l + 1\<rparr>), s))"
| "cuboid_step AtZ l s =
     (if sint (l_vz l) \<le> uint (q_z2 (cuboid s)) then
        if q_halt (cuboid s) then
          (InCuboid AtX (l\<lparr>l_vx := l_vx l + 1\<rparr>), s\<lparr>cuboid := (cuboid s)\<lparr>q_start := False\<rparr>\<rparr>)
        else
          let offset = calculateOffset (l_vx l) (l_vy l) (l_vz l) s
          in case map_read offset s of
               None \<Rightarrow> (InCuboid AtZ l, crash (MapIndex offset) s)
             | Some there \<Rightarrow>
                 (InCuboid AtZ (l\<lparr>l_vz := l_vz l + 1\<rparr>),
                  cuboid_cell (l_vx l) (l_vy l) (l_vz l) there s)
      else (InCuboid AtX (l\<lparr>l_vx := l_vx l + 1\<rparr>), s))"

section \<open>The thread\<close>

fun builder_step :: "builder \<times> world \<Rightarrow> builder \<times> world" where
  "builder_step (b, s) =
     (if status s \<noteq> Running then (b, s)
      else case b of
        PollPaste \<Rightarrow> if ps_start (paste s) then paste_begin s else (PollCopy, s)
      | PollCopy \<Rightarrow> if c_start (copy s) then copy_begin s else (PollCuboid, s)
      | PollCuboid \<Rightarrow>
          if q_start (cuboid s) \<and> q_type (cuboid s) = 0 then cuboid_begin s
          else (PollPaste, remark (Slept 2) s)
      | InPaste ph l \<Rightarrow> paste_step ph l s
      | InCopy ph l \<Rightarrow> copy_step ph l s
      | InCuboid ph l \<Rightarrow> cuboid_step ph l s)"

end
