(* ===== verification/Walk.thy ===== *)
theory Walk
  imports Wire
begin

text \<open>
  Three nested counting loops as a machine: the interface the three jobs of the builder
  thread share, and what running such a machine does to the data the body works on.
\<close>

definition cells :: "int \<Rightarrow> int \<Rightarrow> int \<Rightarrow> int \<Rightarrow> int \<Rightarrow> int \<Rightarrow> (int \<times> int \<times> int) list" where
  "cells x1 x2 y1 y2 z1 z2 =
     concat (map (\<lambda>y. concat (map (\<lambda>x. map (\<lambda>z. (x, y, z)) [z1 .. z2]) [x1 .. x2])) [y1 .. y2])"

lemma set_cells:
  "(x, y, z) \<in> set (cells x1 x2 y1 y2 z1 z2)
     \<longleftrightarrow> x1 \<le> x \<and> x \<le> x2 \<and> y1 \<le> y \<and> y \<le> y2 \<and> z1 \<le> z \<and> z \<le> z2"
  by (auto simp: cells_def image_iff)

lemma map_upto_shift: "map (\<lambda>i. i + d) [a .. b] = [a + d .. b + (d :: int)]"
proof (induction a b rule: upto.induct)
  case (1 a b)
  then show ?case
    by (cases "a \<le> b") (simp_all add: upto.simps [of a] upto.simps [of "a + d"] add.commute add.left_commute)
qed

lemma cells_shift:
  "cells (x1 + a) (x2 + a) (y1 + b) (y2 + b) (z1 + c) (z2 + c)
     = map (\<lambda>(x, y, z). (x + a, y + b, z + c)) (cells x1 x2 y1 y2 z1 z2)"
  by (simp add: cells_def map_concat comp_def flip: map_upto_shift)

lemma length_cells:
  "length (cells x1 x2 y1 y2 z1 z2) = nat (y2 - y1 + 1) * (nat (x2 - x1 + 1) * nat (z2 - z1 + 1))"
  by (simp add: cells_def length_concat comp_def sum_list_triv)

lemma iterate_add: "iterate step (m + n) s = iterate step n (iterate step m s)"
  by (induction m arbitrary: s) simp_all

lemma iterate_fixed: "step s = s \<Longrightarrow> iterate step n s = s"
  by (induction n) simp_all

locale box_walk =
  fixes step :: "'s \<Rightarrow> 's"
    and atY :: "int \<Rightarrow> 'a \<Rightarrow> 's \<Rightarrow> bool"
    and atX :: "int \<Rightarrow> int \<Rightarrow> 'a \<Rightarrow> 's \<Rightarrow> bool"
    and atZ :: "int \<Rightarrow> int \<Rightarrow> int \<Rightarrow> 'a \<Rightarrow> 's \<Rightarrow> bool"
    and finished :: "'a \<Rightarrow> 's \<Rightarrow> bool"
    and body :: "int \<times> int \<times> int \<Rightarrow> 'a \<Rightarrow> 'a"
    and fine :: "'a \<Rightarrow> bool"
    and x1 x2 y1 y2 z1 z2 :: int
  assumes y_more: "fine a \<Longrightarrow> atY y a t \<Longrightarrow> y1 \<le> y \<Longrightarrow> y \<le> y2 \<Longrightarrow> atX x1 y a (step t)"
    and y_end: "fine a \<Longrightarrow> atY (y2 + 1) a t \<Longrightarrow> finished a (step t)"
    and x_more: "fine a \<Longrightarrow> atX x y a t \<Longrightarrow> x1 \<le> x \<Longrightarrow> x \<le> x2 \<Longrightarrow> atZ x y z1 a (step t)"
    and x_end: "fine a \<Longrightarrow> atX (x2 + 1) y a t \<Longrightarrow> atY (y + 1) a (step t)"
    and z_more: "fine a \<Longrightarrow> atZ x y z a t \<Longrightarrow> (x, y, z) \<in> set (cells x1 x2 y1 y2 z1 z2)
      \<Longrightarrow> fine (body (x, y, z) a) \<and> atZ x y (z + 1) (body (x, y, z) a) (step t)"
    and z_end: "fine a \<Longrightarrow> atZ x y (z2 + 1) a t \<Longrightarrow> atX (x + 1) y a (step t)"
begin

definition zrow :: "int \<Rightarrow> int \<Rightarrow> int \<Rightarrow> (int \<times> int \<times> int) list" where
  "zrow x y z = map (\<lambda>z. (x, y, z)) [z .. z2]"

definition slice :: "int \<Rightarrow> int \<Rightarrow> (int \<times> int \<times> int) list" where
  "slice x y = concat (map (\<lambda>x. zrow x y z1) [x .. x2])"

definition ordered_box :: bool where
  "ordered_box \<longleftrightarrow> x1 \<le> x2 + 1 \<and> y1 \<le> y2 + 1 \<and> z1 \<le> z2 + 1"

definition rest :: "int \<Rightarrow> (int \<times> int \<times> int) list" where
  "rest y = concat (map (slice x1) [y .. y2])"

lemma walk_row:
  "fine a \<Longrightarrow> atZ x y z a t \<Longrightarrow> x1 \<le> x \<Longrightarrow> x \<le> x2 \<Longrightarrow> y1 \<le> y \<Longrightarrow> y \<le> y2 \<Longrightarrow> z1 \<le> z \<Longrightarrow> z \<le> z2 + 1
   \<Longrightarrow> \<exists>n. fine (fold body (zrow x y z) a) \<and> atX (x + 1) y (fold body (zrow x y z) a) (iterate step n t)"
proof (induction "nat (z2 + 1 - z)" arbitrary: z a t)
  case 0
  then have "z = z2 + 1" by simp
  with 0 z_end [of a x y t] have "fine a \<and> atX (x + 1) y a (iterate step 1 t)" by simp
  with \<open>z = z2 + 1\<close> show ?case by (intro exI [of _ 1]) (simp add: zrow_def)
next
  case (Suc k)
  then have z: "z \<le> z2" by simp
  have step: "fine (body (x, y, z) a) \<and> atZ x y (z + 1) (body (x, y, z) a) (step t)"
    by (rule z_more) (use Suc z in \<open>simp_all add: set_cells\<close>)
  have "\<exists>n. fine (fold body (zrow x y (z + 1)) (body (x, y, z) a))
      \<and> atX (x + 1) y (fold body (zrow x y (z + 1)) (body (x, y, z) a)) (iterate step n (step t))"
    by (rule Suc.hyps(1)) (use Suc step in auto)
  moreover have "zrow x y z = (x, y, z) # zrow x y (z + 1)"
    using z by (simp add: zrow_def upto_rec1)
  ultimately show ?case by (metis fold_simps(2) iterate.simps(2))
qed

lemma walk_slice:
  "ordered_box \<Longrightarrow> fine a \<Longrightarrow> atX x y a t \<Longrightarrow> x1 \<le> x \<Longrightarrow> x \<le> x2 + 1 \<Longrightarrow> y1 \<le> y \<Longrightarrow> y \<le> y2
   \<Longrightarrow> \<exists>n. fine (fold body (slice x y) a) \<and> atY (y + 1) (fold body (slice x y) a) (iterate step n t)"
proof (induction "nat (x2 + 1 - x)" arbitrary: x a t)
  case 0
  then have "x = x2 + 1" by simp
  with 0 x_end [of a y t] have "fine a \<and> atY (y + 1) a (iterate step 1 t)" by simp
  with \<open>x = x2 + 1\<close> show ?case by (intro exI [of _ 1]) (simp add: slice_def)
next
  case (Suc k)
  then have x: "x \<le> x2" by simp
  have "\<exists>n. fine (fold body (zrow x y z1) a)
      \<and> atX (x + 1) y (fold body (zrow x y z1) a) (iterate step n (step t))"
    by (rule walk_row) (use Suc x x_more in \<open>auto simp: ordered_box_def\<close>)
  then obtain m where m: "fine (fold body (zrow x y z1) a)"
    "atX (x + 1) y (fold body (zrow x y z1) a) (iterate step (Suc m) t)" by auto
  have "\<exists>n. fine (fold body (slice (x + 1) y) (fold body (zrow x y z1) a))
      \<and> atY (y + 1) (fold body (slice (x + 1) y) (fold body (zrow x y z1) a))
          (iterate step n (iterate step (Suc m) t))"
    by (rule Suc.hyps(1)) (use Suc m in auto)
  moreover have "slice x y = zrow x y z1 @ slice (x + 1) y"
    using x by (simp add: slice_def upto_rec1)
  ultimately show ?case by (metis fold_append comp_apply iterate_add)
qed

lemma walk_rest:
  "ordered_box \<Longrightarrow> fine a \<Longrightarrow> atY y a t \<Longrightarrow> y1 \<le> y \<Longrightarrow> y \<le> y2 + 1
   \<Longrightarrow> \<exists>n. fine (fold body (rest y) a) \<and> finished (fold body (rest y) a) (iterate step n t)"
proof (induction "nat (y2 + 1 - y)" arbitrary: y a t)
  case 0
  then have "y = y2 + 1" by simp
  with 0 y_end [of a t] have "fine a \<and> finished a (iterate step 1 t)" by simp
  with \<open>y = y2 + 1\<close> show ?case by (intro exI [of _ 1]) (simp add: rest_def)
next
  case (Suc k)
  then have y: "y \<le> y2" by simp
  have "\<exists>n. fine (fold body (slice x1 y) a)
      \<and> atY (y + 1) (fold body (slice x1 y) a) (iterate step n (step t))"
    by (rule walk_slice) (use Suc y y_more in \<open>auto simp: ordered_box_def\<close>)
  then obtain m where m: "fine (fold body (slice x1 y) a)"
    "atY (y + 1) (fold body (slice x1 y) a) (iterate step (Suc m) t)" by auto
  have "\<exists>n. fine (fold body (rest (y + 1)) (fold body (slice x1 y) a))
      \<and> finished (fold body (rest (y + 1)) (fold body (slice x1 y) a))
          (iterate step n (iterate step (Suc m) t))"
    by (rule Suc.hyps(1)) (use Suc m in auto)
  moreover have "rest y = slice x1 y @ rest (y + 1)"
    using y by (simp add: rest_def upto_rec1)
  ultimately show ?case by (metis fold_append comp_apply iterate_add)
qed

lemma walk:
  assumes "x1 \<le> x2 + 1" "y1 \<le> y2 + 1" "z1 \<le> z2 + 1" and "fine a" "atY y1 a t"
  shows "\<exists>n. fine (fold body (cells x1 x2 y1 y2 z1 z2) a)
    \<and> finished (fold body (cells x1 x2 y1 y2 z1 z2) a) (iterate step n t)"
proof -
  have "cells x1 x2 y1 y2 z1 z2 = rest y1"
    by (simp add: cells_def rest_def slice_def [abs_def] zrow_def)
  moreover have ordered_box using assms(1-3) by (simp add: ordered_box_def)
  ultimately show ?thesis using walk_rest [OF _ assms(4,5)] assms(2) by simp
qed

end

end
