(* ===== verification/CuboidJob.thy ===== *)
theory CuboidJob
  imports Builder Walk
begin

text \<open>
  What a cuboid does when no other thread interferes: the machine of \<open>Builder\<close> is an
  instance of \<open>box_walk\<close>, ends, and has asked the game server for exactly the cells of the
  box that hold another block.
\<close>

section \<open>Shorts that count\<close>

abbreviation W :: "int \<Rightarrow> u16" where
  "W \<equiv> word_of_int"

lemma sint_W: "- 32768 \<le> i \<Longrightarrow> i \<le> 32767 \<Longrightarrow> sint (W i) = i"
  by (simp add: sint_sbintrunc' signed_take_bit_int_eq_self)

lemma W_uint: "W (uint x) = x"
  by simp

lemma W_Suc: "W i + 1 = W (i + 1)"
  by simp

lemma ordered_eq:
  "fst (ordered a b) = W (min (uint a) (uint b))" "snd (ordered a b) = W (max (uint a) (uint b))"
  by (auto simp: ordered_def min_def max_def word_less_def not_le)

text \<open>A step of the machine while it runs, and the cell under the three counters.\<close>

definition cell_there :: "world \<Rightarrow> int \<times> int \<times> int \<Rightarrow> byte option" where
  "cell_there s = (\<lambda>(x, y, z). map_read (calculateOffset (W x) (W y) (W z) s) s)"

lemma cell_there_cong:
  "lmap s' = lmap s \<Longrightarrow> lvlx s' = lvlx s \<Longrightarrow> lvlz s' = lvlz s \<Longrightarrow> cell_there s' = cell_there s"
  by (auto simp: cell_there_def calculateOffset_def map_read_def)

section \<open>The cuboid as a walk\<close>

definition cuboid_body :: "int \<times> int \<times> int \<Rightarrow> world \<Rightarrow> world" where
  "cuboid_body c s =
     (case c of (x, y, z) \<Rightarrow> cuboid_cell (W x) (W y) (W z) (the (cell_there s c)) s)"

text \<open>What one cell asks of the game server: without a delay the player is moved there first.\<close>

definition cell_request :: "cuboid_t \<Rightarrow> int \<times> int \<times> int \<Rightarrow> byte \<Rightarrow> byte list" where
  "cell_request q c there =
     (case c of (x, y, z) \<Rightarrow>
       if there = q_block q then []
       else if q_zlimit q then place_packet (W x) (W y) (W z) (q_block q)
       else move_packet (W x) (W y) (W z) @ place_packet (W x) (W y) (W z) (q_block q))"

definition open_net :: "world \<Rightarrow> bool" where
  "open_net s \<longleftrightarrow> status s = Running \<and> accepts s serverSock = [] \<and> accepts s tunnelSock = []"

lemma cuboid_cell_open:
  assumes "open_net s"
  obtains f r where "cuboid_cell x y z there s = s\<lparr>sent := f, remarks := r\<rparr>"
proof (cases "there = q_block (cuboid s)")
  case True
  then have "cuboid_cell x y z there s = s\<lparr>sent := sent s, remarks := remarks s\<rparr>"
    by (simp add: cuboid_cell_def)
  then show thesis by (rule that)
next
  case False
  show thesis
  proof (cases "q_zlimit (cuboid s)")
    case True
    with False assms show thesis
      by (intro that) (simp add: cuboid_cell_def Let_def setBlock_open open_net_def emit_def remark_def)
  next
    case F: False
    with False assms show thesis
      by (intro that) (simp add: cuboid_cell_def Let_def setBlock_open open_net_def)
  qed
qed

lemma cuboid_cell_request:
  assumes "open_net s"
  shows "sent (cuboid_cell (W x) (W y) (W z) there s) tunnelSock
    = sent s tunnelSock @ cell_request (cuboid s) (x, y, z) there"
  using assms
  by (simp add: cuboid_cell_def Let_def setBlock_open open_net_def emit_def remark_def cell_request_def)

text \<open>
  The box a cuboid covers once its points are in order, and the states in which it is being
  filled: nothing the walk depends on changes. \<open>w\<close> is the state at its start.
\<close>

definition cuboid_cells :: "cuboid_t \<Rightarrow> (int \<times> int \<times> int) list" where
  "cuboid_cells q =
     cells (uint (q_x1 q)) (uint (q_x2 q)) (uint (q_y1 q)) (uint (q_y2 q)) (uint (q_z1 q)) (uint (q_z2 q))"

definition cuboid_sane :: "cuboid_t \<Rightarrow> bool" where
  "cuboid_sane q \<longleftrightarrow> q_x1 q \<le> q_x2 q \<and> q_y1 q \<le> q_y2 q \<and> q_z1 q \<le> q_z2 q
     \<and> uint (q_x2 q) \<le> 32766 \<and> uint (q_y2 q) \<le> 32766 \<and> uint (q_z2 q) \<le> 32766"

definition cuboid_fine :: "world \<Rightarrow> bool \<Rightarrow> world \<Rightarrow> bool" where
  "cuboid_fine w hid s \<longleftrightarrow> open_net s \<and> cuboid s = cuboid w \<and> lmap s = lmap w \<and> lvlx s = lvlx w
     \<and> lvlz s = lvlz w \<and> hide s = hid \<and> \<not> q_halt (cuboid w) \<and> cuboid_sane (cuboid w)
     \<and> (\<forall>c \<in> set (cuboid_cells (cuboid w)). cell_there s c \<noteq> None)"

lemma cuboid_fine_body:
  assumes "cuboid_fine w hid s"
  shows "cuboid_fine w hid (cuboid_body c s)"
    "sent (cuboid_body c s) tunnelSock = sent s tunnelSock @ cell_request (cuboid w) c (the (cell_there w c))"
proof -
  obtain x y z where c: "c = (x, y, z)" by (cases c) auto
  have o: "open_net s" using assms by (simp add: cuboid_fine_def)
  from o obtain f r where
    e: "cuboid_cell (W x) (W y) (W z) (the (cell_there s c)) s = s\<lparr>sent := f, remarks := r\<rparr>"
    by (rule cuboid_cell_open)
  have "cell_there (s\<lparr>sent := f, remarks := r\<rparr>) = cell_there s" by (rule cell_there_cong) simp_all
  with e assms show "cuboid_fine w hid (cuboid_body c s)"
    by (simp add: cuboid_fine_def cuboid_body_def c open_net_def)
  have "cell_there s = cell_there w"
    by (rule cell_there_cong) (use assms in \<open>simp_all add: cuboid_fine_def\<close>)
  moreover have "cuboid s = cuboid w" using assms by (simp add: cuboid_fine_def)
  ultimately show "sent (cuboid_body c s) tunnelSock
      = sent s tunnelSock @ cell_request (cuboid w) c (the (cell_there w c))"
    using cuboid_cell_request [OF o] by (simp add: cuboid_body_def c)
qed

lemma cuboid_fold:
  "cuboid_fine w hid s \<Longrightarrow> cuboid_fine w hid (fold cuboid_body ds s)
     \<and> sent (fold cuboid_body ds s) tunnelSock
         = sent s tunnelSock @ concat (map (\<lambda>c. cell_request (cuboid w) c (the (cell_there w c))) ds)"
proof (induction ds arbitrary: s)
  case (Cons d ds)
  show ?case using Cons.IH [OF cuboid_fine_body(1) [OF Cons.prems]]
    by (simp add: cuboid_fine_body(2) [OF Cons.prems])
qed simp

text \<open>The counters of the machine, as integers.\<close>

definition cu_at :: "phase \<Rightarrow> bool \<Rightarrow> int option \<Rightarrow> int \<Rightarrow> int option \<Rightarrow> world \<Rightarrow> builder \<times> world \<Rightarrow> bool" where
  "cu_at ph hid x y z s t \<longleftrightarrow> (\<exists>l. t = (InCuboid ph l, s) \<and> l_hidden l = hid \<and> l_vy l = W y
     \<and> (case x of None \<Rightarrow> True | Some x \<Rightarrow> l_vx l = W x) \<and> (case z of None \<Rightarrow> True | Some z \<Rightarrow> l_vz l = W z))"

definition cu_finished :: "bool \<Rightarrow> world \<Rightarrow> builder \<times> world \<Rightarrow> bool" where
  "cu_finished hid s t \<longleftrightarrow> (\<exists>l. l_hidden l = hid \<and> t = cuboid_end l s)"

interpretation cuboid_walk: box_walk builder_step "\<lambda>y. cu_at AtY hid None y None"
    "\<lambda>x y. cu_at AtX hid (Some x) y None" "\<lambda>x y z. cu_at AtZ hid (Some x) y (Some z)"
    "cu_finished hid" cuboid_body "cuboid_fine w True"
    "uint (q_x1 (cuboid w))" "uint (q_x2 (cuboid w))" "uint (q_y1 (cuboid w))"
    "uint (q_y2 (cuboid w))" "uint (q_z1 (cuboid w))" "uint (q_z2 (cuboid w))"
  for w hid
proof -
  let ?x1 = "uint (q_x1 (cuboid w))" and ?x2 = "uint (q_x2 (cuboid w))"
    and ?y1 = "uint (q_y1 (cuboid w))" and ?y2 = "uint (q_y2 (cuboid w))"
    and ?z1 = "uint (q_z1 (cuboid w))" and ?z2 = "uint (q_z2 (cuboid w))"
  have pos: "0 \<le> ?x1" "0 \<le> ?y1" "0 \<le> ?z1" by auto
  have sane: "?x1 \<le> ?x2" "?y1 \<le> ?y2" "?z1 \<le> ?z2" "?x2 \<le> 32766" "?y2 \<le> 32766" "?z2 \<le> 32766"
    if "cuboid_fine w True s" for s
    using that by (simp_all add: cuboid_fine_def cuboid_sane_def word_le_def)
  have sints: "sint (W i) = i" if "cuboid_fine w True s"
    "(?x1 \<le> i \<and> i \<le> ?x2 + 1) \<or> (?y1 \<le> i \<and> i \<le> ?y2 + 1) \<or> (?z1 \<le> i \<and> i \<le> ?z2 + 1)" for s i
    using sane [OF that(1)] that(2) pos by (intro sint_W) linarith+
  note defs = cu_at_def cu_finished_def cuboid_fine_def open_net_def
  show "box_walk builder_step (\<lambda>y. cu_at AtY hid None y None)
    (\<lambda>x y. cu_at AtX hid (Some x) y None) (\<lambda>x y z. cu_at AtZ hid (Some x) y (Some z))
    (cu_finished hid) cuboid_body (cuboid_fine w True) ?x1 ?x2 ?y1 ?y2 ?z1 ?z2"
  proof
    fix s t y assume f: "cuboid_fine w True s" and "cu_at AtY hid None y None s t" "?y1 \<le> y" "y \<le> ?y2"
    then show "cu_at AtX hid (Some ?x1) y None s (builder_step t)"
      using sints [OF f, of y] by (auto simp: defs)
  next
    fix s t assume f: "cuboid_fine w True s" and "cu_at AtY hid None (?y2 + 1) None s t"
    then show "cu_finished hid s (builder_step t)"
      using sints [OF f, of "?y2 + 1"] sane [OF f] by (auto simp: defs)
  next
    fix s t x y assume f: "cuboid_fine w True s" and "cu_at AtX hid (Some x) y None s t" "?x1 \<le> x" "x \<le> ?x2"
    then show "cu_at AtZ hid (Some x) y (Some ?z1) s (builder_step t)"
      using sints [OF f, of x] by (auto simp: defs)
  next
    fix s t y assume f: "cuboid_fine w True s" and "cu_at AtX hid (Some (?x2 + 1)) y None s t"
    then show "cu_at AtY hid None (y + 1) None s (builder_step t)"
      using sints [OF f, of "?x2 + 1"] sane [OF f] by (auto simp: defs)
  next
    fix s t x y z
    assume f: "cuboid_fine w True s" and a: "cu_at AtZ hid (Some x) y (Some z) s t"
      and c: "(x, y, z) \<in> set (cells ?x1 ?x2 ?y1 ?y2 ?z1 ?z2)"
    from f c obtain b where "cell_there s (x, y, z) = Some b"
      by (auto simp: cuboid_fine_def cuboid_cells_def)
    then have rd: "map_read (calculateOffset (W x) (W y) (W z) s) s = Some b"
      by (simp add: cell_there_def)
    from c have z: "?z1 \<le> z" "z \<le> ?z2" by (simp_all add: set_cells)
    have "cu_at AtZ hid (Some x) y (Some (z + 1)) (cuboid_body (x, y, z) s) (builder_step t)"
      using f a rd z sints [OF f, of z] by (auto simp: defs cuboid_body_def cell_there_def)
    with cuboid_fine_body(1) [OF f]
    show "cuboid_fine w True (cuboid_body (x, y, z) s)
      \<and> cu_at AtZ hid (Some x) y (Some (z + 1)) (cuboid_body (x, y, z) s) (builder_step t)"
      by simp
  next
    fix s t x y assume f: "cuboid_fine w True s" and "cu_at AtZ hid (Some x) y (Some (?z2 + 1)) s t"
    then show "cu_at AtX hid (Some (x + 1)) y None s (builder_step t)"
      using sints [OF f, of "?z2 + 1"] sane [OF f] by (auto simp: defs)
  qed
qed

section \<open>The whole job\<close>

definition points_in_order :: "cuboid_t \<Rightarrow> cuboid_t" where
  "points_in_order q =
     q\<lparr>q_x1 := fst (ordered (q_x1 q) (q_x2 q)), q_y1 := fst (ordered (q_y1 q) (q_y2 q)),
       q_z1 := fst (ordered (q_z1 q) (q_z2 q)), q_x2 := snd (ordered (q_x1 q) (q_x2 q)),
       q_y2 := snd (ordered (q_y1 q) (q_y2 q)), q_z2 := snd (ordered (q_z1 q) (q_z2 q))\<rparr>"

definition cuboid_small :: "cuboid_t \<Rightarrow> bool" where
  "cuboid_small q \<longleftrightarrow> list_all (\<lambda>v. v \<le> 32766) [q_x1 q, q_x2 q, q_y1 q, q_y2 q, q_z1 q, q_z2 q]"

lemma cuboid_sane_ordered: "cuboid_small q \<Longrightarrow> cuboid_sane (points_in_order q)"
  by (auto simp: cuboid_small_def cuboid_sane_def points_in_order_def ordered_def word_le_def
      word_less_def)

lemma cuboid_begin_eq:
  "cuboid_begin s = (InCuboid AtY \<lparr>l_px = 0, l_py = 0, l_pz = 0,
      l_vx = q_x1 (points_in_order (cuboid s)), l_vy = q_y1 (points_in_order (cuboid s)),
      l_vz = q_z1 (points_in_order (cuboid s)), l_hidden = hide s, l_buf = [], l_loop = 0\<rparr>,
      s\<lparr>cuboid := points_in_order (cuboid s), hide := True\<rparr>)"
  by (simp add: cuboid_begin_def points_in_order_def hide_self_def case_prod_beta Let_def)

lemma say_open: "accepts s serverSock = [] \<Longrightarrow> say text s = emit serverSock (message 0 (tag @ lit text)) s"
  by (simp add: say_def wire_simps)

lemma cuboid_jobs:
  assumes "open_net s" and "q_start (cuboid s)" and "q_type (cuboid s) = 0" and "\<not> q_halt (cuboid s)"
    and "cuboid_small (cuboid s)"
    and "list_all (\<lambda>c. cell_there s c \<noteq> None) (cuboid_cells (points_in_order (cuboid s)))"
  shows "\<exists>n s'. iterate builder_step n (PollCuboid, s) = (PollPaste, s')
    \<and> sent s' tunnelSock = sent s tunnelSock
        @ concat (map (\<lambda>c. cell_request (cuboid s) c (the (cell_there s c)))
            (cuboid_cells (points_in_order (cuboid s))))
    \<and> \<not> q_start (cuboid s') \<and> hide s' = hide s \<and> lmap s' = lmap s \<and> status s' = Running"
proof -
  let ?q = "points_in_order (cuboid s)"
  define w where "w = s\<lparr>cuboid := ?q, hide := True\<rparr>"
  have there: "cell_there w = cell_there s" by (rule cell_there_cong) (simp_all add: w_def)
  have req: "cell_request ?q = cell_request (cuboid s)"
    by (simp add: fun_eq_iff cell_request_def points_in_order_def)
  have fine: "cuboid_fine w True w"
    using assms there cuboid_sane_ordered [OF assms(5)]
    by (simp add: cuboid_fine_def w_def open_net_def points_in_order_def list_all_iff)
  obtain b where b: "builder_step (PollCuboid, s) = (b, w)" "cu_at AtY (hide s) None (uint (q_y1 ?q)) None w (b, w)"
    using assms by (simp add: open_net_def cuboid_begin_eq w_def cu_at_def)
  have q: "cuboid w = ?q" by (simp add: w_def)
  have sane: "cuboid_sane ?q" by (rule cuboid_sane_ordered [OF assms(5)])
  let ?f = "fold cuboid_body (cuboid_cells ?q) w"
  have "\<exists>n. cuboid_fine w True (fold cuboid_body (cells (uint (q_x1 (cuboid w))) (uint (q_x2 (cuboid w)))
        (uint (q_y1 (cuboid w))) (uint (q_y2 (cuboid w))) (uint (q_z1 (cuboid w))) (uint (q_z2 (cuboid w)))) w)
      \<and> cu_finished (hide s) (fold cuboid_body (cells (uint (q_x1 (cuboid w))) (uint (q_x2 (cuboid w)))
        (uint (q_y1 (cuboid w))) (uint (q_y2 (cuboid w))) (uint (q_z1 (cuboid w))) (uint (q_z2 (cuboid w)))) w)
          (iterate builder_step n (b, w))"
    by (rule cuboid_walk.walk) (use sane fine b(2) in \<open>simp_all add: q cuboid_sane_def word_le_def\<close>)
  then obtain n where n: "cu_finished (hide s) ?f (iterate builder_step n (b, w))"
    by (auto simp: q cuboid_cells_def)
  note fold = cuboid_fold [OF fine, of "cuboid_cells ?q"]
  from n obtain l where l: "iterate builder_step n (b, w) = cuboid_end l ?f" "l_hidden l = hide s"
    by (auto simp: cu_finished_def)
  have f: "open_net ?f" "hide ?f" "lmap ?f = lmap s" using fold by (simp_all add: cuboid_fine_def w_def)
  have out: "sent ?f tunnelSock = sent s tunnelSock
      @ concat (map (\<lambda>c. cell_request (cuboid s) c (the (cell_there s c))) (cuboid_cells ?q))"
    using fold by (simp add: q req there) (simp add: w_def)
  have "iterate builder_step (Suc n) (PollCuboid, s) = cuboid_end l ?f" by (simp only: iterate.simps b(1) l(1))
  with f out l(2) show ?thesis
    by (intro exI [of _ "Suc n"])
      (simp add: cuboid_end_def unhide_self_def say_open open_net_def emit_def remark_def)
qed

text \<open>
  C3: A cuboid started on points up to 32766 whose box lies in the level ends, however the
  two points were given, and has then asked the game server, in order, for exactly the cells
  of the box that did not hold its block; the player is visible again if he was, and the
  local copy of the level is as before.
\<close>

theorem cuboid_fills_its_box:
  assumes "open_net s" and "q_start (cuboid s)" and "q_type (cuboid s) = 0" and "\<not> q_halt (cuboid s)"
    and "cuboid_small (cuboid s)"
    and "list_all (\<lambda>c. cell_there s c \<noteq> None) (cuboid_cells (points_in_order (cuboid s)))"
  shows "\<exists>n s'. iterate builder_step n (PollCuboid, s) = (PollPaste, s')
    \<and> sent s' tunnelSock = sent s tunnelSock
        @ concat (map (\<lambda>c. cell_request (cuboid s) c (the (cell_there s c)))
            (cuboid_cells (points_in_order (cuboid s))))
    \<and> \<not> q_start (cuboid s') \<and> hide s' = hide s \<and> lmap s' = lmap s \<and> status s' = Running"
  by (rule cuboid_jobs [OF assms])

text \<open>Two cells of a 2 by 2 by 2 level, the points given the wrong way round.\<close>

definition wall_world :: world where
  "wall_world = start\<lparr>lmap := [1, 2, 3, 4, 5, 6, 7, 8], lvlx := 2, lvly := 2, lvlz := 2,
     cuboid := zero_cuboid\<lparr>q_x1 := 1, q_y1 := 1, q_z1 := 1, q_x2 := 0, q_y2 := 1, q_z2 := 1,
       q_block := 7, q_start := True, q_zlimit := True\<rparr>\<rparr>"

theorem cuboid_fills_its_box_witness:
  "\<exists>n s'. iterate builder_step n (PollCuboid, wall_world) = (PollPaste, s')
    \<and> sent s' tunnelSock = [5, 0, 1, 0, 1, 0, 1, 1, 7]"
proof -
  have q: "points_in_order (cuboid wall_world)
      = (cuboid wall_world)\<lparr>q_x1 := 0, q_x2 := 1\<rparr>"
    by (simp add: wall_world_def points_in_order_def ordered_def)
  have c: "cuboid_cells (points_in_order (cuboid wall_world)) = [(0, 1, 1), (1, 1, 1)]"
    unfolding q by (simp add: cuboid_cells_def cells_def wall_world_def zero_cuboid_def upto.simps)
  have t: "cell_there wall_world (0, 1, 1) = Some 7" "cell_there wall_world (1, 1, 1) = Some 8"
    by (simp_all add: cell_there_def map_read_def calculateOffset_def wall_world_def)
  have "open_net wall_world" "q_start (cuboid wall_world)" "q_type (cuboid wall_world) = 0"
    "\<not> q_halt (cuboid wall_world)" "cuboid_small (cuboid wall_world)"
    by (simp_all add: wall_world_def start_def open_net_def zero_cuboid_def cuboid_small_def)
  from cuboid_fills_its_box [OF this] c t
  obtain n s' where "iterate builder_step n (PollCuboid, wall_world) = (PollPaste, s')"
    "sent s' tunnelSock = sent wall_world tunnelSock
      @ cell_request (cuboid wall_world) (0, 1, 1) 7 @ cell_request (cuboid wall_world) (1, 1, 1) 8"
    by auto
  moreover have "sent wall_world tunnelSock = []" by (simp add: wall_world_def start_def)
  moreover have "cell_request (cuboid wall_world) (0, 1, 1) 7 = []"
    "cell_request (cuboid wall_world) (1, 1, 1) 8 = [5, 0, 1, 0, 1, 0, 1, 1, 7]"
    by (simp_all add: cell_request_def wall_world_def place_packet_def posbytes_def be16_def)
  ultimately show ?thesis by auto
qed

end
