(* ===== verification/ChunkJobs.thy ===== *)
theory ChunkJobs
  imports CuboidJob
begin

text \<open>
  Copying a box of the level into a file and pasting such a file, each by the builder thread
  alone: both are instances of \<open>box_walk\<close>, and a chunk that was copied is what is pasted.
\<close>

section \<open>Paste as a walk\<close>

definition paste_body :: "byte list \<Rightarrow> int \<times> int \<times> int \<Rightarrow> nat \<times> world \<Rightarrow> nat \<times> world" where
  "paste_body buf c a =
     (case (c, a) of ((x, y, z), (i, s)) \<Rightarrow> (Suc i, paste_cell (W x) (W y) (W z) i buf s))"

definition paste_request :: "int \<times> int \<times> int \<Rightarrow> byte \<Rightarrow> byte list" where
  "paste_request c b =
     (case c of (x, y, z) \<Rightarrow>
       if b = 0 then [] else move_packet (W x) (W y) (W z) @ place_packet (W x) (W y) (W z) b)"

definition paste_box :: "paste_t \<Rightarrow> int \<Rightarrow> int \<Rightarrow> int \<Rightarrow> bool" where
  "paste_box p x2 y2 z2 \<longleftrightarrow> uint (ps_x p) \<le> x2 \<and> uint (ps_y p) \<le> y2 \<and> uint (ps_z p) \<le> z2
     \<and> x2 \<le> 32766 \<and> y2 \<le> 32766 \<and> z2 \<le> 32766"

definition paste_fine :: "world \<Rightarrow> byte list \<Rightarrow> int \<Rightarrow> int \<Rightarrow> int \<Rightarrow> nat \<times> world \<Rightarrow> bool" where
  "paste_fine w buf x2 y2 z2 a \<longleftrightarrow> open_net (snd a) \<and> paste (snd a) = paste w
     \<and> \<not> ps_halt (paste w) \<and> hide (snd a) \<and> files (snd a) = files w \<and> paste_box (paste w) x2 y2 z2"

definition pa_at :: "byte list \<Rightarrow> int \<Rightarrow> int \<Rightarrow> int \<Rightarrow> phase \<Rightarrow> bool \<Rightarrow> int option \<Rightarrow> int \<Rightarrow> int option
    \<Rightarrow> nat \<times> world \<Rightarrow> builder \<times> world \<Rightarrow> bool" where
  "pa_at buf x2 y2 z2 ph hid x y z a t \<longleftrightarrow> (\<exists>l. t = (InPaste ph l, snd a) \<and> l_hidden l = hid
     \<and> l_buf l = buf \<and> l_loop l = fst a \<and> l_px l = W x2 \<and> l_py l = W y2 \<and> l_pz l = W z2 \<and> l_vy l = W y
     \<and> (case x of None \<Rightarrow> True | Some x \<Rightarrow> l_vx l = W x) \<and> (case z of None \<Rightarrow> True | Some z \<Rightarrow> l_vz l = W z))"

definition pa_finished :: "bool \<Rightarrow> nat \<times> world \<Rightarrow> builder \<times> world \<Rightarrow> bool" where
  "pa_finished hid a t \<longleftrightarrow>
     t = (PollCopy, unhide_self hid ((snd a)\<lparr>paste := (paste (snd a))\<lparr>ps_start := False\<rparr>\<rparr>))"

lemma pastebuf_at_frame:
  "\<exists>b f r. pastebuf_at i buf s = (b, s\<lparr>remarks := r, indet := f\<rparr>)"
proof (cases "i < length buf")
  case True
  then have "pastebuf_at i buf s = (buf ! i, s\<lparr>remarks := remarks s, indet := indet s\<rparr>)"
    by (simp add: pastebuf_at_def)
  then show ?thesis by blast
next
  case False
  then show ?thesis by (auto simp: pastebuf_at_def fresh_def remark_def)
qed

lemma paste_fine_body:
  assumes "paste_fine w buf x2 y2 z2 a"
  shows "paste_fine w buf x2 y2 z2 (paste_body buf c a)"
proof -
  obtain x y z where c: "c = (x, y, z)" by (cases c) auto
  obtain i s where a: "a = (i, s)" by (cases a)
  obtain b f r where b: "pastebuf_at i buf s = (b, s\<lparr>remarks := r, indet := f\<rparr>)"
    using pastebuf_at_frame by metis
  from assms show ?thesis
    by (simp add: paste_fine_def paste_body_def a c paste_cell_def b Let_def open_net_def setBlock_open
        remark_def)
qed

interpretation paste_walk: box_walk builder_step "\<lambda>y. pa_at buf x2 y2 z2 AtY hid None y None"
    "\<lambda>x y. pa_at buf x2 y2 z2 AtX hid (Some x) y None"
    "\<lambda>x y z. pa_at buf x2 y2 z2 AtZ hid (Some x) y (Some z)"
    "pa_finished hid" "paste_body buf" "paste_fine w buf x2 y2 z2"
    "uint (ps_x (paste w))" x2 "uint (ps_y (paste w))" y2 "uint (ps_z (paste w))" z2
  for w buf hid x2 y2 z2
proof -
  let ?x1 = "uint (ps_x (paste w))" and ?y1 = "uint (ps_y (paste w))" and ?z1 = "uint (ps_z (paste w))"
  have pos: "0 \<le> ?x1" "0 \<le> ?y1" "0 \<le> ?z1" by auto
  have box: "?x1 \<le> x2" "?y1 \<le> y2" "?z1 \<le> z2" "x2 \<le> 32766" "y2 \<le> 32766" "z2 \<le> 32766"
    if "paste_fine w buf x2 y2 z2 a" for a
    using that by (simp_all add: paste_fine_def paste_box_def)
  have sints: "sint (W i) = i" if "paste_fine w buf x2 y2 z2 a"
    "(?x1 \<le> i \<and> i \<le> x2 + 1) \<or> (?y1 \<le> i \<and> i \<le> y2 + 1) \<or> (?z1 \<le> i \<and> i \<le> z2 + 1)" for a i
    using box [OF that(1)] that(2) pos by (intro sint_W) linarith+
  have ends: "sint (W x2) = x2" "sint (W y2) = y2" "sint (W z2) = z2"
    if "paste_fine w buf x2 y2 z2 a" for a
    using box [OF that] sints [OF that] by simp_all
  note defs = pa_at_def pa_finished_def paste_fine_def open_net_def
  show "box_walk builder_step (\<lambda>y. pa_at buf x2 y2 z2 AtY hid None y None)
    (\<lambda>x y. pa_at buf x2 y2 z2 AtX hid (Some x) y None)
    (\<lambda>x y z. pa_at buf x2 y2 z2 AtZ hid (Some x) y (Some z)) (pa_finished hid) (paste_body buf)
    (paste_fine w buf x2 y2 z2) ?x1 x2 ?y1 y2 ?z1 z2"
  proof
    fix a t y assume f: "paste_fine w buf x2 y2 z2 a" and "pa_at buf x2 y2 z2 AtY hid None y None a t"
      "?y1 \<le> y" "y \<le> y2"
    then show "pa_at buf x2 y2 z2 AtX hid (Some ?x1) y None a (builder_step t)"
      using sints [OF f, of y] ends [OF f] by (auto simp: defs)
  next
    fix a t assume f: "paste_fine w buf x2 y2 z2 a" and "pa_at buf x2 y2 z2 AtY hid None (y2 + 1) None a t"
    then show "pa_finished hid a (builder_step t)"
      using sints [OF f, of "y2 + 1"] ends [OF f] box [OF f] by (auto simp: defs)
  next
    fix a t x y assume f: "paste_fine w buf x2 y2 z2 a" and "pa_at buf x2 y2 z2 AtX hid (Some x) y None a t"
      "?x1 \<le> x" "x \<le> x2"
    then show "pa_at buf x2 y2 z2 AtZ hid (Some x) y (Some ?z1) a (builder_step t)"
      using sints [OF f, of x] ends [OF f] by (auto simp: defs)
  next
    fix a t y assume f: "paste_fine w buf x2 y2 z2 a"
      and "pa_at buf x2 y2 z2 AtX hid (Some (x2 + 1)) y None a t"
    then show "pa_at buf x2 y2 z2 AtY hid None (y + 1) None a (builder_step t)"
      using sints [OF f, of "x2 + 1"] ends [OF f] box [OF f] by (auto simp: defs)
  next
    fix a t x y z
    assume f: "paste_fine w buf x2 y2 z2 a" and p: "pa_at buf x2 y2 z2 AtZ hid (Some x) y (Some z) a t"
      and c: "(x, y, z) \<in> set (cells ?x1 x2 ?y1 y2 ?z1 z2)"
    from c have z: "?z1 \<le> z" "z \<le> z2" by (simp_all add: set_cells)
    have "pa_at buf x2 y2 z2 AtZ hid (Some x) y (Some (z + 1)) (paste_body buf (x, y, z) a) (builder_step t)"
      using f p z sints [OF f, of z] ends [OF f]
      by (auto simp: defs paste_body_def split: prod.splits)
    with paste_fine_body [OF f]
    show "paste_fine w buf x2 y2 z2 (paste_body buf (x, y, z) a)
      \<and> pa_at buf x2 y2 z2 AtZ hid (Some x) y (Some (z + 1)) (paste_body buf (x, y, z) a) (builder_step t)"
      by simp
  next
    fix a t x y assume f: "paste_fine w buf x2 y2 z2 a"
      and "pa_at buf x2 y2 z2 AtZ hid (Some x) y (Some (z2 + 1)) a t"
    then show "pa_at buf x2 y2 z2 AtX hid (Some (x + 1)) y None a (builder_step t)"
      using sints [OF f, of "z2 + 1"] ends [OF f] box [OF f] by (auto simp: defs)
  qed
qed

lemma paste_fold:
  "paste_fine w buf x2 y2 z2 (i, s) \<Longrightarrow> i + length cs \<le> length buf
   \<Longrightarrow> sent (snd (fold (paste_body buf) cs (i, s))) tunnelSock
     = sent s tunnelSock @ concat (map2 paste_request cs (drop i buf))"
proof (induction cs arbitrary: i s)
  case (Cons c cs)
  obtain x y z where c: "c = (x, y, z)" by (cases c) auto
  from Cons.prems have i: "i < length buf" by simp
  define s' where "s' = paste_cell (W x) (W y) (W z) i buf s"
  have b: "paste_body buf c (i, s) = (Suc i, s')" by (simp add: paste_body_def c s'_def)
  have "open_net s" using Cons.prems by (simp add: paste_fine_def)
  then have "sent s' tunnelSock = sent s tunnelSock @ paste_request c (buf ! i)"
    using i by (simp add: s'_def c paste_cell_def pastebuf_at_def Let_def setBlock_open open_net_def
        remark_def paste_request_def)
  moreover have "sent (snd (fold (paste_body buf) cs (Suc i, s'))) tunnelSock
      = sent s' tunnelSock @ concat (map2 paste_request cs (drop (Suc i) buf))"
    by (rule Cons.IH) (use Cons.prems paste_fine_body [OF Cons.prems(1), of c] b in simp_all)
  moreover have "drop i buf = buf ! i # drop (Suc i) buf" using i by (simp add: Cons_nth_drop_Suc)
  ultimately show ?case by (simp add: b)
qed simp

section \<open>Pasting a chunk file\<close>

text \<open>A chunk: three extents as the host stores a \<open>short\<close>, then one byte for each cell.\<close>

definition chunk_file :: "u16 \<Rightarrow> u16 \<Rightarrow> u16 \<Rightarrow> byte list \<Rightarrow> byte list" where
  "chunk_file ux uy uz bytes = st16 ux @ st16 uy @ st16 uz @ bytes"

text \<open>The box a chunk of these extents covers when it is pasted at a point.\<close>

definition box_at :: "u16 \<Rightarrow> u16 \<Rightarrow> u16 \<Rightarrow> u16 \<Rightarrow> u16 \<Rightarrow> u16 \<Rightarrow> (int \<times> int \<times> int) list" where
  "box_at x y z ux uy uz =
     cells (uint x) (uint x + uint ux - 1) (uint y) (uint y + uint uy - 1) (uint z) (uint z + uint uz - 1)"

definition fits :: "u16 \<Rightarrow> u16 \<Rightarrow> bool" where
  "fits x ux \<longleftrightarrow> 0 < ux \<and> uint x + uint ux - 1 \<le> 32766"

lemma fits_end:
  assumes "fits x ux"
  shows "x + ux - 1 = W (uint x + uint ux - 1)" "paste_swap x (x + ux - 1) = (x, x + ux - 1)"
    "uint x \<le> uint x + uint ux - 1" "uint x + uint ux - 1 \<le> 32766"
proof -
  show e: "x + ux - 1 = W (uint x + uint ux - 1)" by simp
  have u: "0 < uint ux" using assms by (simp add: fits_def word_less_def)
  then show "uint x \<le> uint x + uint ux - 1" by simp
  show m: "uint x + uint ux - 1 \<le> 32766" using assms by (simp add: fits_def)
  have "0 \<le> uint x" by simp
  then have "sint (W (uint x + uint ux - 1)) = uint x + uint ux - 1"
    using u m by (intro sint_W) linarith+
  with u show "paste_swap x (x + ux - 1) = (x, x + ux - 1)"
    unfolding paste_swap_def e by simp
qed

lemma header_fields:
  "ld16 (take 2 (chunk_file ux uy uz bytes @ r)) = ux"
  "ld16 (take 2 (drop 2 (chunk_file ux uy uz bytes @ r))) = uy"
  "ld16 (take 2 (drop 4 (chunk_file ux uy uz bytes @ r))) = uz"
  "drop 6 (chunk_file ux uy uz bytes @ r) = bytes @ r"
  "length (chunk_file ux uy uz bytes) = 6 + length bytes"
  by (simp_all add: chunk_file_def)

lemma map2_append_right:
  "length xs \<le> length ys \<Longrightarrow> map2 f xs (ys @ r) = map2 f xs ys"
  by (simp add: zip_append2 take_all_iff)

lemma paste_run:
  assumes "open_net s" and "ps_start (paste s)" and "\<not> ps_halt (paste s)"
    and "files s (cstr (ps_chunkName (paste s))) = Some (chunk_file ux uy uz bytes)"
    and "int (length bytes) = uint ux * uint uy * uint uz" and "length bytes \<le> 8994"
    and "fits (ps_x (paste s)) ux" and "fits (ps_y (paste s)) uy" and "fits (ps_z (paste s)) uz"
  shows "\<exists>n s'. iterate builder_step n (PollPaste, s) = (PollCopy, s')
    \<and> sent s' tunnelSock = sent s tunnelSock
        @ concat (map2 paste_request (box_at (ps_x (paste s)) (ps_y (paste s)) (ps_z (paste s)) ux uy uz) bytes)
    \<and> \<not> ps_start (paste s') \<and> hide s' = hide s \<and> files s' = files s \<and> status s' = Running"
proof -
  let ?x = "ps_x (paste s)" and ?y = "ps_y (paste s)" and ?z = "ps_z (paste s)"
  let ?x2 = "uint ?x + uint ux - 1" and ?y2 = "uint ?y + uint uy - 1" and ?z2 = "uint ?z + uint uz - 1"
  define junk where "junk = map (indet s) [6 + length bytes ..< 9000]"
  define buf where "buf = chunk_file ux uy uz bytes @ junk"
  define w where "w = s\<lparr>indet := (\<lambda>i. indet s (9000 + i)), hide := True\<rparr>"
  have content: "put_at 0 (take 9000 (chunk_file ux uy uz bytes)) (map (indet s) [0 ..< 9000]) = buf"
    using assms(6) by (simp add: buf_def junk_def put_at_0 header_fields(5) drop_map min_def)
  have paste_w: "paste w = paste s" by (simp add: w_def)
  have same: "w\<lparr>paste := (paste s)\<lparr>ps_x := ?x, ps_y := ?y, ps_z := ?z\<rparr>\<rparr> = w" by (simp add: w_def)
  obtain l where l: "paste_begin s = (InPaste AtY l, w)"
    and at: "pa_at buf ?x2 ?y2 ?z2 AtY (hide s) None (uint ?y) None (6, w) (InPaste AtY l, w)"
  proof
    let ?l = "\<lparr>l_px = ?x + ux - 1, l_py = ?y + uy - 1, l_pz = ?z + uz - 1, l_vx = ?x, l_vy = ?y,
      l_vz = ?z, l_hidden = hide s, l_buf = buf, l_loop = 6\<rparr>"
    have "fresh 9000 s = (map (indet s) [0 ..< 9000], s\<lparr>indet := (\<lambda>i. indet s (9000 + i))\<rparr>)"
      by (simp add: fresh_def)
    moreover have "hide_self (s\<lparr>indet := (\<lambda>i. indet s (9000 + i))\<rparr>) = (hide s, w)"
      by (simp add: hide_self_def w_def)
    ultimately show "paste_begin s = (InPaste AtY ?l, w)"
      using assms(4) same
      by (simp add: paste_begin_def content paste_w header_fields(1-3) [of ux uy uz bytes junk, folded buf_def]
          fits_end(2) [OF assms(7)] fits_end(2) [OF assms(8)] fits_end(2) [OF assms(9)])
    show "pa_at buf ?x2 ?y2 ?z2 AtY (hide s) None (uint ?y) None (6, w) (InPaste AtY ?l, w)"
      by (simp add: pa_at_def)
  qed
  have box: "paste_box (paste w) ?x2 ?y2 ?z2"
    using fits_end(3,4) [OF assms(7)] fits_end(3,4) [OF assms(8)] fits_end(3,4) [OF assms(9)]
    by (simp add: paste_box_def paste_w)
  have fine: "paste_fine w buf ?x2 ?y2 ?z2 (6, w)"
    using assms(1,3) box by (simp add: paste_fine_def paste_w) (simp add: w_def open_net_def)
  let ?cs = "box_at ?x ?y ?z ux uy uz"
  have "\<exists>n. paste_fine w buf ?x2 ?y2 ?z2 (fold (paste_body buf) ?cs (6, w))
      \<and> pa_finished (hide s) (fold (paste_body buf) ?cs (6, w)) (iterate builder_step n (InPaste AtY l, w))"
    unfolding box_at_def paste_w [symmetric]
    by (rule paste_walk.walk) (use box fine at in \<open>simp_all add: paste_box_def paste_w\<close>)
  then obtain n where f: "paste_fine w buf ?x2 ?y2 ?z2 (fold (paste_body buf) ?cs (6, w))"
    and n: "pa_finished (hide s) (fold (paste_body buf) ?cs (6, w)) (iterate builder_step n (InPaste AtY l, w))"
    by blast
  have "int (length ?cs) = uint uy * (uint ux * uint uz)" by (simp add: box_at_def length_cells)
  then have len: "length ?cs = length bytes" using assms(5) by (simp add: mult.commute mult.left_commute)
  have buflen: "length buf = 9000" using assms(6) by (simp add: buf_def junk_def header_fields(5))
  have "sent (snd (fold (paste_body buf) ?cs (6, w))) tunnelSock
      = sent w tunnelSock @ concat (map2 paste_request ?cs (drop 6 buf))"
    by (rule paste_fold [OF fine]) (simp add: len buflen assms(6))
  also have "drop 6 buf = bytes @ junk" unfolding buf_def by (rule header_fields(4))
  also have "map2 paste_request ?cs (bytes @ junk) = map2 paste_request ?cs bytes"
    by (rule map2_append_right) (simp add: len)
  finally have out: "sent (snd (fold (paste_body buf) ?cs (6, w))) tunnelSock
      = sent s tunnelSock @ concat (map2 paste_request ?cs bytes)" by (simp add: w_def)
  have "builder_step (PollPaste, s) = (InPaste AtY l, w)"
    using assms(1,2) l by (simp add: open_net_def)
  then have "iterate builder_step (Suc n) (PollPaste, s) = iterate builder_step n (InPaste AtY l, w)"
    by (simp only: iterate.simps)
  with n out f show ?thesis
    by (intro exI [of _ "Suc n"])
      (simp add: pa_finished_def unhide_self_def paste_fine_def open_net_def w_def)
qed

section \<open>Copy as a walk\<close>

text \<open>The data of the walk: the buffer and \<open>bufLoop\<close>; the state does not change.\<close>

definition copy_body :: "world \<Rightarrow> int \<times> int \<times> int \<Rightarrow> byte list \<times> nat \<Rightarrow> byte list \<times> nat" where
  "copy_body w c a = ((fst a)[snd a := the (cell_there w c)], Suc (snd a))"

definition copy_cells :: "copy_t \<Rightarrow> (int \<times> int \<times> int) list" where
  "copy_cells c =
     cells (uint (c_x1 c)) (uint (c_x2 c)) (uint (c_y1 c)) (uint (c_y2 c)) (uint (c_z1 c)) (uint (c_z2 c))"

definition copy_sane :: "copy_t \<Rightarrow> bool" where
  "copy_sane c \<longleftrightarrow> c_x1 c \<le> c_x2 c \<and> c_y1 c \<le> c_y2 c \<and> c_z1 c \<le> c_z2 c
     \<and> uint (c_x2 c) \<le> 32766 \<and> uint (c_y2 c) \<le> 32766 \<and> uint (c_z2 c) \<le> 32766"

definition nx :: "copy_t \<Rightarrow> int" where "nx c = uint (c_x2 c) - uint (c_x1 c) + 1"
definition ny :: "copy_t \<Rightarrow> int" where "ny c = uint (c_y2 c) - uint (c_y1 c) + 1"
definition nz :: "copy_t \<Rightarrow> int" where "nz c = uint (c_z2 c) - uint (c_z1 c) + 1"

definition cell_index :: "copy_t \<Rightarrow> int \<Rightarrow> int \<Rightarrow> int \<Rightarrow> int" where
  "cell_index c x y z = ((y - uint (c_y1 c)) * nx c + (x - uint (c_x1 c))) * nz c + (z - uint (c_z1 c))"

lemma copy_sane_bounds:
  assumes "copy_sane c"
  shows "uint (c_x1 c) \<le> uint (c_x2 c)" "uint (c_y1 c) \<le> uint (c_y2 c)" "uint (c_z1 c) \<le> uint (c_z2 c)"
    "uint (c_x2 c) \<le> 32766" "uint (c_y2 c) \<le> 32766" "uint (c_z2 c) \<le> 32766"
  using assms by (simp_all add: copy_sane_def word_le_def)

lemma cell_index_less:
  assumes "(x, y, z) \<in> set (copy_cells c)"
  shows "cell_index c x y z < ny c * nx c * nz c"
proof -
  let ?a = "y - uint (c_y1 c)" and ?b = "x - uint (c_x1 c)" and ?d = "z - uint (c_z1 c)"
  from assms have b: "0 \<le> ?a" "?a + 1 \<le> ny c" "0 \<le> ?b" "?b + 1 \<le> nx c" "0 \<le> ?d" "?d + 1 \<le> nz c"
    by (auto simp: copy_cells_def set_cells nx_def ny_def nz_def)
  have "?a * nx c + ?b + 1 \<le> ?a * nx c + nx c" using b by linarith
  also have "\<dots> = (?a + 1) * nx c" by (simp add: algebra_simps)
  also have "\<dots> \<le> ny c * nx c" by (rule mult_right_mono) (use b in linarith)+
  finally have "(?a * nx c + ?b + 1) * nz c \<le> (ny c * nx c) * nz c"
    by (rule mult_right_mono) (use b in linarith)
  then show ?thesis using b by (simp add: cell_index_def algebra_simps)
qed

definition copy_fine :: "world \<Rightarrow> byte list \<times> nat \<Rightarrow> bool" where
  "copy_fine w a \<longleftrightarrow> open_net w \<and> copy_sane (copy w)
     \<and> int (length (fst a)) = 6 + ny (copy w) * nx (copy w) * nz (copy w)
     \<and> (\<forall>c \<in> set (copy_cells (copy w)). cell_there w c \<noteq> None)"

definition co_at :: "world \<Rightarrow> phase \<Rightarrow> int \<Rightarrow> int \<Rightarrow> int \<Rightarrow> int option \<Rightarrow> int \<Rightarrow> int option
    \<Rightarrow> byte list \<times> nat \<Rightarrow> builder \<times> world \<Rightarrow> bool" where
  "co_at w ph i j k x y z a t \<longleftrightarrow> (\<exists>l. t = (InCopy ph l, w) \<and> l_buf l = fst a \<and> l_loop l = snd a
     \<and> int (snd a) = 6 + cell_index (copy w) i j k \<and> l_vy l = W y
     \<and> (case x of None \<Rightarrow> True | Some x \<Rightarrow> l_vx l = W x) \<and> (case z of None \<Rightarrow> True | Some z \<Rightarrow> l_vz l = W z))"

definition co_finished :: "world \<Rightarrow> byte list \<times> nat \<Rightarrow> builder \<times> world \<Rightarrow> bool" where
  "co_finished w a t \<longleftrightarrow> (\<exists>l. l_buf l = fst a \<and> t = copy_end l w)"

interpretation copy_walk: box_walk builder_step
    "\<lambda>y. co_at w AtY (uint (c_x1 (copy w))) y (uint (c_z1 (copy w))) None y None"
    "\<lambda>x y. co_at w AtX x y (uint (c_z1 (copy w))) (Some x) y None"
    "\<lambda>x y z. co_at w AtZ x y z (Some x) y (Some z)"
    "co_finished w" "copy_body w" "copy_fine w"
    "uint (c_x1 (copy w))" "uint (c_x2 (copy w))" "uint (c_y1 (copy w))"
    "uint (c_y2 (copy w))" "uint (c_z1 (copy w))" "uint (c_z2 (copy w))"
  for w
proof -
  let ?x1 = "uint (c_x1 (copy w))" and ?x2 = "uint (c_x2 (copy w))"
    and ?y1 = "uint (c_y1 (copy w))" and ?y2 = "uint (c_y2 (copy w))"
    and ?z1 = "uint (c_z1 (copy w))" and ?z2 = "uint (c_z2 (copy w))"
  have pos: "0 \<le> ?x1" "0 \<le> ?y1" "0 \<le> ?z1" by auto
  have sane: "?x1 \<le> ?x2" "?y1 \<le> ?y2" "?z1 \<le> ?z2" "?x2 \<le> 32766" "?y2 \<le> 32766" "?z2 \<le> 32766"
    if "copy_fine w a" for a
    using that copy_sane_bounds [of "copy w"] by (simp_all add: copy_fine_def)
  have sints: "sint (W i) = i" if "copy_fine w a"
    "(?x1 \<le> i \<and> i \<le> ?x2 + 1) \<or> (?y1 \<le> i \<and> i \<le> ?y2 + 1) \<or> (?z1 \<le> i \<and> i \<le> ?z2 + 1)" for a i
    using sane [OF that(1)] that(2) pos by (intro sint_W) linarith+
  have next_y: "cell_index (copy w) (?x2 + 1) y ?z1 = cell_index (copy w) ?x1 (y + 1) ?z1" for y
    by (simp add: cell_index_def nx_def algebra_simps)
  have next_x: "cell_index (copy w) x y (?z2 + 1) = cell_index (copy w) (x + 1) y ?z1" for x y
    by (simp add: cell_index_def nz_def algebra_simps)
  have next_z: "cell_index (copy w) x y (z + 1) = cell_index (copy w) x y z + 1" for x y z
    by (simp add: cell_index_def)
  note defs = co_at_def co_finished_def copy_fine_def open_net_def
  show "box_walk builder_step (\<lambda>y. co_at w AtY ?x1 y ?z1 None y None)
    (\<lambda>x y. co_at w AtX x y ?z1 (Some x) y None) (\<lambda>x y z. co_at w AtZ x y z (Some x) y (Some z))
    (co_finished w) (copy_body w) (copy_fine w) ?x1 ?x2 ?y1 ?y2 ?z1 ?z2"
  proof
    fix a t y assume f: "copy_fine w a" and "co_at w AtY ?x1 y ?z1 None y None a t" "?y1 \<le> y" "y \<le> ?y2"
    then show "co_at w AtX ?x1 y ?z1 (Some ?x1) y None a (builder_step t)"
      using sints [OF f, of y] by (auto simp: defs)
  next
    fix a t assume f: "copy_fine w a" and "co_at w AtY ?x1 (?y2 + 1) ?z1 None (?y2 + 1) None a t"
    then show "co_finished w a (builder_step t)"
      using sints [OF f, of "?y2 + 1"] sane [OF f] by (auto simp: defs)
  next
    fix a t x y assume f: "copy_fine w a" and "co_at w AtX x y ?z1 (Some x) y None a t" "?x1 \<le> x" "x \<le> ?x2"
    then show "co_at w AtZ x y ?z1 (Some x) y (Some ?z1) a (builder_step t)"
      using sints [OF f, of x] by (auto simp: defs)
  next
    fix a t y assume f: "copy_fine w a"
      and "co_at w AtX (?x2 + 1) y ?z1 (Some (?x2 + 1)) y None a t"
    then show "co_at w AtY ?x1 (y + 1) ?z1 None (y + 1) None a (builder_step t)"
      using sints [OF f, of "?x2 + 1"] sane [OF f] by (auto simp: defs next_y)
  next
    fix a t x y z
    assume f: "copy_fine w a" and p: "co_at w AtZ x y z (Some x) y (Some z) a t"
      and c: "(x, y, z) \<in> set (cells ?x1 ?x2 ?y1 ?y2 ?z1 ?z2)"
    from f c obtain b where b: "cell_there w (x, y, z) = Some b"
      by (auto simp: copy_fine_def copy_cells_def)
    then have rd: "map_read (calculateOffset (W x) (W y) (W z) w) w = Some b"
      by (simp add: cell_there_def)
    from c have z: "?z1 \<le> z" "z \<le> ?z2" by (simp_all add: set_cells)
    have "cell_index (copy w) x y z < ny (copy w) * nx (copy w) * nz (copy w)"
      using c by (intro cell_index_less) (simp add: copy_cells_def)
    then have "snd a < length (fst a)" using f p by (auto simp: copy_fine_def co_at_def)
    then have "co_at w AtZ x y (z + 1) (Some x) y (Some (z + 1)) (copy_body w (x, y, z) a) (builder_step t)"
      using f p rd b z sints [OF f, of z] by (auto simp: defs copy_body_def next_z)
    moreover have "copy_fine w (copy_body w (x, y, z) a)"
      using f by (simp add: copy_fine_def copy_body_def)
    ultimately show "copy_fine w (copy_body w (x, y, z) a)
      \<and> co_at w AtZ x y (z + 1) (Some x) y (Some (z + 1)) (copy_body w (x, y, z) a) (builder_step t)"
      by simp
  next
    fix a t x y assume f: "copy_fine w a"
      and "co_at w AtZ x y (?z2 + 1) (Some x) y (Some (?z2 + 1)) a t"
    then show "co_at w AtX (x + 1) y ?z1 (Some (x + 1)) y None a (builder_step t)"
      using sints [OF f, of "?z2 + 1"] sane [OF f] by (auto simp: defs next_x)
  qed
qed

lemma copy_fold:
  "i + length cs \<le> length buf \<Longrightarrow> fold (copy_body w) cs (buf, i)
     = (take i buf @ map (\<lambda>c. the (cell_there w c)) cs @ drop (i + length cs) buf, i + length cs)"
proof (induction cs arbitrary: buf i)
  case (Cons c cs)
  let ?b = "the (cell_there w c)"
  from Cons.prems have i: "i < length buf" by simp
  have "fold (copy_body w) (c # cs) (buf, i) = fold (copy_body w) cs (buf[i := ?b], Suc i)"
    by (simp add: copy_body_def)
  also have "\<dots> = (take (Suc i) (buf[i := ?b]) @ map (\<lambda>c. the (cell_there w c)) cs
      @ drop (Suc i + length cs) (buf[i := ?b]), Suc i + length cs)"
    by (rule Cons.IH) (use Cons.prems in simp)
  also have "take (Suc i) (buf[i := ?b]) = take i buf @ [?b]"
    using i by (simp add: take_Suc_conv_app_nth)
  finally show ?case by simp
qed simp

section \<open>Copying a box\<close>

definition copy_in_order :: "copy_t \<Rightarrow> copy_t" where
  "copy_in_order c =
     c\<lparr>c_x1 := fst (ordered (c_x1 c) (c_x2 c)), c_y1 := fst (ordered (c_y1 c) (c_y2 c)),
       c_z1 := fst (ordered (c_z1 c) (c_z2 c)), c_x2 := snd (ordered (c_x1 c) (c_x2 c)),
       c_y2 := snd (ordered (c_y1 c) (c_y2 c)), c_z2 := snd (ordered (c_z1 c) (c_z2 c))\<rparr>"

definition copy_small :: "copy_t \<Rightarrow> bool" where
  "copy_small c \<longleftrightarrow> list_all (\<lambda>v. v \<le> 32766) [c_x1 c, c_x2 c, c_y1 c, c_y2 c, c_z1 c, c_z2 c]"

lemma copy_sane_ordered: "copy_small c \<Longrightarrow> copy_sane (copy_in_order c)"
  by (auto simp: copy_small_def copy_sane_def copy_in_order_def ordered_def word_le_def word_less_def)

lemma extent_W:
  assumes "a \<le> b" "uint b \<le> 32766"
  shows "extent a b = W (uint b - uint a + 1)" "sint (extent a b) = uint b - uint a + 1"
proof -
  have le: "uint a \<le> uint b" using assms(1) by (simp add: word_le_def)
  have "b - a + 1 = W (uint b - uint a + 1)" by simp
  then show e: "extent a b = W (uint b - uint a + 1)" using assms(1) by (simp add: extent_def)
  have "0 \<le> uint a" by simp
  then have "sint (W (uint b - uint a + 1)) = uint b - uint a + 1"
    using le assms(2) by (intro sint_W) linarith+
  with e show "sint (extent a b) = uint b - uint a + 1" by simp
qed

definition chunk_extents :: "copy_t \<Rightarrow> u16 \<times> u16 \<times> u16" where
  "chunk_extents c = (extent (c_x1 c) (c_x2 c), extent (c_y1 c) (c_y2 c), extent (c_z1 c) (c_z2 c))"

lemma copy_size_exact:
  assumes "sint ux * sint uy * sint uz + 6 < 2 ^ 31" "0 \<le> sint ux" "0 \<le> sint uy" "0 \<le> sint uz"
  shows "copy_size ux uy uz = sint ux * sint uy * sint uz + 6"
proof -
  have e: "(scast ux * scast uy * scast uz + 6 :: i32) = word_of_int (sint ux * sint uy * sint uz + 6)"
    by simp
  have "copy_size ux uy uz = signed_take_bit 31 (sint ux * sint uy * sint uz + 6)"
    by (simp only: copy_size_def e sint_sbintrunc') simp
  also have "\<dots> = sint ux * sint uy * sint uz + 6"
    using assms mult_nonneg_nonneg [OF mult_nonneg_nonneg [OF assms(2,3)] assms(4)]
    by (intro signed_take_bit_int_eq_self) simp_all
  finally show ?thesis .
qed

lemma extents_product:
  assumes "copy_sane c" "chunk_extents c = (ux, uy, uz)"
  shows "sint ux * sint uy * sint uz = ny c * nx c * nz c" "0 \<le> sint ux" "0 \<le> sint uy" "0 \<le> sint uz"
  using assms copy_sane_bounds [OF assms(1)]
  by (auto simp: chunk_extents_def copy_sane_def extent_W(2) nx_def ny_def nz_def)

lemma sayf_open:
  assumes "accepts s serverSock = []"
  obtains f r where "sayf text s = s\<lparr>remarks := r, sent := (sent s)(serverSock := f)\<rparr>"
proof (cases "64 < Suc (length text)")
  case True
  with assms show thesis
    by (intro that) (simp add: sayf_def tunnelMsg_open copied_def remark_def emit_def)
next
  case False
  with assms have "sayf text s
      = s\<lparr>remarks := remarks s, sent := (sent s)(serverSock := sent s serverSock @ message 0 text)\<rparr>"
    by (simp add: sayf_def tunnelMsg_open copied_def emit_def)
  then show thesis by (rule that)
qed

text \<open>What the builder has no part in.\<close>

definition still :: "world \<Rightarrow> world \<Rightarrow> bool" where
  "still s t \<longleftrightarrow> segs t = segs s \<and> points t = points s \<and> zPlace t = zPlace s \<and> cuboid t = cuboid s
     \<and> lvlx t = lvlx s \<and> lvlz t = lvlz s \<and> c_place (copy t) = c_place (copy s)"

lemma copy_ends:
  assumes "open_net s" and "c_start (copy s)" and "copy_small (copy s)"
    and "copy_in_order (copy s) = c" and "chunk_extents c = (ux, uy, uz)"
    and "sint ux * sint uy * sint uz + 6 < 2 ^ 31"
    and "list_all (\<lambda>e. cell_there s e \<noteq> None) (copy_cells c)"
    and "cstr (c_chunkName (copy s)) = path" and "creatable s path"
  shows "\<exists>n s'. iterate builder_step n (PollCopy, s) = (PollCuboid, s')
    \<and> files s' = (files s)(path \<mapsto> chunk_file ux uy uz (map (\<lambda>e. the (cell_there s e)) (copy_cells c)))
    \<and> sent s' tunnelSock = sent s tunnelSock \<and> lmap s' = lmap s \<and> hide s' = hide s
    \<and> paste s' = paste s \<and> \<not> c_start (copy s') \<and> open_net s' \<and> still s s'"
proof -
  have sane: "copy_sane c" using copy_sane_ordered [OF assms(3)] assms(4) by simp
  note ext = extents_product [OF sane assms(5)]
  define n where "n = ny c * nx c * nz c + 6"
  have size: "copy_size ux uy uz = n"
    using copy_size_exact [OF assms(6) ext(2-4)] by (simp add: n_def ext(1))
  have n6: "6 \<le> n" using ext mult_nonneg_nonneg [OF mult_nonneg_nonneg [OF ext(2,3)] ext(4)]
    by (simp add: n_def)
  define s1 where "s1 = s\<lparr>copy := c\<lparr>c_size := n\<rparr>\<rparr>"
  define msg where "msg = tag @ lit ''copy: size of area: '' @ dec (n - 6) @ lit '' Bytes, ''
                @ dec (cdiv (n - 6) 1024) @ lit '' KB,''"
  have "accepts s1 serverSock = []" using assms(1) by (simp add: s1_def open_net_def)
  then obtain f r where fr: "sayf msg s1 = s1\<lparr>remarks := r, sent := (sent s1)(serverSock := f)\<rparr>"
    by (rule sayf_open)
  define s2 where "s2 = tunnelMsg (dec (cdiv (cdiv n 1024) 1024) @ lit '' MB'') (sayf msg s1)"
  have s2: "s2 = s\<lparr>copy := c\<lparr>c_size := n\<rparr>, remarks := r, sent := (sent s)(serverSock := f
      @ message 0 (dec (cdiv (cdiv n 1024) 1024) @ lit '' MB''))\<rparr>"
    using assms(1) unfolding s2_def fr by (simp add: tunnelMsg_open s1_def open_net_def emit_def)
  define w where "w = s2\<lparr>indet := (\<lambda>i. indet s2 (nat n + i))\<rparr>"
  define buf where "buf = put_at 0 (st16 ux @ st16 uy @ st16 uz) (map (indet s2) [0 ..< nat n])"
  have buf: "length buf = nat n" "take 6 buf = st16 ux @ st16 uy @ st16 uz"
    using n6 by (simp_all add: buf_def put_at_0)
  have cw: "copy w = c\<lparr>c_size := n\<rparr>" by (simp add: w_def s2)
  have fields: "copy_cells (c\<lparr>c_size := n\<rparr>) = copy_cells c" "copy_sane (c\<lparr>c_size := n\<rparr>) = copy_sane c"
    "nx (c\<lparr>c_size := n\<rparr>) = nx c" "ny (c\<lparr>c_size := n\<rparr>) = ny c" "nz (c\<lparr>c_size := n\<rparr>) = nz c"
    by (simp_all add: copy_cells_def copy_sane_def nx_def ny_def nz_def)
  have there: "cell_there w = cell_there s" by (rule cell_there_cong) (simp_all add: w_def s2)
  have fine: "copy_fine w (buf, 6)"
    using assms(1,7) sane n6
    by (simp add: copy_fine_def cw fields there buf list_all_iff)
      (simp add: n_def open_net_def w_def s2)
  obtain l where l: "builder_step (PollCopy, s) = (InCopy AtY l, w)"
    and at: "co_at w AtY (uint (c_x1 (copy w))) (uint (c_y1 (copy w))) (uint (c_z1 (copy w))) None
      (uint (c_y1 (copy w))) None (buf, 6) (InCopy AtY l, w)"
  proof
    let ?l = "\<lparr>l_px = 0, l_py = 0, l_pz = 0, l_vx = c_x1 c, l_vy = c_y1 c, l_vz = c_z1 c,
      l_hidden = False, l_buf = buf, l_loop = 6\<rparr>"
    have e: "extent (c_x1 c) (c_x2 c) = ux" "extent (c_y1 c) (c_y2 c) = uy" "extent (c_z1 c) (c_z2 c) = uz"
      using assms(5) by (simp_all add: chunk_extents_def)
    have o: "fst (ordered (c_x1 (copy s)) (c_x2 (copy s))) = c_x1 c"
      "fst (ordered (c_y1 (copy s)) (c_y2 (copy s))) = c_y1 c"
      "fst (ordered (c_z1 (copy s)) (c_z2 (copy s))) = c_z1 c"
      "snd (ordered (c_x1 (copy s)) (c_x2 (copy s))) = c_x2 c"
      "snd (ordered (c_y1 (copy s)) (c_y2 (copy s))) = c_y2 c"
      "snd (ordered (c_z1 (copy s)) (c_z2 (copy s))) = c_z2 c"
      unfolding assms(4) [symmetric] by (simp_all add: copy_in_order_def)
    have st: "s\<lparr>copy := (copy s)\<lparr>c_x1 := c_x1 c, c_y1 := c_y1 c, c_z1 := c_z1 c,
        c_x2 := c_x2 c, c_y2 := c_y2 c, c_z2 := c_z2 c, c_size := n\<rparr>\<rparr> = s1"
      unfolding s1_def assms(4) [symmetric] by (simp add: copy_in_order_def)
    have "copy_begin s = (InCopy AtY ?l, w)"
      using n6 by (simp add: copy_begin_def case_prod_beta Let_def o e size st msg_def [symmetric]
          s2_def [symmetric] fresh_def buf_def [symmetric] w_def [symmetric])
    with assms(1,2) show "builder_step (PollCopy, s) = (InCopy AtY ?l, w)"
      by (simp add: open_net_def)
    show "co_at w AtY (uint (c_x1 (copy w))) (uint (c_y1 (copy w))) (uint (c_z1 (copy w))) None
      (uint (c_y1 (copy w))) None (buf, 6) (InCopy AtY ?l, w)"
      by (simp add: co_at_def cell_index_def) (simp add: cw)
  qed
  let ?cs = "copy_cells c"
  have "\<exists>k. copy_fine w (fold (copy_body w) (copy_cells (copy w)) (buf, 6))
      \<and> co_finished w (fold (copy_body w) (copy_cells (copy w)) (buf, 6)) (iterate builder_step k (InCopy AtY l, w))"
    unfolding copy_cells_def
    by (rule copy_walk.walk) (use copy_sane_bounds [OF sane] fine at in \<open>simp_all add: cw\<close>)
  then obtain k where k: "co_finished w (fold (copy_body w) ?cs (buf, 6)) (iterate builder_step k (InCopy AtY l, w))"
    by (auto simp: cw fields)
  have "int (length ?cs) = ny c * (nx c * nz c)"
    using copy_sane_bounds [OF sane] by (simp add: copy_cells_def length_cells nx_def ny_def nz_def)
  then have len: "6 + length ?cs = length buf" using n6 by (simp add: buf n_def mult.assoc)
  then have "fold (copy_body w) ?cs (buf, 6)
      = (chunk_file ux uy uz (map (\<lambda>e. the (cell_there s e)) ?cs), 6 + length ?cs)"
    by (simp add: copy_fold there buf(2) chunk_file_def)
  with k obtain l' where l': "iterate builder_step k (InCopy AtY l, w) = copy_end l' w"
    "l_buf l' = chunk_file ux uy uz (map (\<lambda>e. the (cell_there s e)) ?cs)"
    by (auto simp: co_finished_def)
  have path: "cstr (c_chunkName (copy w)) = path"
    using assms(8) by (simp add: cw assms(4) [symmetric] copy_in_order_def)
  have run: "iterate builder_step (Suc k) (PollCopy, s) = copy_end l' w"
    by (simp only: iterate.simps l l'(1))
  have end1: "copy_end l' w = (PollCuboid, say ''copy: done!''
      ((say ''copy: writing to file...'' w)\<lparr>files := (files w)(path \<mapsto> l_buf l'),
        copy := (copy w)\<lparr>c_size := 0, c_start := False\<rparr>\<rparr>))"
    using assms(1,9) path
    by (simp add: copy_end_def say_open open_net_def w_def s2 emit_def Let_def)
  let ?s = "say ''copy: done!'' ((say ''copy: writing to file...'' w)\<lparr>files := (files w)(path \<mapsto> l_buf l'),
        copy := (copy w)\<lparr>c_size := 0, c_start := False\<rparr>\<rparr>)"
  have same: "c_place c = c_place (copy s)" by (simp add: assms(4) [symmetric] copy_in_order_def)
  have "files ?s = (files s)(path \<mapsto> chunk_file ux uy uz (map (\<lambda>e. the (cell_there s e)) ?cs))
      \<and> sent ?s tunnelSock = sent s tunnelSock \<and> lmap ?s = lmap s \<and> hide ?s = hide s
      \<and> paste ?s = paste s \<and> \<not> c_start (copy ?s) \<and> open_net ?s \<and> still s ?s"
    using assms(1) l'(2) same by (simp add: say_open open_net_def w_def s2 emit_def still_def)
  with run end1 show ?thesis by metis
qed

end
