(* ===== verification/ChunkProps.thy ===== *)
theory ChunkProps
  imports ChunkJobs
begin

text \<open>
  The properties of copying and pasting a chunk, each with an instance, and the round trip.
\<close>

text \<open>
  C22: Copying a box whose cells lie in the level, with coordinates up to 32766 and a volume
  the size computation holds, ends and leaves a chunk file: its extents and the blocks of the
  box in order. Nothing is asked of the game server.
\<close>

theorem copy_saves_the_box:
  assumes "open_net s" and "c_start (copy s)" and "copy_small (copy s)"
    and "copy_in_order (copy s) = c" and "chunk_extents c = (ux, uy, uz)"
    and "sint ux * sint uy * sint uz + 6 < 2 ^ 31"
    and "list_all (\<lambda>e. cell_there s e \<noteq> None) (copy_cells c)"
    and "cstr (c_chunkName (copy s)) = path" and "creatable s path"
  shows "\<exists>n s'. iterate builder_step n (PollCopy, s) = (PollCuboid, s')
    \<and> files s' = (files s)(path \<mapsto> chunk_file ux uy uz (map (\<lambda>e. the (cell_there s e)) (copy_cells c)))
    \<and> sent s' tunnelSock = sent s tunnelSock \<and> lmap s' = lmap s \<and> hide s' = hide s
    \<and> paste s' = paste s \<and> \<not> c_start (copy s') \<and> open_net s'"
  using copy_ends [OF assms] by blast

text \<open>Two cells of a level, copied and pasted elsewhere; the first cell is air.\<close>

definition copy_world :: world where
  "copy_world = start\<lparr>lmap := [0, 9, 3, 4, 5, 6, 7, 8], lvlx := 2, lvly := 2, lvlz := 2,
     copy := zero_copy\<lparr>c_x1 := 1, c_x2 := 0, c_chunkName := lit ''chunks/a.chunk'', c_start := True\<rparr>\<rparr>"

definition copy_box :: copy_t where
  "copy_box = zero_copy\<lparr>c_x1 := 0, c_x2 := 1, c_chunkName := lit ''chunks/a.chunk'', c_start := True\<rparr>"

lemma copy_world_facts:
  "open_net copy_world" "c_start (copy copy_world)" "copy_small (copy copy_world)"
  "copy_in_order (copy copy_world) = copy_box" "chunk_extents copy_box = (2, 1, 1)"
  "copy_cells copy_box = [(0, 0, 0), (1, 0, 0)]"
  "cell_there copy_world (0, 0, 0) = Some 0" "cell_there copy_world (1, 0, 0) = Some 9"
  "creatable copy_world path" "sent copy_world tunnelSock = []" "\<not> ps_halt (paste copy_world)"
  by (simp_all add: copy_world_def copy_box_def start_def open_net_def zero_copy_def zero_paste_def
      copy_small_def copy_in_order_def ordered_def chunk_extents_def extent_def copy_cells_def
      cells_def upto.simps cell_there_def map_read_def calculateOffset_def)

theorem copy_saves_the_box_witness:
  "\<exists>n s'. iterate builder_step n (PollCopy, copy_world) = (PollCuboid, s')
    \<and> files s' (cstr (c_chunkName (copy copy_world))) = Some [2, 0, 1, 0, 1, 0, 0, 9]"
proof -
  have "sint (2 :: u16) * sint (1 :: u16) * sint (1 :: u16) + 6 < 2 ^ 31" by simp
  from copy_saves_the_box [OF copy_world_facts(1-5) this _ refl copy_world_facts(9)]
  obtain n s' where "iterate builder_step n (PollCopy, copy_world) = (PollCuboid, s')"
    "files s' = (files copy_world)(cstr (c_chunkName (copy copy_world)) \<mapsto> chunk_file 2 1 1 [0, 9])"
    by (auto simp: copy_world_facts(6-8))
  moreover have "chunk_file 2 1 1 [0, 9] = [2, 0, 1, 0, 1, 0, 0, 9]"
    by (simp add: chunk_file_def st16_def)
  ultimately show ?thesis by (intro exI [of _ n] exI [of _ s']) simp
qed

text \<open>
  C21: Pasting a chunk file of at most 8994 cells at a point from which it stays below 32767
  ends and asks the game server for each cell of the box whose byte is not 0, in the order of
  the file, moving the player there first.
\<close>

theorem paste_places_the_chunk:
  assumes "open_net s" and "ps_start (paste s)" and "\<not> ps_halt (paste s)"
    and "files s (cstr (ps_chunkName (paste s))) = Some (chunk_file ux uy uz bytes)"
    and "int (length bytes) = uint ux * uint uy * uint uz" and "length bytes \<le> 8994"
    and "fits (ps_x (paste s)) ux" and "fits (ps_y (paste s)) uy" and "fits (ps_z (paste s)) uz"
  shows "\<exists>n s'. iterate builder_step n (PollPaste, s) = (PollCopy, s')
    \<and> sent s' tunnelSock = sent s tunnelSock
        @ concat (map2 paste_request (box_at (ps_x (paste s)) (ps_y (paste s)) (ps_z (paste s)) ux uy uz) bytes)
    \<and> \<not> ps_start (paste s') \<and> hide s' = hide s \<and> files s' = files s \<and> status s' = Running"
  using assms by (rule paste_run)

definition paste_world :: world where
  "paste_world = start\<lparr>files := [cstr (lit ''c'') \<mapsto> [2, 0, 1, 0, 1, 0, 0, 9]],
     paste := zero_paste\<lparr>ps_x := 4, ps_y := 5, ps_z := 6, ps_chunkName := lit ''c'', ps_start := True\<rparr>\<rparr>"

theorem paste_places_the_chunk_witness:
  "\<exists>n s'. iterate builder_step n (PollPaste, paste_world) = (PollCopy, s')
    \<and> sent s' tunnelSock = [8, 255, 0, 160, 0, 160, 0, 192, 0, 0, 5, 0, 5, 0, 5, 0, 6, 1, 9]"
proof -
  have p: "paste paste_world = zero_paste\<lparr>ps_x := 4, ps_y := 5, ps_z := 6, ps_chunkName := lit ''c'',
      ps_start := True\<rparr>" "files paste_world (cstr (lit ''c'')) = Some (chunk_file 2 1 1 [0, 9])"
    "open_net paste_world" "sent paste_world tunnelSock = []"
    by (simp_all add: paste_world_def start_def open_net_def chunk_file_def st16_def)
  have b: "box_at 4 5 6 2 1 1 = [(4, 5, 6), (5, 5, 6)]"
    by (simp add: box_at_def cells_def upto.simps)
  have "\<exists>n s'. iterate builder_step n (PollPaste, paste_world) = (PollCopy, s')
    \<and> sent s' tunnelSock = sent paste_world tunnelSock
        @ concat (map2 paste_request (box_at (ps_x (paste paste_world)) (ps_y (paste paste_world))
            (ps_z (paste paste_world)) 2 1 1) [0, 9])
    \<and> \<not> ps_start (paste s') \<and> hide s' = hide paste_world \<and> files s' = files paste_world \<and> status s' = Running"
    by (rule paste_places_the_chunk) (simp_all add: p fits_def zero_paste_def)
  then show ?thesis
    by (simp add: p b paste_request_def move_packet_def place_packet_def posbytes_def be16_def) blast
qed

section \<open>The round trip\<close>

text \<open>What \<open>'paste\<close> and the placed point leave: the point, the name and \<open>start\<close>.\<close>

definition arm_paste :: "u16 \<Rightarrow> u16 \<Rightarrow> u16 \<Rightarrow> byte list \<Rightarrow> world \<Rightarrow> world" where
  "arm_paste x y z name s =
     s\<lparr>paste := (paste s)\<lparr>ps_x := x, ps_y := y, ps_z := z, ps_chunkName := name, ps_start := True\<rparr>\<rparr>"

lemma extent_uint:
  assumes "a \<le> b" "uint b \<le> 32766"
  shows "uint (extent a b) = uint b - uint a + 1" "0 < extent a b"
proof -
  have le: "uint a \<le> uint b" using assms(1) by (simp add: word_le_def)
  have "0 \<le> uint a" by simp
  then have r: "0 \<le> uint b - uint a + 1" "uint b - uint a + 1 < 65536" using le assms(2) by linarith+
  have "uint (W (uint b - uint a + 1)) = (uint b - uint a + 1) mod 2 ^ 16"
    by (simp only: uint_word_of_int) simp
  also have "(uint b - uint a + 1) mod 2 ^ 16 = uint b - uint a + 1"
    using r by (simp add: mod_pos_pos_trivial)
  finally show u: "uint (extent a b) = uint b - uint a + 1"
    by (simp only: extent_W(1) [OF assms])
  then show "0 < extent a b" using le by (simp add: word_less_def)
qed

text \<open>The cells of a box, and where they come to lie.\<close>

definition moved :: "copy_t \<Rightarrow> u16 \<Rightarrow> u16 \<Rightarrow> u16 \<Rightarrow> int \<times> int \<times> int \<Rightarrow> int \<times> int \<times> int" where
  "moved c px py pz = (\<lambda>(x, y, z).
     (x + (uint px - uint (c_x1 c)), y + (uint py - uint (c_y1 c)), z + (uint pz - uint (c_z1 c))))"

lemma chunk_volume:
  assumes sane: "copy_sane c" and ext: "chunk_extents c = (ux, uy, uz)"
  shows "uint ux = nx c" "uint uy = ny c" "uint uz = nz c"
    and "int (length (copy_cells c)) = uint ux * uint uy * uint uz"
    and "length (copy_cells c) \<le> 8994 \<Longrightarrow> sint ux * sint uy * sint uz + 6 < 2 ^ 31"
proof -
  note b = copy_sane_bounds [OF sane]
  have e: "ux = extent (c_x1 c) (c_x2 c)" "uy = extent (c_y1 c) (c_y2 c)" "uz = extent (c_z1 c) (c_z2 c)"
    using ext by (simp_all add: chunk_extents_def)
  show u: "uint ux = nx c" "uint uy = ny c" "uint uz = nz c"
    using sane b by (simp_all add: e extent_uint copy_sane_def nx_def ny_def nz_def)
  have n: "int (length (copy_cells c)) = ny c * (nx c * nz c)"
    using b by (simp add: copy_cells_def length_cells nx_def ny_def nz_def)
  then show "int (length (copy_cells c)) = uint ux * uint uy * uint uz"
    by (simp add: u mult.commute mult.left_commute)
  have "sint ux * sint uy * sint uz = int (length (copy_cells c))"
    unfolding extents_product(1) [OF sane ext] n by (simp add: mult.assoc)
  then show "length (copy_cells c) \<le> 8994 \<Longrightarrow> sint ux * sint uy * sint uz + 6 < 2 ^ 31" by simp
qed

lemma pasted_chunk:
  assumes "copy_sane c" "chunk_extents c = (ux, uy, uz)"
  shows "map2 paste_request (box_at px py pz ux uy uz) (map f (copy_cells c))
    = map (\<lambda>e. paste_request (moved c px py pz e) (f e)) (copy_cells c)"
proof -
  have "box_at px py pz ux uy uz = map (moved c px py pz) (copy_cells c)"
    unfolding copy_cells_def moved_def cells_shift [symmetric] box_at_def
    by (simp add: chunk_volume(1-3) [OF assms] nx_def ny_def nz_def algebra_simps)
  then show ?thesis by (simp add: zip_map_map zip_same_conv_map comp_def case_prod_beta)
qed

text \<open>The chunk of a copied box, pasted in whatever state the threads are by then.\<close>

lemma paste_copied:
  assumes "open_net u" and "ps_start (paste u)" and "\<not> ps_halt (paste u)"
    and "copy_sane c" and "chunk_extents c = (ux, uy, uz)" and "length (copy_cells c) \<le> 8994"
    and "files u (cstr (ps_chunkName (paste u))) = Some (chunk_file ux uy uz (map f (copy_cells c)))"
    and "fits (ps_x (paste u)) ux" and "fits (ps_y (paste u)) uy" and "fits (ps_z (paste u)) uz"
  shows "\<exists>m t. iterate builder_step m (PollPaste, u) = (PollCopy, t)
    \<and> sent t tunnelSock = sent u tunnelSock
        @ concat (map (\<lambda>e. paste_request (moved c (ps_x (paste u)) (ps_y (paste u)) (ps_z (paste u)) e) (f e))
            (copy_cells c))"
proof -
  have len: "int (length (map f (copy_cells c))) = uint ux * uint uy * uint uz"
    "length (map f (copy_cells c)) \<le> 8994"
    using chunk_volume(4) [OF assms(4,5)] assms(6) by simp_all
  from paste_run [OF assms(1-3,7) len assms(8-10)] show ?thesis
    by (simp add: pasted_chunk [OF assms(4,5)]) blast
qed

text \<open>
  C4: What is copied is what is pasted: after a box of at most 8994 cells was copied, pasting
  the file at any point where it fits asks the game server, for each cell of the box that is
  not air, for the same block at the same place relative to the corner.
\<close>

theorem copy_then_paste:
  assumes "open_net s" and "c_start (copy s)" and "copy_small (copy s)"
    and "copy_in_order (copy s) = c" and "chunk_extents c = (ux, uy, uz)"
    and "length (copy_cells c) \<le> 8994"
    and "list_all (\<lambda>e. cell_there s e \<noteq> None) (copy_cells c)"
    and "creatable s (cstr (c_chunkName (copy s)))" and "\<not> ps_halt (paste s)"
    and "fits px ux" and "fits py uy" and "fits pz uz"
  shows "\<exists>n s' m s''. iterate builder_step n (PollCopy, s) = (PollCuboid, s')
    \<and> iterate builder_step m (PollPaste, arm_paste px py pz (c_chunkName (copy s)) s') = (PollCopy, s'')
    \<and> sent s'' tunnelSock = sent s tunnelSock
        @ concat (map (\<lambda>e. paste_request (moved c px py pz e) (the (cell_there s e))) (copy_cells c))"
proof -
  have sane: "copy_sane c" using copy_sane_ordered [OF assms(3)] assms(4) by simp
  from copy_ends [OF assms(1-5) chunk_volume(5) [OF sane assms(5,6)] assms(7) refl assms(8)]
  obtain n s' where n: "iterate builder_step n (PollCopy, s) = (PollCuboid, s')"
    and f: "files s' = (files s)(cstr (c_chunkName (copy s))
        \<mapsto> chunk_file ux uy uz (map (\<lambda>e. the (cell_there s e)) (copy_cells c)))"
    and s': "sent s' tunnelSock = sent s tunnelSock" "paste s' = paste s" "open_net s'"
    by auto
  let ?u = "arm_paste px py pz (c_chunkName (copy s)) s'"
  have "open_net ?u" "ps_start (paste ?u)" "\<not> ps_halt (paste ?u)"
    "files ?u (cstr (ps_chunkName (paste ?u)))
      = Some (chunk_file ux uy uz (map (\<lambda>e. the (cell_there s e)) (copy_cells c)))"
    using s' f assms(9) by (simp_all add: arm_paste_def open_net_def)
  from paste_copied [OF this(1-3) sane assms(5,6) this(4)] assms(10-12) n s'(1)
  show ?thesis by (auto simp: arm_paste_def)
qed

theorem copy_then_paste_witness:
  "\<exists>n s' m s''. iterate builder_step n (PollCopy, copy_world) = (PollCuboid, s')
    \<and> iterate builder_step m (PollPaste, arm_paste 4 5 6 (c_chunkName (copy copy_world)) s') = (PollCopy, s'')
    \<and> sent s'' tunnelSock = [8, 255, 0, 160, 0, 160, 0, 192, 0, 0, 5, 0, 5, 0, 5, 0, 6, 1, 9]"
proof -
  have c: "c_x1 copy_box = 0" "c_y1 copy_box = 0" "c_z1 copy_box = 0"
    by (simp_all add: copy_box_def zero_copy_def)
  have "fits 4 2" "fits 5 1" "fits 6 1" by (simp_all add: fits_def)
  from copy_then_paste [OF copy_world_facts(1-5) _ _ copy_world_facts(9,11) this] c
  obtain n s' m s'' where r: "iterate builder_step n (PollCopy, copy_world) = (PollCuboid, s')"
    "iterate builder_step m (PollPaste, arm_paste 4 5 6 (c_chunkName (copy copy_world)) s') = (PollCopy, s'')"
    "sent s'' tunnelSock = paste_request (4, 5, 6) 0 @ paste_request (5, 5, 6) 9"
    by (auto simp: copy_world_facts(6-8,10) moved_def)
  then have "sent s'' tunnelSock = [8, 255, 0, 160, 0, 160, 0, 192, 0, 0, 5, 0, 5, 0, 5, 0, 6, 1, 9]"
    by (simp add: paste_request_def move_packet_def place_packet_def posbytes_def be16_def)
  with r show ?thesis by blast
qed

end
