(* ===== verification/Startup.thy ===== *)
theory Startup
  imports Commands
begin

text \<open>
  \<open>src/main.c\<close>: what \<open>main\<close> does before it starts the threads. It reads the configuration,
  the gimp and ignore files and the connection info, asks the user or the web site for what is
  missing, and writes \<open>direct.txt\<close>. The web (libcurl), the JSON tokeniser (jsmn) and the
  values libconfig finds are arguments; files, typed lines and keys are part of the state.
\<close>

section \<open>State and files\<close>

record launch = net +
  disk :: "byte list \<Rightarrow> byte list option"
  writable :: "byte list \<Rightarrow> bool"
  typed :: "byte list list" \<comment> \<open>the lines \<open>getstr\<close> is going to return\<close>
  pressed :: "byte list" \<comment> \<open>the keys \<open>getch\<close> is going to return\<close>
  httpbuffer :: "byte list"
  requests :: nat \<comment> \<open>how many the program has made\<close>
  g_ipa :: "byte list"
  g_port :: int
  g_mppass :: "byte list"
  g_password :: "byte list"
  g_username :: "byte list"
  g_hash :: "byte list"
  g_ignores :: "byte list list"
  g_ignoreN :: int
  g_gimp :: "byte list list"
  g_gimpN :: int
  g_haxType :: "byte list option"
  gimpF :: "byte list option"
  g_hax :: int
  g_useCPE :: int
  loginMethod :: int
  dircon :: bool

definition stop :: "status \<Rightarrow> launch \<Rightarrow> launch" where
  "stop st s = s\<lparr>status := st\<rparr>"

definition next_if :: "(launch \<Rightarrow> launch) \<Rightarrow> launch \<Rightarrow> launch" where
  \<comment> \<open>what follows a call that may end the process\<close>
  "next_if f s = (if status s = Running then f s else s)"

text \<open>
  Files opened with \<open>"r"\<close> and \<open>"w"\<close> are text files of Windows: a carriage return before a
  line feed is dropped, control-Z ends the file, and a line feed is written as the pair.
\<close>

fun text_in :: "byte list \<Rightarrow> byte list" where
  "text_in [] = []"
| "text_in [c] = (if c = 26 then [] else [c])"
| "text_in (c # d # r) =
     (if c = 26 then [] else if c = 13 \<and> d = 10 then text_in (d # r) else c # text_in (d # r))"

definition text_out :: "byte list \<Rightarrow> byte list" where
  "text_out bs = concat (map (\<lambda>c. if c = 10 then [13, 10] else [c]) bs)"

definition isspace :: "byte \<Rightarrow> bool" where
  "isspace c \<longleftrightarrow> c = 32 \<or> (9 \<le> c \<and> c \<le> 13)"

text \<open>\<open>fscanf(f, "%s\n", _)\<close>: the word, if there is one, and the rest of the file.\<close>

definition scan_word :: "byte list \<Rightarrow> byte list option \<times> byte list" where
  "scan_word f =
     (let t = dropWhile isspace f
      in if t = [] then (None, [])
         else (Some (takeWhile (\<lambda>c. \<not> isspace c) t),
               dropWhile isspace (dropWhile (\<lambda>c. \<not> isspace c) t)))"

text \<open>\<open>fscanf(f, "%d\n", _)\<close>.\<close>

definition scan_int :: "byte list \<Rightarrow> int option \<times> byte list" where
  "scan_int f =
     (let t = dropWhile isspace f;
          (neg, d) = (case t of c # r \<Rightarrow> if c = 45 then (True, r) else if c = 43 then (False, r) else (False, t)
                              | [] \<Rightarrow> (False, []));
          ds = takeWhile digit d
      in if ds = [] then (None, d)
         else (Some (sint (word_of_int (if neg then - digits_val ds else digits_val ds) :: i32)),
               dropWhile isspace (dropWhile digit d)))"

text \<open>A scanned word stored into an array of 64; nothing is stored at the end of the file.\<close>

definition store_word :: "byte list option \<Rightarrow> byte list \<Rightarrow> byte list" where
  "store_word w buf = (case w of None \<Rightarrow> buf | Some w \<Rightarrow> put_at 0 (w @ [0]) buf)"

definition word_written :: "byte list option \<Rightarrow> 'a net_scheme \<Rightarrow> 'a net_scheme" where
  "word_written w s = (case w of None \<Rightarrow> s | Some w \<Rightarrow> copied 64 (Suc (length w)) s)"

definition strlen :: "byte list \<Rightarrow> nat" where
  "strlen buf = length (cstr buf)"

section \<open>Configuration and text arrays\<close>

record config =
  cf_loginMethod :: "int option"
  cf_hax :: "int option"
  cf_haxType :: "byte list option"
  cf_gimp :: "byte list option"
  cf_CPE :: "int option"

definition keep :: "'a option \<Rightarrow> 'a \<Rightarrow> 'a" where
  \<comment> \<open>a lookup that fails is reported and leaves the variable alone\<close>
  "keep v old = (case v of Some x \<Rightarrow> x | None \<Rightarrow> old)"

definition load_config :: "config \<Rightarrow> launch \<Rightarrow> launch" where
  "load_config c s =
     s\<lparr>loginMethod := keep (cf_loginMethod c) 0, g_hax := keep (cf_hax c) (g_hax s),
       g_haxType := (case cf_haxType c of None \<Rightarrow> g_haxType s | Some t \<Rightarrow> Some t),
       gimpF := (case cf_gimp c of None \<Rightarrow> gimpF s | Some t \<Rightarrow> Some t),
       g_useCPE := keep (cf_CPE c) (g_useCPE s)\<rparr>"

definition newlines :: "byte list \<Rightarrow> nat" where
  "newlines bs = length (filter (\<lambda>c. c = 10) bs)"

text \<open>\<open>fgets\<close> into 256 bytes: at most 255, up to and with the line feed; nothing at the end.\<close>

definition fgets_line :: "byte list \<Rightarrow> byte list" where
  "fgets_line f = (let l = takeWhile (\<lambda>c. c \<noteq> 10) f
     in take 255 (if length l < length f then l @ [10] else l))"

text \<open>
  One row: the line, its NUL, and then the last character cut off by position, whatever it
  is; of an empty row that is the last byte of the row before.
\<close>

definition gimp_row :: "nat \<Rightarrow> byte list \<Rightarrow> byte list list \<Rightarrow> byte list list" where
  "gimp_row i line g =
     (let row = (if line = [] then g ! i else put_at 0 (line @ [0]) (g ! i)); n = strlen row
      in if n = 0 then (g[i := row])[i - 1 := (g ! (i - 1))[255 := 0]] else g[i := row[n - 1 := 0]])"

fun gimp_rows :: "nat list \<Rightarrow> byte list \<Rightarrow> launch \<Rightarrow> launch" where
  "gimp_rows [] f s = s"
| "gimp_rows (i # is) f s =
     (let line = fgets_line f;
          s = (if i < length (g_gimp s) then s\<lparr>g_gimp := gimp_row i line (g_gimp s)\<rparr>
               else remark (BadIndex (int i)) s)
      in gimp_rows is (drop (length line) f) s)"

definition load_gimps :: "launch \<Rightarrow> launch" where
  "load_gimps s =
     (case gimpF s of None \<Rightarrow> stop (Crashed NullFile) s
      | Some name \<Rightarrow>
          let s = copied 32 (Suc (length (cstr name))) s
          in case disk s (cstr name) of
               None \<Rightarrow> s\<lparr>g_gimpN := - 1\<rparr>
             | Some content \<Rightarrow>
                 let f = text_in content; n = Suc (newlines f)
                 in gimp_rows [1 ..< Suc n] f (s\<lparr>g_gimpN := int n\<rparr>))"

text \<open>
  The ignore list. A word is written at its row of \<open>ignores[64][64]\<close>, and on into the next
  rows when it is too long.
\<close>

definition ignore_word :: "nat \<Rightarrow> byte list \<Rightarrow> launch \<Rightarrow> launch" where
  "ignore_word i w s =
     (let flat = concat (g_ignores s); fin = 64 * i + length w + 1;
          s = (if 64 * i + length w + 1 \<le> length flat then s else remark (Overrun (length flat) fin) s)
      in if 64 * i < length flat then
           s\<lparr>g_ignores := chop (replicate 64 64) (take (length flat) (put_at (64 * i) (w @ [0]) flat))\<rparr>
         else s)"

fun ignore_rows :: "nat list \<Rightarrow> byte list \<Rightarrow> launch \<Rightarrow> launch" where
  "ignore_rows [] f s = s"
| "ignore_rows (i # is) f s =
     (let (w, f) = scan_word f
      in ignore_rows is f (case w of None \<Rightarrow> s | Some w \<Rightarrow> ignore_word i w s))"

definition ignore_path :: "byte list" where
  "ignore_path = lit ''config/ignore.txt''"

definition load_ignores :: "launch \<Rightarrow> launch" where
  "load_ignores s =
     (case disk s ignore_path of
        None \<Rightarrow>
          let s = (if writable s ignore_path then s\<lparr>disk := (disk s)(ignore_path \<mapsto> [])\<rparr> else s)
          in s\<lparr>g_ignoreN := 0\<rparr>
      | Some content \<Rightarrow>
          let f = text_in content; n = Suc (newlines f)
          in ignore_rows [1 ..< Suc n] f (s\<lparr>g_ignoreN := int n\<rparr>))"

section \<open>Connection info\<close>

definition info_path :: "byte list" where
  "info_path = lit ''config/info.txt''"

definition direct_path :: "byte list" where
  "direct_path = lit ''config/direct.txt''"

definition load_info :: "launch \<Rightarrow> launch" where
  "load_info s =
     (case disk s info_path of None \<Rightarrow> s\<lparr>loginMethod := 1\<rparr>
      | Some content \<Rightarrow>
          let (w, f) = scan_word (text_in content);
              s = word_written w (s\<lparr>g_username := store_word w (g_username s)\<rparr>)
          in if strlen (g_username s) < 1 then s\<lparr>loginMethod := 1\<rparr>
             else
               let (w, f) = scan_word f;
                   s = word_written w (s\<lparr>g_password := store_word w (g_password s)\<rparr>)
               in if strlen (g_password s) < 1 then s\<lparr>loginMethod := 1\<rparr>
                  else
                    let (w, f) = scan_word f;
                        s = word_written w (s\<lparr>g_hash := store_word w (g_hash s)\<rparr>)
                    in if strlen (g_hash s) < 1 then s\<lparr>loginMethod := 1\<rparr> else s)"

definition load_direct :: "launch \<Rightarrow> launch" where
  "load_direct s =
     (if loginMethod s \<noteq> 2 then s\<lparr>dircon := False\<rparr>
      else case disk s direct_path of None \<Rightarrow> stop (Crashed NullFile) s
      | Some content \<Rightarrow>
          let missing = (\<lambda>s. s\<lparr>loginMethod := 1, dircon := False\<rparr>);
              (w, f) = scan_word (text_in content);
              s = word_written w (s\<lparr>dircon := True, g_ipa := store_word w (g_ipa s)\<rparr>)
          in if strlen (g_ipa s) < 1 then missing s
             else
               let (p, f) = scan_int f; s = s\<lparr>g_port := keep p (g_port s)\<rparr>
               in if g_port s = 0 then missing s
                  else
                    let (w, f) = scan_word f;
                        s = word_written w (s\<lparr>g_username := store_word w (g_username s)\<rparr>)
                    in if strlen (g_username s) < 1 then missing s
                       else
                         let (w, f) = scan_word f;
                             s = word_written w (s\<lparr>g_mppass := store_word w (g_mppass s)\<rparr>)
                         in if strlen (g_mppass s) < 1 then missing s else s)"

definition getstr :: "launch \<Rightarrow> byte list \<times> launch" where
  \<comment> \<open>into an array of 64, without a bound\<close>
  "getstr s = (case typed s of [] \<Rightarrow> ([], s)
     | l # ls \<Rightarrow> (cstr l, copied 64 (Suc (length (cstr l))) (s\<lparr>typed := ls\<rparr>)))"

definition getch :: "launch \<Rightarrow> byte \<times> launch" where
  "getch s = (case pressed s of [] \<Rightarrow> (0, s) | k # ks \<Rightarrow> (k, s\<lparr>pressed := ks\<rparr>))"

definition strcpy :: "byte list \<Rightarrow> byte list \<Rightarrow> byte list" where
  "strcpy buf text = put_at 0 (cstr text @ [0]) buf"

text \<open>
  Save to \<open>info.txt\<close>: \<open>tinfo\<close> has room for the three texts and two bytes more, and gets two
  line feeds and a NUL.
\<close>

definition info_text :: "launch \<Rightarrow> byte list" where
  "info_text s = cstr (g_username s) @ [10] @ cstr (g_password s) @ [10] @ cstr (g_hash s)"

definition save_info :: "launch \<Rightarrow> launch" where
  "save_info s =
     (let room = strlen (g_username s) + strlen (g_password s) + strlen (g_hash s) + 2;
          s = copied room (Suc (length (info_text s))) s
      in if \<not> writable s info_path then stop (Crashed NullFile) s
         else s\<lparr>disk := (disk s)(info_path \<mapsto> info_text s)\<rparr>)"

definition prompt :: "launch \<Rightarrow> launch" where
  "prompt s =
     (if loginMethod s \<noteq> 1 then s
      else
        let (iusername, s) = getstr s; (ipassword, s) = getstr s; (ihash, s) = getstr s;
            changed = (1 < length iusername \<or> 1 < length ipassword \<or> 1 < length ihash);
            s = (if 1 < length iusername then s\<lparr>g_username := strcpy (g_username s) iusername\<rparr> else s);
            s = (if 1 < length ipassword then s\<lparr>g_password := strcpy (g_password s) ipassword\<rparr> else s);
            s = (if 1 < length ihash then s\<lparr>g_hash := strcpy (g_hash s) ihash\<rparr> else s)
        in if changed then
             let (choice, s) = getch s in if tolower choice = 121 then save_info s else s
           else s)"

section \<open>The web site\<close>

text \<open>
  A token of jsmn is a range of the text. The tokeniser is an argument: what it stores in
  the array of 256, or \<open>None\<close> for an error code. A token it did not store is indeterminate.
\<close>

record jsmntok =
  t_start :: int
  t_end :: int

type_synonym jsmn = "byte list \<Rightarrow> jsmntok list option"

text \<open>
  The web: the pieces the library hands to the callback for the n-th request, as \<open>strcat\<close> reads
  them (with whatever lies behind the piece up to a NUL), or \<open>None\<close> for an error.
\<close>

type_synonym web = "nat \<Rightarrow> byte list \<Rightarrow> byte list option \<Rightarrow> byte list list option"

definition curl_write :: "byte list \<Rightarrow> launch \<Rightarrow> launch" where
  "curl_write ptr s =
     (let n = strlen (httpbuffer s);
          s = copied (length (httpbuffer s)) (Suc (n + length (cstr ptr))) s
      in s\<lparr>httpbuffer := put_at n (cstr ptr @ [0]) (httpbuffer s)\<rparr>)"

definition curl_easy_perform :: "web \<Rightarrow> byte list \<Rightarrow> byte list option \<Rightarrow> launch \<Rightarrow> launch" where
  "curl_easy_perform web url post s =
     (case web (requests s) url post of
        None \<Rightarrow> stop Exited (s\<lparr>requests := Suc (requests s)\<rparr>)
      | Some pieces \<Rightarrow> fold curl_write pieces (s\<lparr>requests := Suc (requests s)\<rparr>))"

definition tok_at :: "nat \<Rightarrow> jsmntok list \<Rightarrow> launch \<Rightarrow> jsmntok \<times> launch" where
  "tok_at i ts s =
     (if i < length ts then (ts ! i, s)
      else let (b, s) = fresh 8 s
           in (\<lparr>t_start = sint (ld32 (take 4 b)), t_end = sint (ld32 (drop 4 b))\<rparr>, s))"

text \<open>\<open>char v[length+1]; memcpy(&v, &text[start], length); v[length] = 0\<close>.\<close>

definition token_text :: "nat \<Rightarrow> jsmntok list \<Rightarrow> byte list \<Rightarrow> launch \<Rightarrow> byte list \<times> launch" where
  "token_text i ts text s =
     (let (t, s) = tok_at i ts s; n = t_end t - t_start t
      in if n < 0 then ([], stop (Crashed (BadSize n)) s)
         else if t_start t < 0 \<or> int (length text) < t_end t then ([], stop (Crashed (HeapIndex (t_end t))) s)
         else (take (nat n) (drop (nat (t_start t)) text) @ [0], s))"

definition login_url :: "byte list" where
  "login_url = lit ''http://www.classicube.net/api/login''"

definition login_fields :: "byte list \<Rightarrow> byte list \<Rightarrow> byte list \<Rightarrow> byte list" where
  "login_fields name pass token =
     lit ''username='' @ cstr name @ lit ''&password='' @ cstr pass @ lit ''&token='' @ cstr token"

definition clear_http :: "launch \<Rightarrow> launch" where
  "clear_http s = s\<lparr>httpbuffer := replicate (length (httpbuffer s)) 0\<rparr>"

definition mcLogin :: "web \<Rightarrow> jsmn \<Rightarrow> launch \<Rightarrow> launch" where
  "mcLogin web jsmn s =
     next_if (\<lambda>s. case jsmn (cstr (httpbuffer s)) of
          None \<Rightarrow> stop Exited s
        | Some ts \<Rightarrow>
            let (token, s) = token_text 6 ts (httpbuffer s) s
            in next_if (\<lambda>s.
                 let post = login_fields (g_username s) (g_password s) token;
                     s = copied 256 (Suc (length post)) s
                 in curl_easy_perform web login_url (Some post) (clear_http s)) s)
       (curl_easy_perform web login_url None s)"

definition server_url :: "byte list \<Rightarrow> byte list" where
  "server_url h = lit ''http://www.classicube.net/api/server/'' @ cstr h @ lit ''/''"

text \<open>\<open>strncpy(buf, text, strlen(text))\<close> writes no NUL.\<close>

definition overlay :: "byte list \<Rightarrow> byte list \<Rightarrow> byte list" where
  "overlay text buf = put_at 0 (cstr text) buf"

definition api_fields :: "jsmntok list \<Rightarrow> byte list \<Rightarrow> launch \<Rightarrow> launch" where
  "api_fields kens text s =
     (let (ip, s) = token_text 8 kens text s
      in next_if (\<lambda>s.
           let s = copied 64 (strlen ip) (s\<lparr>g_ipa := overlay ip (g_ipa s)\<rparr>);
               (jpass, s) = token_text 12 kens text s
           in next_if (\<lambda>s.
                let s = copied 64 (strlen jpass) (s\<lparr>g_mppass := overlay jpass (g_mppass s)\<rparr>);
                    (jport, s) = token_text 18 kens text s
                in next_if (\<lambda>s. s\<lparr>g_port := atoi jport\<rparr>) s) s) s)"

definition apiInfo :: "web \<Rightarrow> jsmn \<Rightarrow> launch \<Rightarrow> launch" where
  "apiInfo web jsmn s =
     (let s = copied 128 (Suc (length (server_url (g_hash s)))) (clear_http s)
      in next_if (\<lambda>s. case jsmn (cstr (httpbuffer s)) of
           None \<Rightarrow> stop Exited s
         | Some ts \<Rightarrow>
             if \<not> strstr (httpbuffer s) (34 # lit ''ip'' @ [34] @ lit '': '') then stop Exited s
             else
               let (info, s) = token_text 3 ts (httpbuffer s) s
               in next_if (\<lambda>s. case jsmn (cstr info) of
                      None \<Rightarrow> stop Exited s
                    | Some kens \<Rightarrow> api_fields kens info s) s)
         (curl_easy_perform web (server_url (g_hash s)) None s))"

text \<open>
  After a login the connection is saved for next time; \<open>direct\<close> has 70 bytes. The file is not
  closed: what the program wrote is on the disk when it exits.
\<close>

definition direct_text :: "launch \<Rightarrow> byte list" where
  "direct_text s = cstr (g_ipa s) @ [10] @ dec (g_port s) @ [10] @ cstr (g_username s) @ [10] @ cstr (g_mppass s)"

definition save_direct :: "launch \<Rightarrow> launch" where
  "save_direct s =
     (let s = copied 70 (Suc (length (direct_text s))) s
      in if \<not> writable s direct_path then stop (Crashed NullFile) s
         else s\<lparr>disk := (disk s)(direct_path \<mapsto> text_out (direct_text s))\<rparr>)"

definition connect_info :: "web \<Rightarrow> jsmn \<Rightarrow> launch \<Rightarrow> launch" where
  "connect_info web jsmn s =
     (if \<not> dircon s then next_if save_direct (next_if (apiInfo web jsmn) (mcLogin web jsmn s)) else s)"

definition main_start :: "config \<Rightarrow> web \<Rightarrow> jsmn \<Rightarrow> launch \<Rightarrow> launch" where
  "main_start c web jsmn s =
     next_if (connect_info web jsmn) (next_if prompt (next_if load_direct (next_if load_info
       (next_if load_ignores (load_gimps (load_config c s))))))"

section \<open>The console\<close>

text \<open>
  A line typed at the console after \<open>t\<close>: \<open>getstr\<close> reads it into 64 bytes; a command runs on
  the globals of the running tunnel. The result tells whether \<open>Unknown command\<close> is printed.
\<close>

definition console_line :: "byte list \<Rightarrow> world \<Rightarrow> bool \<times> world" where
  "console_line cInput s =
     (let s = copied 64 (Suc (strlen cInput)) s
      in case cstr cInput of [] \<Rightarrow> (False, s)
         | c # command \<Rightarrow>
             if c = 39 then let (known, s) = commandFunc command s in (status s = Running \<and> \<not> known, s)
             else (False, s))"

text \<open>The globals of the tunnel when its thread starts.\<close>

definition start_tunnel :: "launch \<Rightarrow> world \<Rightarrow> world" where
  "start_tunnel l s =
     s\<lparr>username := g_username l, mppass := g_mppass l, hax := g_hax l,
       haxType := (case g_haxType l of None \<Rightarrow> [] | Some t \<Rightarrow> t), useCPE := g_useCPE l,
       ignores := g_ignores l, ignoreN := g_ignoreN l, gimp := g_gimp l, gimpN := g_gimpN l\<rparr>"

end
