(* ===== verification/Session.thy ===== *)
theory Session
  imports Progress ChunkProps Startup
begin

text \<open>
  The threads together. A system is the builder's position, whether the server thread
  has logged in yet, and the globals; a move is one turn of one thread: a packet of the client,
  a packet of the game server, one loop test of the builder. The server thread and the builder
  run once the client has logged in, and the server thread's first move is its own login. The
  threads share the globals without locks, so a turn can also be interleaved more finely than
  this; what is shown here is about orders of whole turns.
\<close>

record system =
  bld :: builder
  logged :: bool
  wld :: world

definition boot :: "world \<Rightarrow> system" where
  "boot s = \<lparr>bld = PollPaste, logged = False, wld = s\<rparr>"

inductive move :: "system \<Rightarrow> system \<Rightarrow> bool" where
  client_turn: "move g (g\<lparr>wld := ts_iter (wld g)\<rparr>)"
| server_login: "clientThread (wld g) \<Longrightarrow> \<not> logged g \<Longrightarrow> status (wld g) = Running
    \<Longrightarrow> move g (g\<lparr>logged := True, wld := mc_connect d (wld g)\<rparr>)"
| server_turn: "logged g \<Longrightarrow> move g (g\<lparr>wld := mc_iter (wld g)\<rparr>)"
| builder_turn: "builderThread (wld g) \<Longrightarrow> builder_step (bld g, wld g) = (b, s)
    \<Longrightarrow> move g (g\<lparr>bld := b, wld := s\<rparr>)"
| console_turn: "status (wld g) = Running \<Longrightarrow> move g (g\<lparr>wld := snd (console_line cInput (wld g))\<rparr>)"

inductive_cases moveE: "move g g'"

inductive moves :: "system \<Rightarrow> system \<Rightarrow> bool" where
  none: "moves g g"
| one_more: "moves g g' \<Longrightarrow> move g' g'' \<Longrightarrow> moves g g''"

text \<open>A property of the globals that every turn keeps is kept by every run.\<close>

lemma moves_keep:
  assumes "moves g g'" and "I (wld g)"
    and ts: "\<And>s. I s \<Longrightarrow> I (ts_iter s)" and mc: "\<And>s. I s \<Longrightarrow> I (mc_iter s)"
    and login: "\<And>d s. I s \<Longrightarrow> I (mc_connect d s)"
    and build: "\<And>b s. I s \<Longrightarrow> I (snd (builder_step (b, s)))"
    and typed: "\<And>l s. I s \<Longrightarrow> I (snd (console_line l s))"
  shows "I (wld g')"
  using assms(1,2)
proof (induction rule: moves.induct)
  case (one_more g g' g'')
  then have "I (wld g')" by blast
  with one_more.hyps(2) show ?case
    by (cases rule: move.cases) (auto intro: ts mc login typed dest: build [of _ "bld g'"])
qed

section \<open>A cancelled paste\<close>

lemma paste_console: "ps_halt (paste s) \<Longrightarrow> ps_halt (paste (snd (console_line l s)))"
  using tame_commandFunc [of "copied 64 (Suc (strlen l)) s"]
  by (auto simp: console_line_def Let_def case_prod_beta tame_def kept split: list.split)

lemma paste_mc_iter: "ps_halt (paste s) \<Longrightarrow> ps_halt (paste (mc_iter s))"
  using tame.from_server.mc_iter [of s] tame_trans by (auto simp: tame_def)

lemma paste_ts_iter: "ps_halt (paste s) \<Longrightarrow> ps_halt (paste (ts_iter s))"
proof -
  assume h: "ps_halt (paste s)"
  have "tame s (ts_iter s)"
    unfolding ts_iter_def ts_disconnect_def Let_def case_prod_beta
    by (intro tame.R_intros tame_trans [OF tame.R_recvW [OF tame_refl] tame_ts_packet])
  with h show ?thesis by (simp add: tame_def)
qed

lemma paste_mc_connect: "ps_halt (paste s) \<Longrightarrow> ps_halt (paste (mc_connect d s))"
  by (simp add: mc_connect_def mc_login_def crash_def Let_def kept split: dial.split)

lemma paste_hidden [kept]: "paste (snd (hide_self s)) = paste s" "paste (unhide_self h s) = paste s"
  by (simp_all add: hide_self_def unhide_self_def)

lemma paste_cells [kept]:
  "paste (paste_cell x y z n bs s) = paste s" "paste (cuboid_cell x y z b s) = paste s"
  by (simp_all add: paste_cell_def pastebuf_at_def cuboid_cell_def Let_def case_prod_beta kept)

lemma paste_builder: "ps_halt (paste s) \<Longrightarrow> ps_halt (paste (snd (builder_step (b, s))))"
proof -
  assume h: "ps_halt (paste s)"
  have "ps_halt (paste (snd (paste_begin s)))" "ps_halt (paste (snd (copy_begin s)))"
    "ps_halt (paste (snd (cuboid_begin s)))"
    using h by (auto simp: paste_begin_def copy_begin_def cuboid_begin_def Let_def case_prod_beta kept
        split: option.split)
  moreover have "ps_halt (paste (snd (paste_step ph l s)))" "ps_halt (paste (snd (copy_step ph l s)))"
    "ps_halt (paste (snd (cuboid_step ph l s)))" for ph l
    using h by (cases ph; auto simp: copy_end_def cuboid_end_def Let_def kept split: option.split)+
  ultimately show ?thesis using h by (auto simp: kept split: builder.split)
qed

text \<open>
  C9: \<open>paste.halt\<close> is set by the command \<open>cancel\<close> and nothing clears it: however the
  threads go on, every turn the builder then makes inside a paste sends nothing, neither to
  the game server nor to the client. One cancelled action disables all later pastes.
\<close>

theorem cancelled_paste_places_nothing:
  assumes "moves g g'" and "ps_halt (paste (wld g))" and "bld g' = InPaste ph l"
  shows "sent (snd (builder_step (bld g', wld g'))) = sent (wld g') \<and> ps_halt (paste (wld g'))"
proof -
  have h: "ps_halt (paste (wld g'))"
    using assms(1,2) by (rule moves_keep)
      (simp_all add: paste_ts_iter paste_mc_iter paste_mc_connect paste_builder paste_console del: builder_step.simps)
  then have "sent (snd (paste_step ph l (wld g'))) = sent (wld g')"
    by (cases ph) (simp_all add: unhide_self_def)
  with h assms(3) show ?thesis by simp
qed

definition pasting :: locals where
  "pasting = \<lparr>l_px = 1, l_py = 1, l_pz = 1, l_vx = 1, l_vy = 1, l_vz = 1, l_hidden = False,
     l_buf = replicate 7 1, l_loop = 6\<rparr>"

definition after_cancel :: system where
  "after_cancel = \<lparr>bld = InPaste AtX pasting, logged = True,
     wld = (snd (cmd_cancel start))\<lparr>builderThread := True\<rparr>\<rparr>"

theorem cancelled_paste_places_nothing_witness:
  "\<exists>g l. moves after_cancel g \<and> bld g = InPaste AtZ l
    \<and> sent (snd (builder_step (bld g, wld g))) = sent (wld g)"
proof -
  let ?s = "wld after_cancel"
  let ?l = "pasting\<lparr>l_vz := ps_z (paste ?s)\<rparr>"
  have run: "status ?s = Running" and halt: "ps_halt (paste ?s)" and thread: "builderThread ?s"
    by (simp_all add: after_cancel_def cmd_cancel_def start_def Let_def wire_simps emit_def say_def
        tunnelMsg_open)
  then have "builder_step (bld after_cancel, ?s) = (InPaste AtZ ?l, ?s)"
    by (simp add: after_cancel_def pasting_def)
  from builder_turn [OF thread this]
  have m: "moves after_cancel (after_cancel\<lparr>bld := InPaste AtZ ?l\<rparr>)"
    using one_more [OF none] by fastforce
  from cancelled_paste_places_nothing [OF m halt] m show ?thesis
    by (intro exI [of _ "after_cancel\<lparr>bld := InPaste AtZ ?l\<rparr>"] exI [of _ ?l]) simp
qed

end
