(* ===== verification/Points.thy ===== *)
theory Points
  imports Session
begin

text \<open>
  The building commands wait for blocks: \<open>z\<close>, \<open>paste\<close> and \<open>copy\<close> set \<open>zPlace\<close> and their own
  \<open>place\<close> flag, and the next one or two blocks the player places are points. What the flags
  mean over a whole run, and what two commands that wait at once do to each other.
\<close>

section \<open>Turns that leave the flags alone\<close>

definition idle :: "world \<Rightarrow> world \<Rightarrow> bool" where
  "idle s t \<longleftrightarrow> points t = points s \<and> zPlace t = zPlace s \<and> q_place (cuboid t) = q_place (cuboid s)
     \<and> ps_place (paste t) = ps_place (paste s) \<and> c_place (copy t) = c_place (copy s)"

lemma idle_refl: "idle s s"
  by (simp add: idle_def)

lemma idle_trans: "idle s t \<Longrightarrow> idle t u \<Longrightarrow> idle s u"
  by (simp add: idle_def)

named_theorems flags \<open>steps that keep the flags\<close>

lemma idle_recv [flags]:
  "idle s (snd (snd (recvW k n s)))" "idle s (snd (rcv k c s))" "idle s (snd_call k sc s)"
  "idle s (remark e s)" "idle s (snd (fresh n s))" "idle s (upd_player i f s)"
  by (cases c; cases sc; simp add: idle_def recvW_def recv_def fresh_def snd_call.simps sendW_def
      send_def remark_def upd_player_def case_prod_beta)+

lemma idle_recvs [flags]: "idle s (snd (recvs k cs s))"
proof (induction cs arbitrary: s)
  case (Cons c cs)
  then show ?case using idle_trans [OF idle_recv(2) Cons.IH] by (simp add: recvs_def case_prod_beta)
qed (simp add: recvs_def idle_refl)

lemma idle_sends [flags]: "idle s (sends k cs s)"
proof (induction cs arbitrary: s)
  case (Cons c cs)
  then show ?case using idle_trans [OF idle_recv(3) Cons.IH] by (simp add: sends.simps)
qed (simp add: sends.simps idle_refl)

interpretation idle: preserved idle
  by unfold_locales (auto simp: idle_refl flags intro: idle_trans [OF _ idle_recv(1)]
      idle_trans [OF _ idle_sends] idle_trans [OF _ idle_recv(4)] idle_trans [OF _ idle_recv(5)]
      idle_trans [OF _ idle_recv(6)], simp_all add: idle_def)

lemma idle_more [flags]:
  "idle s (say t s)" "idle s (sayf m s)" "idle s (goto_player i s)" "idle s (goto_user s)"
  "idle s (snd (rand s))" "idle s (fold tunnelMsg ms s)" "idle s (snd (call_strEqual x y z s))"
proof -
  show "idle s (fold tunnelMsg ms s)"
    by (induction ms arbitrary: s) (auto simp: idle_refl intro: idle_trans [OF idle.R_packets(1) [OF idle_refl]])
  show "idle s (snd (rand s))" by (simp add: rand_def idle_def)
qed (simp_all add: say_def sayf_def goto_player_def goto_user_def Let_def idle.R_packets idle.R_calls
  idle_refl)

lemma idle_loops [flags]:
  "idle s (ptp_loop n vx vy p s)" "idle s (snd (find_equal a is s))"
  "idle s (snd (follow_loop a is f s))" "idle s (gimp_loop js n t s)"
proof -
  show "idle s (ptp_loop n vx vy p s)"
    by (induction n vx vy p s rule: ptp_loop.induct)
      (auto simp: Let_def idle_refl intro: idle_trans [OF idle.R_packets(5) [OF idle_refl]])
  show "idle s (snd (find_equal a is s))"
  proof (induction "is" arbitrary: s)
    case (Cons i "is")
    let ?s = "if player_array i then s else remark (BadIndex i) s"
    have "idle s (snd (call_strEqual a (p_username (players ?s i)) False ?s))"
      by (intro idle.R_calls idle.R_if idle.R_remark idle_refl)
    then show ?case using idle_trans [OF _ Cons.IH] by (simp add: Let_def case_prod_beta)
  qed (simp add: idle_refl)
  show "idle s (snd (follow_loop a is f s))"
    by (induction a "is" f s rule: follow_loop.induct)
      (auto simp: idle_refl intro: idle_trans [OF idle_trans [OF idle_recv(6) idle_more(3)]])
  show "idle s (gimp_loop js n t s)"
  proof (induction js arbitrary: s)
    case (Cons i js)
    have "idle s (sendMessage w m (copied c k (copied c k s)))" for w m c k
      by (intro idle.R_calls idle.R_packets idle_refl)
    then show ?case using idle_trans [OF _ Cons.IH] by (simp add: Let_def)
  qed (simp add: idle_refl)
qed

text \<open>The same as rewrite rules.\<close>

lemmas flag_simps =
  flags [unfolded idle_def] idle.R_packets [OF idle_refl, unfolded idle_def]
  idle.R_calls [OF idle_refl, unfolded idle_def]

section \<open>A waiting command for every intercepted block\<close>

definition waiting :: "world \<Rightarrow> bool" where
  "waiting s \<longleftrightarrow> (points s = 0 \<or> points s = 1)
     \<and> (zPlace s \<longrightarrow> q_place (cuboid s) \<or> ps_place (paste s) \<or> c_place (copy s))"

lemma waiting_idle: "idle s t \<Longrightarrow> waiting s \<Longrightarrow> waiting t"
  by (simp add: waiting_def idle_def)

lemma waiting_plain:
  assumes "waiting s"
  shows "waiting (snd (cmd_hide s))" "waiting (snd (cmd_back s))" "waiting (snd (cmd_ptp s))"
    "waiting (snd (cmd_roll s))" "waiting (snd (cmd_gimp s))" "waiting (cmd_dump s)"
    "waiting (snd (cmd_cancel s))"
  using assms
  by (simp_all add: waiting_def flag_simps Let_def case_prod_beta cmd_hide_def cmd_back_def cmd_ptp_def
      cmd_roll_def cmd_gimp_def cmd_dump_def cmd_cancel_def)

lemma waiting_args:
  assumes "waiting s"
  shows "waiting (snd (cmd_tp args s))" "waiting (snd (cmd_help args s))"
    "waiting (snd (cmd_plotmotion args s))" "waiting (snd (cmd_paint args s))"
    "waiting (snd (cmd_paste args s))" "waiting (snd (cmd_copy args s))" "waiting (snd (cmd_z args s))"
    "waiting (snd (cmd_zspeed args s))" "waiting (snd (cmd_find args s))"
    "waiting (snd (cmd_ignore args s))" "waiting (snd (cmd_follow args s))"
    "waiting (snd (cmd_spectate args s))"
  using assms
  by (simp_all add: waiting_def flag_simps Let_def case_prod_beta cmd_tp_def cmd_help_def
      cmd_plotmotion_def cmd_paint_def cmd_paste_def cmd_copy_def cmd_z_def cmd_zspeed_def cmd_find_def
      cmd_ignore_def cmd_follow_def cmd_spectate_def split: list.split option.split)

lemma waiting_commandFunc: "waiting s \<Longrightarrow> waiting (snd (commandFunc c s))"
  by (rule commandFunc_keeps [of waiting]) (auto simp: argument_commands_def waiting_plain waiting_args)

lemma waiting_points:
  "waiting s \<Longrightarrow> waiting (point_cuboid x y z b s)" "waiting s \<Longrightarrow> waiting (point_paste x y z s)"
  "waiting s \<Longrightarrow> waiting (point_copy x y z s)"
  by (auto simp: waiting_def flag_simps Let_def point_cuboid_def point_paste_def point_copy_def)

lemma idle_restore: "idle s (restore_block x y z s)"
  by (auto simp: restore_block_def Let_def split: option.split
      intro!: idle.R_packets idle.R_calls idle_refl)

lemma waiting_ts_setBlock: "waiting s \<Longrightarrow> waiting (ts_setBlock s)"
proof -
  assume "waiting s"
  then have w: "waiting (snd (recvs serverSock cs s))" for cs
    by (rule waiting_idle [OF idle_recvs])
  show ?thesis
    unfolding ts_setBlock_def Let_def case_prod_beta
    by (intro if_split [of waiting, THEN iffD2] conjI impI waiting_idle [OF idle_restore] waiting_points
        waiting_idle [OF idle_sends] w)
qed

lemma waiting_ts_rest:
  assumes "waiting s"
  shows "waiting (ts_login s)" "waiting (ts_position s)"
  using assms by (simp_all add: waiting_def flag_simps Let_def case_prod_beta ts_login_def ts_position_def)

lemma idle_gimped: "idle s (ts_gimped w s)"
  unfolding ts_gimped_def Let_def case_prod_beta
  by (intro idle.R_if idle.R_packets idle_trans [OF _ idle_loops(4)] idle.R_calls idle.R_remark idle_more(5))

lemma waiting_ts_chat: "waiting s \<Longrightarrow> waiting (ts_chat s)"
proof -
  assume "waiting s"
  define t where "t = snd (fresh 1 (snd (fresh 64 (snd (recvs serverSock [RecvW 1, RecvW 64] s)))))"
  have t: "waiting t"
    unfolding t_def by (rule waiting_idle [OF _ \<open>waiting s\<close>]) (intro idle.R_fresh idle_recvs)
  show ?thesis
    unfolding ts_chat_def Let_def case_prod_beta t_def [symmetric]
    by (intro if_split [of waiting, THEN iffD2] conjI impI waiting_idle [OF idle_gimped]
        waiting_idle [OF idle_more(1)] waiting_idle [OF idle.R_packets(6) [OF idle_refl]]
        waiting_commandFunc t)
qed

lemma waiting_ts_packet: "waiting s \<Longrightarrow> waiting (ts_packet i s)"
proof -
  assume w: "waiting s"
  have "waiting (h s)" if "map_of ts_handlers i = Some h" for h
  proof -
    have "(i, h) \<in> set ts_handlers" using that by (rule map_of_SomeD)
    then consider "h = ts_setBlock" | "h = ts_position" | "h = ts_chat" | "idle s (h s)"
      by (auto simp: ts_handlers_def idle.ts_ext idle.from_client.ts_forwarded)
    then show ?thesis
      using w by cases (auto intro: waiting_ts_setBlock waiting_ts_rest waiting_ts_chat waiting_idle)
  qed
  then show ?thesis using w by (auto simp: ts_packet_def waiting_ts_rest split: option.split)
qed

lemma waiting_ts_iter: "waiting s \<Longrightarrow> waiting (ts_iter s)"
proof -
  assume w: "waiting s"
  have r: "waiting (snd (snd (recvW serverSock 1 s)))" by (rule waiting_idle [OF idle_recv(1) w])
  then have "waiting (ts_disconnect (snd (snd (recvW serverSock 1 s))))"
    by (simp add: ts_disconnect_def waiting_def)
  then show ?thesis
    unfolding ts_iter_def Let_def case_prod_beta
    by (intro if_split [of waiting, THEN iffD2] conjI impI w waiting_ts_packet r)
qed

lemma waiting_mc_iter: "waiting s \<Longrightarrow> waiting (mc_iter s)"
  using waiting_idle [OF idle.from_server.mc_iter] idle_trans by blast

lemma idle_mc_connect: "idle s (mc_connect d s)"
  by (simp add: mc_connect_def mc_login_def crash_def Let_def flag_simps idle_def split: dial.split)

text \<open>The builder reads the points and leaves the flags to the client's thread.\<close>

lemma idle_cells [flags]:
  "idle s (paste_cell x y z n bs s)" "idle s (cuboid_cell x y z b s)"
  "idle s (snd (hide_self s))" "idle s (unhide_self h s)"
  unfolding paste_cell_def cuboid_cell_def pastebuf_at_def hide_self_def unhide_self_def Let_def
    case_prod_beta
  by (simp_all add: flag_simps idle_def)

lemma idle_builder: "idle s (snd (builder_step (b, s)))"
proof -
  note by_flags = idle_def flag_simps idle_cells [unfolded idle_def] Let_def case_prod_beta
  have "idle s (snd (paste_begin s))" "idle s (snd (copy_begin s))" "idle s (snd (cuboid_begin s))"
    by (simp_all add: by_flags paste_begin_def copy_begin_def cuboid_begin_def split: option.split)
  moreover have "idle s (snd (paste_step ph l s))" "idle s (snd (copy_step ph l s))"
    "idle s (snd (cuboid_step ph l s))" for ph l
    by (cases ph; auto simp: by_flags copy_end_def cuboid_end_def split: option.split)+
  ultimately show ?thesis by (auto simp: idle_refl flag_simps idle_def split: builder.split)
qed

lemma waiting_console: "waiting s \<Longrightarrow> waiting (snd (console_line l s))"
proof -
  assume "waiting s"
  then have "waiting (copied 64 n s)" for n by (simp add: waiting_def copied_def remark_def)
  from waiting_commandFunc [OF this] this show ?thesis
    by (simp add: console_line_def Let_def case_prod_beta split: list.split)
qed

text \<open>
  C8: Whenever the tunnel intercepts the blocks the player places instead of passing them on
  (\<open>zPlace\<close>), a building command is waiting for a point, and \<open>points\<close> is 0 or 1, so the block
  is used: in every state that any interleaving of the threads and the console reaches.
\<close>

theorem intercepted_blocks_are_awaited:
  assumes "moves (boot s) g" and "points s = 0" and "\<not> zPlace s"
  shows "points (wld g) \<in> {0, 1} \<and> (zPlace (wld g)
    \<longrightarrow> q_place (cuboid (wld g)) \<or> ps_place (paste (wld g)) \<or> c_place (copy (wld g)))"
proof -
  have "waiting (wld (boot s))" using assms(2,3) by (simp add: waiting_def boot_def)
  with assms(1) have "waiting (wld g)"
    by (rule moves_keep) (auto intro: waiting_ts_iter waiting_mc_iter waiting_idle [OF idle_mc_connect]
        waiting_idle [OF idle_builder] waiting_console simp del: builder_step.simps)
  then show ?thesis by (auto simp: waiting_def)
qed

section \<open>Two blocks make a box\<close>

definition block_packet :: "u16 \<times> u16 \<times> u16 \<Rightarrow> byte \<Rightarrow> byte \<Rightarrow> byte list" where
  "block_packet p mode b = (case p of (x, y, z) \<Rightarrow> 0x05 # posbytes x y z @ [mode, b])"

text \<open>What the player's client is shown where he put the block: three times the old block.\<close>

definition restored :: "u16 \<times> u16 \<times> u16 \<Rightarrow> byte \<Rightarrow> byte list" where
  "restored p b = (case p of (x, y, z) \<Rightarrow>
     concat (replicate 3 ([0x06] @ posbytes (ntohs x) (ntohs y) (ntohs z) @ [b])))"

lemma ts_iter_block:
  assumes "status s = Running" and "incoming serverSock s = block_packet (x, y, z) mode b @ rest"
    and "zPlace s"
  shows "ts_iter s = restore_block (ntohs x) (ntohs y) (ntohs z)
    (point_copy (ntohs x) (ntohs y) (ntohs z) (point_paste (ntohs x) (ntohs y) (ntohs z)
      (point_cuboid (ntohs x) (ntohs y) (ntohs z) b (sip serverSock 9 s))))"
proof -
  let ?cs = "[RecvW 2, RecvW 2, RecvW 2, RecvW 1, RecvW 1]"
  have r: "readable ?cs (segs (sip serverSock 1 s) serverSock)"
    by (rule readable_wrapped) (simp_all add: assms(2) block_packet_def)
  have fs: "recvs serverSock ?cs (sip serverSock 1 s)
      = ([be16 x, be16 y, be16 z, [mode], [b]], sip serverSock 9 s)"
    by (simp only: recvs_ready [OF r]) (simp add: assms(2) block_packet_def posbytes_def)
  have ld: "ld16 (be16 w) = ntohs w" for w by (metis ld16_be16 ntohs_ntohs)
  have "ts_iter s = ts_setBlock (sip serverSock 1 s)"
    using assms by (simp add: ts_iter_def recvW_enough block_packet_def ts_packet_def ts_handlers_def)
  also have "\<dots> = restore_block (ntohs x) (ntohs y) (ntohs z)
    (point_copy (ntohs x) (ntohs y) (ntohs z) (point_paste (ntohs x) (ntohs y) (ntohs z)
      (point_cuboid (ntohs x) (ntohs y) (ntohs z) b (sip serverSock 9 s))))"
    using assms(3) by (simp add: ts_setBlock_def fs ld Let_def del: One_nat_def) (simp add: sip_def)
  finally show ?thesis .
qed

lemma restore_block_open:
  assumes "accepts s serverSock = []" "under (x, y, z) s = Some v"
  shows "restore_block (ntohs x) (ntohs y) (ntohs z) s = emit serverSock (restored (x, y, z) v) s"
  using assms by (simp add: restore_block_def under_def wire_simps restored_def numeral_3_eq_3)

definition only_cuboid :: "world \<Rightarrow> bool" where
  "only_cuboid s \<longleftrightarrow> status s = Running \<and> accepts s serverSock = [] \<and> zPlace s
     \<and> q_place (cuboid s) \<and> \<not> ps_place (paste s) \<and> \<not> c_place (copy s)"

lemma first_point:
  assumes s: "only_cuboid s" "points s = 0" and v: "under (x, y, z) s = Some v"
    and inp: "incoming serverSock s = block_packet (x, y, z) mode b @ rest"
  shows "ts_iter s = emit serverSock (message 0 (tag @ lit ''z: First point.'') @ restored (x, y, z) v)
    ((sip serverSock 9 s)\<lparr>cuboid := (cuboid s)\<lparr>q_x1 := x, q_y1 := y, q_z1 := z\<rparr>, points := 1\<rparr>)"
proof -
  let ?t = "emit serverSock (message 0 (tag @ lit ''z: First point.''))
    ((sip serverSock 9 s)\<lparr>cuboid := (cuboid s)\<lparr>q_x1 := x, q_y1 := y, q_z1 := z\<rparr>, points := 1\<rparr>)"
  have "accepts ?t serverSock = []" "under (x, y, z) ?t = Some v"
    using s v under_cong [of ?t s "(x, y, z)"] by (simp_all add: only_cuboid_def emit_def sip_def)
  note r = restore_block_open [OF this]
  have "ts_iter s = restore_block (ntohs x) (ntohs y) (ntohs z) ?t"
    using s by (simp add: only_cuboid_def ts_iter_block [OF _ inp] point_cuboid_def point_paste_def
        point_copy_def sip_def emit_def say_def tunnelMsg_open)
  then show ?thesis by (simp add: r)
qed

lemma second_point:
  assumes s: "only_cuboid s" "points s = 1" and v: "under (x, y, z) s = Some v"
    and inp: "incoming serverSock s = block_packet (x, y, z) mode b @ rest"
  shows "ts_iter s = emit serverSock (message 0 (tag @ lit ''z: Second point, starting cuboid!'')
      @ restored (x, y, z) v)
    ((sip serverSock 9 s)\<lparr>points := 0, cuboid := (cuboid s)\<lparr>q_x2 := x, q_y2 := y, q_z2 := z,
       q_block := (if q_getBlock (cuboid s) then b else q_block (cuboid s)), q_place := False,
       q_start := True\<rparr>, zPlace := False\<rparr>)"
proof -
  let ?t = "emit serverSock (message 0 (tag @ lit ''z: Second point, starting cuboid!''))
    ((sip serverSock 9 s)\<lparr>points := 0, cuboid := (cuboid s)\<lparr>q_x2 := x, q_y2 := y, q_z2 := z,
       q_block := (if q_getBlock (cuboid s) then b else q_block (cuboid s)), q_place := False,
       q_start := True\<rparr>, zPlace := False\<rparr>)"
  have "accepts ?t serverSock = []" "under (x, y, z) ?t = Some v"
    using s v under_cong [of ?t s "(x, y, z)"] by (simp_all add: only_cuboid_def emit_def sip_def)
  note r = restore_block_open [OF this]
  have "point_cuboid (ntohs x) (ntohs y) (ntohs z) b (sip serverSock 9 s) = ?t"
    using s by (cases "q_getBlock (cuboid s)")
      (simp_all add: only_cuboid_def point_cuboid_def sip_def emit_def say_def tunnelMsg_open)
  moreover have "point_paste (ntohs x) (ntohs y) (ntohs z) ?t = ?t"
    "point_copy (ntohs x) (ntohs y) (ntohs z) ?t = ?t"
    using s by (simp_all add: only_cuboid_def point_paste_def point_copy_def emit_def sip_def)
  ultimately have "ts_iter s = restore_block (ntohs x) (ntohs y) (ntohs z) ?t"
    using s by (simp add: only_cuboid_def ts_iter_block [OF _ inp])
  then show ?thesis by (simp add: r)
qed

end
