(* ===== verification/ServerRelay.thy ===== *)
theory ServerRelay
  imports FromServer
begin

text \<open>
  What the thread of \<open>FromServer\<close> passes on. In a plain session (no \<open>hax\<close>, no client that
  announced \<open>FastMap\<close> or \<open>ExtEntityPositions\<close>, nobody followed or plotted) a packet of the
  table \<open>mc_layout\<close> reaches the game client byte for byte, one of the table \<open>swallowed\<close> is
  dropped, and the thread's loop is an instance of \<open>segmented_relay\<close>.
\<close>

section \<open>What the helpers leave alone\<close>

lemma frame_remark [frame_simps]:
  "segs (remark e s) = segs s" "sent (remark e s) = sent s" "accepts (remark e s) = accepts s"
  "status (remark e s) = status s" "ending (remark e s) = ending s"
  by (simp_all add: remark_def)

lemma frame_copied [frame_simps]:
  "segs (copied c n s) = segs s" "sent (copied c n s) = sent s"
  "accepts (copied c n s) = accepts s" "status (copied c n s) = status s"
  "ending (copied c n s) = ending s"
  by (simp_all add: copied_def frame_remark)

lemma frame_fresh [frame_simps]:
  "fst (fresh m s) = map (indet s) [0 ..< m]"
  "segs (snd (fresh m s)) = segs s" "sent (snd (fresh m s)) = sent s"
  "accepts (snd (fresh m s)) = accepts s" "status (snd (fresh m s)) = status s"
  "ending (snd (fresh m s)) = ending s"
  by (simp_all add: fresh_def)

lemma frame_upd_player [frame_simps]:
  "segs (upd_player i f s) = segs s" "sent (upd_player i f s) = sent s"
  "accepts (upd_player i f s) = accepts s" "status (upd_player i f s) = status s"
  "ending (upd_player i f s) = ending s"
  by (simp_all add: upd_player_def Let_def frame_remark)

lemma frame_emit [frame_simps]:
  "segs (emit k bs s) = segs s" "status (emit k bs s) = status s" "ending (emit k bs s) = ending s"
  "sent (emit k bs s) = (sent s)(k := sent s k @ bs)"
  by (simp_all add: emit_def)

lemma frame_sip [frame_simps]:
  "sent (sip k n s) = sent s" "accepts (sip k n s) = accepts s" "status (sip k n s) = status s"
  "ending (sip k n s) = ending s"
  by (simp_all add: sip_def)

lemma frame_settings [frame_simps]:
  "hax (sip k n s) = hax s" "hax (emit k bs s) = hax s" "hax (remark e s) = hax s"
  "hax (copied c n s) = hax s"
  "cpeClient (sip k n s) = cpeClient s" "cpeServer (sip k n s) = cpeServer s"
  by (simp_all add: sip_def emit_def remark_def copied_def)

lemma frame_ignore_loop [frame_simps]:
  "segs (ignore_loop i is s) = segs s" "sent (ignore_loop i is s) = sent s"
  "accepts (ignore_loop i is s) = accepts s" "status (ignore_loop i is s) = status s"
  "ending (ignore_loop i is s) = ending s"
  by (induction i "is" s rule: ignore_loop.induct)
    (simp_all add: row_def call_strEqual_def Let_def case_prod_beta frame_simps)

lemma frame_check_ignores [frame_simps]:
  "segs (check_ignores i s) = segs s" "sent (check_ignores i s) = sent s"
  "accepts (check_ignores i s) = accepts s" "status (check_ignores i s) = status s"
  "ending (check_ignores i s) = ending s"
  by (simp_all add: check_ignores_def frame_simps)

section \<open>A plain session\<close>

text \<open>
  \<open>w\<close> fixes the level: packets of the session do not replace it. With \<open>one\<close> everything
  still to come is in a single segment.
\<close>

definition session :: "bool \<Rightarrow> world \<Rightarrow> world \<Rightarrow> bool" where
  "session one w s \<longleftrightarrow> status s = Running \<and> accepts s serverSock = [] \<and> hax s \<noteq> 1
     \<and> \<not> fastMap (cpeServer s) \<and> \<not> extEntityPos (cpeServer s)
     \<and> (\<forall>i. player_array i \<longrightarrow> p_mode (players s i) \<noteq> 1 \<and> p_mode (players s i) \<noteq> 2)
     \<and> (one \<longrightarrow> length (segs s tunnelSock) \<le> 1)
     \<and> lvlx s = lvlx w \<and> lvlz s = lvlz w \<and> length (lmap s) = length (lmap w)"

lemma sessionD:
  assumes "session one w s"
  shows "accepts s serverSock = []" "status s = Running" "hax s \<noteq> 1"
    "\<not> fastMap (cpeServer s)" "\<not> extEntityPos (cpeServer s)"
  using assms by (simp_all add: session_def)

lemma session_sip [simp]: "session one w s \<Longrightarrow> session one w (sip tunnelSock n s)"
  using length_skip [of n "segs s tunnelSock"] by (auto simp: session_def sip_def)

lemma session_emit [simp]: "session one w (emit k bs s) = session one w s"
  by (simp add: session_def emit_def)

lemma session_remark [simp]: "session one w (remark e s) = session one w s"
  by (simp add: session_def remark_def)

lemma session_copied [simp]: "session one w (copied c n s) = session one w s"
  by (simp add: copied_def)

lemma session_fresh [simp]: "session one w (snd (fresh m s)) = session one w s"
  by (simp add: session_def fresh_def)

lemma session_upd_player:
  "(\<And>p. p_mode (f p) = p_mode p \<or> p_mode (f p) = 0) \<Longrightarrow> session one w s
   \<Longrightarrow> session one w (upd_player i f s)"
proof -
  assume f: "\<And>p. p_mode (f p) = p_mode p \<or> p_mode (f p) = 0" and s: "session one w s"
  have "session one w (s\<lparr>players := (players s)(i := f (players s i))\<rparr>)"
    using s f [of "players s i"] by (auto simp: session_def)
  moreover have "upd_player i f s = s\<lparr>players := (players s)(i := f (players s i))\<rparr>
      \<or> upd_player i f s = remark (BadIndex i) (s\<lparr>players := (players s)(i := f (players s i))\<rparr>)"
    by (simp add: upd_player_def Let_def remark_def)
  ultimately show ?thesis by fastforce
qed

lemma session_ignore_loop: "session one w s \<Longrightarrow> session one w (ignore_loop i is s)"
proof (induction i "is" s rule: ignore_loop.induct)
  case (2 pid i "is" s)
  then show ?case
    by (simp add: row_def call_strEqual_def Let_def case_prod_beta session_upd_player)
qed simp

lemma session_check_ignores [simp]: "session one w s \<Longrightarrow> session one w (check_ignores i s)"
  by (simp add: check_ignores_def session_ignore_loop)

lemma trail_off:
  "p_mode (players s i) \<noteq> 1 \<Longrightarrow> p_mode (players s i) \<noteq> 2 \<Longrightarrow> trail i s = s"
  by (simp add: trail_def Let_def)

lemma session_mode:
  assumes "session one w s" "player_array i"
  shows "p_mode (players s i) \<noteq> 1" "p_mode (players s i) \<noteq> 2"
  using assms by (simp_all add: session_def)

lemma players_frames [simp]:
  "players (emit k bs s) = players s" "players (sip k n s) = players s"
  "players (upd_player i f s) = (players s)(i := f (players s i))"
  by (simp_all add: emit_def sip_def upd_player_def Let_def remark_def)

section \<open>Handlers that forward\<close>

text \<open>The contract of a handler that relays: \<open>ok\<close> is what it asks of the packet's body.\<close>

definition forwards :: "byte \<Rightarrow> rcall list \<Rightarrow> (world \<Rightarrow> byte list \<Rightarrow> bool) \<Rightarrow> (world \<Rightarrow> world) \<Rightarrow> bool" where
  "forwards i cs ok h \<longleftrightarrow> (\<forall>one w s. session one w s \<longrightarrow> readable cs (segs s tunnelSock) \<longrightarrow>
     ok w (take (sum_list (map rwidth cs)) (incoming tunnelSock s)) \<longrightarrow>
     session one w (h s) \<and> segs (h s) tunnelSock = skip (sum_list (map rwidth cs)) (segs s tunnelSock)
     \<and> sent (h s) serverSock
         = sent s serverSock @ i # take (sum_list (map rwidth cs)) (incoming tunnelSock s))"

abbreviation anything :: "world \<Rightarrow> byte list \<Rightarrow> bool" where
  "anything \<equiv> \<lambda>w body. True"

lemma payload_calls [simp]: "map (payload \<circ> SendW) xs = xs" "map (payload \<circ> Send) xs = xs"
  by (simp_all add: map_idI)

lemma take_glue [simp]:
  "c = a \<Longrightarrow> take a xs @ take b (drop c xs) = take (a + b) xs"
  "c = a \<Longrightarrow> take a xs @ take b (drop c xs) @ ys = take (a + b) xs @ ys"
  by (simp_all add: take_add)

lemmas forward_simps = forwards_def wire_simps frame_simps sessionD session_upd_player trail_off session_mode

lemma forward_pure:
  "forwards 0x01 [] anything mc_ping"
  "forwards 0x02 [] anything mc_levelInit"
  "forwards 0x0d [RecvW 1, RecvW 64] anything mc_chat"
  "forwards 0x0f [RecvW 1] anything mc_usertype"
  "forwards 0x12 [RecvW 2] anything mc_clickDistance"
  "forwards 0x13 [Recv 1] anything mc_customBlocks"
  by (simp_all add: forward_simps mc_ping_def mc_levelInit_def mc_chat_def mc_usertype_def
      mc_clickDistance_def mc_customBlocks_def del: readable.simps One_nat_def)

lemma forward_names:
  "forwards 0x16 [RecvW 2, RecvW 64, RecvW 64, RecvW 64, RecvW 1] anything mc_extAddPlayerName"
  "forwards 0x18 [RecvW 2] anything mc_extRemovePlayerName"
  "forwards 0x15 [RecvW 64, RecvW 64, Recv 4, Recv 1] anything mc_textHotKey"
  "forwards 0x1D [Recv 1, RecvW 64] anything mc_changeModel"
  by (simp_all add: forward_simps mc_extAddPlayerName_def mc_extRemovePlayerName_def
      mc_textHotKey_def mc_changeModel_def del: readable.simps One_nat_def)

lemma forward_env:
  "forwards 0x19 [Recv 1, Recv 2, Recv 2, Recv 2] anything mc_envSetColor"
  "forwards 0x1A [Recv 1, Recv 64, Recv 2, Recv 2, Recv 2, Recv 2, Recv 2, Recv 2, Recv 2,
     Recv 2, Recv 2, Recv 2] anything mc_makeSelection"
  "forwards 0x1B [Recv 1] anything mc_removeSelection"
  "forwards 30 [RecvW 64, RecvW 1, RecvW 1, RecvW 2, RecvW 2, RecvW 2] anything mc_envMapAppearance"
  "forwards 0x1F [RecvW 1] anything mc_envSetWeatherType"
  "forwards 40 [RecvW 64] anything mc_envUrl"
  "forwards 41 [RecvW 1, RecvW 4] anything mc_envProperty"
  by (simp_all add: forward_simps mc_envSetColor_def mc_makeSelection_def mc_removeSelection_def
      mc_envMapAppearance_def mc_envSetWeatherType_def mc_envUrl_def mc_envProperty_def
      del: readable.simps One_nat_def)

lemma forward_blocks:
  "forwards 35 [RecvW 1, RecvW 64, RecvW 1, RecvW 1, RecvW 1, RecvW 1, RecvW 1, RecvW 1, RecvW 1,
     RecvW 1, RecvW 1, RecvW 1, RecvW 1, RecvW 1, RecvW 1, RecvW 1] anything mc_defineBlock"
  "forwards 36 [RecvW 1] anything mc_removeBlock"
  "forwards 37 [RecvW 1, RecvW 64, RecvW 1, RecvW 1, RecvW 1, RecvW 1, RecvW 1, RecvW 1, RecvW 1,
     RecvW 1, RecvW 1, RecvW 1, RecvW 1, RecvW 1, RecvW 1, RecvW 1, RecvW 1, RecvW 1, RecvW 1,
     RecvW 1, RecvW 1, RecvW 1, RecvW 1, RecvW 1] anything mc_defineBlockExt"
  "forwards 38 [RecvW 1, RecvW 1024, RecvW 256] anything mc_bulkBlocks"
  "forwards 44 [RecvW 1, RecvW 1] anything mc_inventoryOrder"
  by (simp_all add: forward_simps mc_defineBlock_def mc_removeBlock_def mc_defineBlockExt_def
      mc_bulkBlocks_def mc_inventoryOrder_def del: readable.simps One_nat_def)

lemma forward_misc:
  "forwards 34 [Recv 1, Recv 1, Recv 2, Recv 2, Recv 1, Recv 2, Recv 2, Recv 2, Recv 1]
     anything mc_playerClicked"
  "forwards 39 [Recv 1, Recv 1, Recv 1, Recv 1, Recv 1] anything mc_textColor"
  "forwards 43 [RecvW 1, RecvW 2] anything mc_twoWayPing"
  "forwards 0x1C [RecvW 1, RecvW 1, RecvW 1] anything mc_setBlockPermission"
  "forwards 0x20 [RecvW 1, RecvW 1, RecvW 1, RecvW 1, RecvW 1, RecvW 2] anything mc_hackControl"
  by (simp_all add: forward_simps mc_playerClicked_def mc_textColor_def mc_twoWayPing_def
      mc_setBlockPermission_def mc_hackControl_def Let_def del: readable.simps One_nat_def)

lemma forward_players:
  "forwards 0x07 [RecvW 1, RecvW 64, RecvW 2, RecvW 2, RecvW 2, RecvW 1, RecvW 1] anything mc_spawn"
  "forwards 0x08 [RecvW 1, RecvW 2, RecvW 2, RecvW 2, RecvW 1, RecvW 1] anything mc_position"
  "forwards 0x09 [RecvW 1, RecvW 1, RecvW 1, RecvW 1, RecvW 1, RecvW 1] anything mc_moveLook"
  "forwards 0x0a [RecvW 1, RecvW 1, RecvW 1, RecvW 1] anything mc_move"
  "forwards 0x0b [RecvW 1, RecvW 1, RecvW 1] anything mc_look"
  "forwards 0x0c [RecvW 1] anything mc_despawn"
  by (simp_all add: forward_simps mc_spawn_def mc_position_def mc_moveLook_def mc_move_def
      mc_look_def mc_despawn_def case_prod_beta Let_def del: readable.simps One_nat_def)

lemma session_add_entity [simp]: "session one w s \<Longrightarrow> session one w (add_entity e n a b s)"
  by (simp add: add_entity_def Let_def case_prod_beta session_upd_player)

lemma frame_add_entity [frame_simps]:
  "segs (add_entity e n a b s) = segs s" "sent (add_entity e n a b s) = sent s"
  "accepts (add_entity e n a b s) = accepts s" "status (add_entity e n a b s) = status s"
  "ending (add_entity e n a b s) = ending s"
  by (simp_all add: add_entity_def Let_def case_prod_beta frame_simps)

lemma forward_entity:
  "forwards 0x21 [RecvW 1, RecvW 64, RecvW 64, RecvW 2, RecvW 2, RecvW 2, RecvW 1, RecvW 1]
     anything mc_extAddEntity2"
  by (simp add: forward_simps mc_extAddEntity2_def frame_add_entity del: readable.simps One_nat_def)

lemma readable_length: "readable cs ss \<Longrightarrow> sum_list (map rwidth cs) \<le> length (concat ss)"
proof (induction cs arbitrary: ss)
  case (Cons c cs)
  then have "sum_list (map rwidth cs) \<le> length (concat (skip (rwidth c) ss))"
    using readable_skip by blast
  with Cons.prems show ?case by (cases c) auto
qed simp

lemma forward_extInfo: "forwards 0x10 [RecvW 64, RecvW 2] anything mc_extInfo"
  unfolding forwards_def
proof (intro allI impI)
  fix one :: bool and w s :: world
  assume s: "session one w s" and r: "readable [RecvW 64, RecvW 2] (segs s tunnelSock)"
  have len: "length (take 2 (drop 64 (incoming tunnelSock s))) = 2"
    using readable_length [OF r] by simp
  from s r show "session one w (mc_extInfo s)
      \<and> segs (mc_extInfo s) tunnelSock = skip (sum_list (map rwidth [RecvW 64, RecvW 2])) (segs s tunnelSock)
      \<and> sent (mc_extInfo s) serverSock = sent s serverSock
          @ 0x10 # take (sum_list (map rwidth [RecvW 64, RecvW 2])) (incoming tunnelSock s)"
    by (simp add: forward_simps mc_extInfo_def st16_ld16 [OF len]
        del: readable.simps One_nat_def st16_htons_be)
qed

lemma session_cpeClient [simp]: "session one w (s\<lparr>cpeClient := c\<rparr>) = session one w s"
  by (simp add: session_def)

lemma forward_extEntry: "forwards 0x11 [RecvW 64, RecvW 4] anything mc_extEntry"
  by (simp add: forward_simps mc_extEntry_def del: readable.simps One_nat_def)

text \<open>The three that ask something of their body.\<close>

definition motd_ok :: "world \<Rightarrow> byte list \<Rightarrow> bool" where
  "motd_ok w body \<longleftrightarrow> body ! 0 = 7 \<and> 0 \<notin> set (take 64 (drop 1 body)) \<and> 0 \<notin> set (take 64 (drop 65 body))"

lemma strncpy_full: "length xs = n \<Longrightarrow> 0 \<notin> set xs \<Longrightarrow> strncpy n xs = xs"
  by (simp add: strncpy_def cstr_no_nul)

lemma session_motd [simp]:
  "session one w (s\<lparr>motd := m, servername := n, gotMotd := g\<rparr>) = session one w s"
  by (simp add: session_def)

lemma forward_motd: "forwards 0x00 [RecvW 1, RecvW 64, RecvW 64, Recv 1] motd_ok mc_motd"
  unfolding forwards_def
proof (intro allI impI)
  fix one :: bool and w s :: world
  let ?cs = "[RecvW 1, RecvW 64, RecvW 64, Recv 1]"
  let ?in = "incoming tunnelSock s"
  assume s: "session one w s" and r: "readable ?cs (segs s tunnelSock)"
    and ok: "motd_ok w (take (sum_list (map rwidth ?cs)) ?in)"
  have len: "130 \<le> length ?in" using readable_length [OF r] by simp
  then have cp: "strncpy 64 (take 64 (drop 1 ?in)) = take 64 (drop 1 ?in)"
      "strncpy 64 (take 64 (drop 65 ?in)) = take 64 (drop 65 ?in)"
    using ok by (auto simp: motd_ok_def drop_take min_def intro!: strncpy_full)
  have seven: "take 1 ?in = [7]" using ok len by (cases ?in) (auto simp: motd_ok_def)
  have "7 # take 64 (drop 1 ?in) @ take 64 (drop 65 ?in) @ take 1 (drop 129 ?in)
      = take 1 ?in @ take 64 (drop 1 ?in) @ take 64 (drop 65 ?in) @ take 1 (drop 129 ?in)"
    by (simp only: seven append_Cons append_Nil)
  also have "\<dots> = take 130 ?in" by (simp del: One_nat_def)
  finally have all: "7 # take 64 (drop 1 ?in) @ take 64 (drop 65 ?in) @ take 1 (drop 129 ?in)
      = take 130 ?in" .
  from s r show "session one w (mc_motd s)
      \<and> segs (mc_motd s) tunnelSock = skip (sum_list (map rwidth ?cs)) (segs s tunnelSock)
      \<and> sent (mc_motd s) serverSock = sent s serverSock @ 0x00 # take (sum_list (map rwidth ?cs)) ?in"
    by (simp add: forward_simps mc_motd_def Let_def del: readable.simps One_nat_def take_glue)
      (simp add: cp all frame_simps del: One_nat_def take_glue)
qed

definition block_ok :: "world \<Rightarrow> byte list \<Rightarrow> bool" where
  "block_ok w body \<longleftrightarrow>
     (let off = calculateOffset (ntohs (ld16 (take 2 body))) (ntohs (ld16 (take 2 (drop 2 body))))
                  (ntohs (ld16 (take 2 (drop 4 body)))) w
      in 0 \<le> off \<and> off < int (length (lmap w)))"

lemma session_offset:
  assumes "session one w s"
  shows "calculateOffset x y z s = calculateOffset x y z w" "length (lmap s) = length (lmap w)"
  using assms by (simp_all add: session_def calculateOffset_def)

lemma offset_frames [simp]:
  "calculateOffset x y z (emit k bs s) = calculateOffset x y z s"
  "calculateOffset x y z (sip k n s) = calculateOffset x y z s"
  by (simp_all add: calculateOffset_def emit_def sip_def)

lemma session_map_write:
  assumes "session one w s" "0 \<le> off" "off < int (length (lmap w))"
  shows "session one w (map_write off b s)" "segs (map_write off b s) = segs s"
    "sent (map_write off b s) = sent s"
  using assms by (simp_all add: session_def map_write_def)

lemma forward_setBlock:
  "forwards 0x06 [RecvW 2, RecvW 2, RecvW 2, RecvW 1] block_ok mc_setBlock"
  unfolding forwards_def
proof (intro allI impI)
  fix one :: bool and w s :: world
  let ?cs = "[RecvW 2, RecvW 2, RecvW 2, RecvW 1]"
  let ?in = "incoming tunnelSock s"
  assume s: "session one w s" and r: "readable ?cs (segs s tunnelSock)"
    and ok: "block_ok w (take (sum_list (map rwidth ?cs)) ?in)"
  let ?off = "calculateOffset (ntohs (ld16 (take 2 ?in))) (ntohs (ld16 (take 2 (drop 2 ?in))))
    (ntohs (ld16 (take 2 (drop 4 ?in)))) w"
  have off: "0 \<le> ?off" "?off < int (length (lmap w))"
    using ok by (simp_all add: block_ok_def Let_def drop_take)
  have "session one w (emit serverSock bs (sip tunnelSock n s))" for bs n using s by simp
  note stored = session_map_write [OF this off]
  from s r show "session one w (mc_setBlock s)
      \<and> segs (mc_setBlock s) tunnelSock = skip (sum_list (map rwidth ?cs)) (segs s tunnelSock)
      \<and> sent (mc_setBlock s) serverSock = sent s serverSock @ 0x06 # take (sum_list (map rwidth ?cs)) ?in"
    by (simp add: forward_simps mc_setBlock_def Let_def session_offset(1) stored
        del: readable.simps One_nat_def)
qed

definition chunk_ok :: "world \<Rightarrow> byte list \<Rightarrow> bool" where
  "chunk_ok w body \<longleftrightarrow> ntohs (ld16 (take 2 body)) \<le> 1024"

lemma forward_levelData: "forwards 0x03 [RecvW 2, RecvW 1024, RecvW 1] chunk_ok mc_levelData"
  unfolding forwards_def
proof (intro allI impI)
  fix one :: bool and w s :: world
  let ?cs = "[RecvW 2, RecvW 1024, RecvW 1]"
  let ?in = "incoming tunnelSock s"
  assume s: "session one w s" and r: "readable ?cs (segs s tunnelSock)"
    and ok: "chunk_ok w (take (sum_list (map rwidth ?cs)) ?in)"
  have len: "1027 \<le> length ?in" using readable_length [OF r] by simp
  define n where "n = unat (ntohs (ld16 (take 2 ?in)))"
  have n: "n \<le> 1024" using ok by (simp add: chunk_ok_def n_def word_le_nat_alt)
  define data where "data = take n (drop 2 ?in)"
  define pad where "pad = take (1024 - n) (drop (2 + n) ?in)"
  define pct where "pct = ?in ! 1026"
  have size: "st16 (htons (of_nat n)) = take 2 ?in"
    using len by (simp add: n_def del: st16_htons_be)
  have body: "data @ pad = take 1024 (drop 2 ?in)"
  proof -
    have "take (n + (1024 - n)) (drop 2 ?in) = data @ take (1024 - n) (drop n (drop 2 ?in))"
      by (simp only: take_add data_def)
    also have "drop n (drop 2 ?in) = drop (2 + n) ?in" by (simp add: add.commute)
    finally show ?thesis using n by (simp add: pad_def)
  qed
  have "[pct] @ drop 1027 ?in = drop 1026 ?in"
    using len Cons_nth_drop_Suc [of 1026 ?in] by (simp add: pct_def)
  then have "take 2 ?in @ (data @ pad) @ [pct] @ drop 1027 ?in
      = take 2 ?in @ take 1024 (drop 2 ?in) @ drop 1026 ?in"
    by (simp only: body)
  also have "\<dots> = ?in" by simp
  finally have all: "?in = st16 (htons (of_nat n)) @ data @ pad @ [pct] @ drop 1027 ?in"
    by (simp add: size del: st16_htons_be)
  have "length (st16 (htons (of_nat n)) @ data @ pad @ [pct]) = 1027"
    using n len by (simp add: data_def pad_def)
  moreover have "(st16 (htons (of_nat n)) @ data @ pad @ [pct]) @ drop 1027 ?in = ?in"
    by (subst (2) all) (simp only: append_assoc)
  ultimately have front: "st16 (htons (of_nat n)) @ data @ pad @ [pct] = take 1027 ?in"
    by (metis append_eq_conv_conj)
  have run: "levelData s = s\<lparr>
    segs := (segs s)(tunnelSock := skip 1027 (segs s tunnelSock)),
    sent := (sent s)(serverSock := sent s serverSock @ 3 # take 1027 ?in),
    indet := (\<lambda>i. indet s (nat (mapSize s + int n) + n - length (mapC s) + (n + i))),
    mapSize := mapSize s + int n,
    mapC := put_at (nat (mapSize s + int n) - n) data
      (take (nat (mapSize s + int n) + n) (mapC s)
       @ map (indet s) [0 ..< nat (mapSize s + int n) + n - length (mapC s)])\<rparr>"
    using n len unfolding front [symmetric]
    by (intro levelData_run [OF sessionD(1) [OF s] _ _ _ all])
      (simp_all add: data_def pad_def)
  have "one \<longrightarrow> length (skip 1027 (segs s tunnelSock)) \<le> 1"
    using s length_skip [of 1027 "segs s tunnelSock"] by (auto simp: session_def)
  with s show "session one w (mc_levelData s)
      \<and> segs (mc_levelData s) tunnelSock = skip (sum_list (map rwidth ?cs)) (segs s tunnelSock)
      \<and> sent (mc_levelData s) serverSock = sent s serverSock @ 0x03 # take (sum_list (map rwidth ?cs)) ?in"
    by (simp add: mc_levelData_def run session_def)
qed

section \<open>The loop as a transparent relay\<close>

text \<open>
  The packets that are relayed, with the calls that receive their bodies. Not in the table:
  \<open>LevelFinalize\<close> (inflates and may greet), \<open>Kick\<close> (ends the process), \<open>HoldThis\<close> and
  \<open>EntityProperty\<close> (in \<open>swallowed\<close>, below), and every number the code does not know.
\<close>

definition mc_layout :: "(byte \<times> rcall list) list" where
  "mc_layout =
     [(0x00, [RecvW 1, RecvW 64, RecvW 64, Recv 1]), (0x01, []), (0x02, []),
      (0x03, [RecvW 2, RecvW 1024, RecvW 1]),
      (0x06, [RecvW 2, RecvW 2, RecvW 2, RecvW 1]),
      (0x07, [RecvW 1, RecvW 64, RecvW 2, RecvW 2, RecvW 2, RecvW 1, RecvW 1]),
      (0x08, [RecvW 1, RecvW 2, RecvW 2, RecvW 2, RecvW 1, RecvW 1]),
      (0x09, [RecvW 1, RecvW 1, RecvW 1, RecvW 1, RecvW 1, RecvW 1]),
      (0x0a, [RecvW 1, RecvW 1, RecvW 1, RecvW 1]), (0x0b, [RecvW 1, RecvW 1, RecvW 1]),
      (0x0c, [RecvW 1]), (0x0d, [RecvW 1, RecvW 64]), (0x0f, [RecvW 1]),
      (0x10, [RecvW 64, RecvW 2]), (0x11, [RecvW 64, RecvW 4]), (0x12, [RecvW 2]), (0x13, [Recv 1]),
      (0x15, [RecvW 64, RecvW 64, Recv 4, Recv 1]),
      (0x16, [RecvW 2, RecvW 64, RecvW 64, RecvW 64, RecvW 1]),
      (0x21, [RecvW 1, RecvW 64, RecvW 64, RecvW 2, RecvW 2, RecvW 2, RecvW 1, RecvW 1]),
      (0x18, [RecvW 2]), (0x19, [Recv 1, Recv 2, Recv 2, Recv 2]),
      (0x1A, [Recv 1, Recv 64, Recv 2, Recv 2, Recv 2, Recv 2, Recv 2, Recv 2, Recv 2, Recv 2,
        Recv 2, Recv 2]),
      (0x1B, [Recv 1]), (0x1C, [RecvW 1, RecvW 1, RecvW 1]), (0x1D, [Recv 1, RecvW 64]),
      (30, [RecvW 64, RecvW 1, RecvW 1, RecvW 2, RecvW 2, RecvW 2]), (0x1F, [RecvW 1]),
      (0x20, [RecvW 1, RecvW 1, RecvW 1, RecvW 1, RecvW 1, RecvW 2]),
      (34, [Recv 1, Recv 1, Recv 2, Recv 2, Recv 1, Recv 2, Recv 2, Recv 2, Recv 1]),
      (35, [RecvW 1, RecvW 64, RecvW 1, RecvW 1, RecvW 1, RecvW 1, RecvW 1, RecvW 1, RecvW 1,
        RecvW 1, RecvW 1, RecvW 1, RecvW 1, RecvW 1, RecvW 1, RecvW 1]),
      (36, [RecvW 1]),
      (37, [RecvW 1, RecvW 64, RecvW 1, RecvW 1, RecvW 1, RecvW 1, RecvW 1, RecvW 1, RecvW 1,
        RecvW 1, RecvW 1, RecvW 1, RecvW 1, RecvW 1, RecvW 1, RecvW 1, RecvW 1, RecvW 1, RecvW 1,
        RecvW 1, RecvW 1, RecvW 1, RecvW 1, RecvW 1]),
      (39, [Recv 1, Recv 1, Recv 1, Recv 1, Recv 1]), (38, [RecvW 1, RecvW 1024, RecvW 256]),
      (40, [RecvW 64]), (41, [RecvW 1, RecvW 4]), (43, [RecvW 1, RecvW 2]),
      (44, [RecvW 1, RecvW 1])]"

definition body_ok :: "byte \<Rightarrow> world \<Rightarrow> byte list \<Rightarrow> bool" where
  "body_ok i = (if i = 0x00 then motd_ok else if i = 0x03 then chunk_ok
     else if i = 0x06 then block_ok else anything)"

lemma forwards_cong: "forwards i cs ok h \<Longrightarrow> forwards i cs ok' h" if "\<And>w b. ok' w b \<Longrightarrow> ok w b"
  using that by (simp add: forwards_def)

lemmas all_forwards = forward_motd forward_pure forward_levelData forward_setBlock forward_players
  forward_extInfo forward_extEntry forward_names forward_entity forward_env forward_misc
  forward_blocks

lemma layout_forwards:
  "list_all (\<lambda>(i, cs). \<exists>h. map_of mc_handlers i = Some h \<and> forwards i cs (body_ok i) h) mc_layout"
  by (simp add: mc_layout_def mc_handlers_def body_ok_def all_forwards del: One_nat_def)

text \<open>A whole packet, number and body.\<close>

fun relayed :: "bool \<Rightarrow> world \<Rightarrow> byte list \<Rightarrow> bool" where
  "relayed one w [] = False"
| "relayed one w (i # body) =
     (case map_of mc_layout i of None \<Rightarrow> False
      | Some cs \<Rightarrow> length body = sum_list (map rwidth cs) \<and> (one \<or> list_all wrapped cs)
          \<and> body_ok i w body)"

lemma relayedE:
  assumes "relayed one w p"
  obtains i body cs h where "p = i # body" "map_of mc_layout i = Some cs" "map_of mc_handlers i = Some h"
    "forwards i cs (body_ok i) h" "length body = sum_list (map rwidth cs)"
    "one \<or> list_all wrapped cs" "body_ok i w body" "list_all (\<lambda>c. 0 < rwidth c) cs"
    "i \<noteq> 0x14" "i \<noteq> 42"
proof -
  from assms obtain i body cs where p: "p = i # body" "map_of mc_layout i = Some cs"
    "length body = sum_list (map rwidth cs)" "one \<or> list_all wrapped cs" "body_ok i w body"
    by (cases p) (auto split: option.splits)
  from p(2) have mem: "(i, cs) \<in> set mc_layout" by (rule map_of_SomeD)
  have "list_all (\<lambda>(i, cs). list_all (\<lambda>c. 0 < rwidth c) cs \<and> i \<noteq> 0x14 \<and> i \<noteq> 42) mc_layout"
    by (simp add: mc_layout_def)
  with mem have "list_all (\<lambda>c. 0 < rwidth c) cs" "i \<noteq> 0x14" "i \<noteq> 42"
    unfolding list_all_iff [of _ mc_layout] by fastforce+
  moreover from mem layout_forwards obtain h where "map_of mc_handlers i = Some h"
    "forwards i cs (body_ok i) h"
    unfolding list_all_iff by fastforce
  ultimately show thesis using p that by blast
qed

lemma readable_body:
  assumes "one \<or> list_all wrapped cs" "one \<longrightarrow> length ss \<le> 1"
    and "list_all (\<lambda>c. 0 < rwidth c) cs" "sum_list (map rwidth cs) \<le> length (concat ss)"
  shows "readable cs ss"
proof (cases "list_all wrapped cs")
  case True
  with assms(4) show ?thesis by (simp add: readable_wrapped)
next
  case False
  with assms(1,2) consider "ss = []" | b where "ss = [b]"
    by (cases ss) auto
  then show ?thesis
  proof cases
    case 1
    with assms(3,4) have "cs = []" by (cases cs) auto
    then show ?thesis by simp
  next
    case 2
    with assms(3,4) show ?thesis by (simp add: readable_single)
  qed
qed

text \<open>
  Two packets are received and not passed on. \<open>mc_calls\<close> is every receive call the thread makes
  for a packet, its number first; \<open>passed_on\<close> is what the game client gets of it.
\<close>

definition swallowed :: "(byte \<times> rcall list) list" where
  "swallowed = [(0x14, [Recv 1, Recv 1]), (42, [RecvW 1, RecvW 2, RecvW 4])]"

definition mc_calls :: "byte list \<Rightarrow> rcall list" where
  "mc_calls p = RecvW 1 # the (map_of (swallowed @ mc_layout) (hd p))"



lemma mc_calls_relayed:
  assumes "p = i # body" "map_of mc_layout i = Some cs" "i \<noteq> 0x14" "i \<noteq> 42"
  shows "mc_calls p = RecvW 1 # cs"
  using assms by (simp add: mc_calls_def swallowed_def map_add_Some_iff)

lemma mc_iter_passes:
  assumes s: "session one w s" and p: "relayed True w p" and inp: "incoming tunnelSock s = p @ rest"
    and r: "readable (mc_calls p) (segs s tunnelSock)"
  shows "session one w (mc_iter s) \<and> segs (mc_iter s) tunnelSock = skip (length p) (segs s tunnelSock)
    \<and> sent (mc_iter s) serverSock = sent s serverSock @ p"
proof -
  from p obtain i body cs h where p: "p = i # body" and h: "map_of mc_handlers i = Some h"
    and layout: "map_of mc_layout i = Some cs" "i \<noteq> 0x14" "i \<noteq> 42"
    and fw: "forwards i cs (body_ok i) h" and len: "length body = sum_list (map rwidth cs)"
    and ok: "body_ok i w body"
    by (rule relayedE)
  let ?s = "sip tunnelSock 1 s"
  from inp p have inp': "incoming tunnelSock ?s = body @ rest" by simp
  have step: "mc_iter s = h ?s"
    using s inp p h by (simp add: mc_iter_def recvW_enough sessionD mc_packet_def)
  have "readable cs (segs ?s tunnelSock)"
    using r mc_calls_relayed [OF p layout] by simp
  moreover have "session one w ?s" using s by simp
  ultimately have "session one w (h ?s) \<and> segs (h ?s) tunnelSock = skip (length body) (segs ?s tunnelSock)
    \<and> sent (h ?s) serverSock = sent ?s serverSock @ i # body"
    using fw ok inp' len by (auto simp: forwards_def)
  then show ?thesis by (simp add: step p frame_simps)
qed



text \<open>With wrapped calls only, or all in one segment, nothing is asked of the segments.\<close>

lemma mc_iter_relays:
  assumes s: "session one w s" and p: "relayed one w p" and inp: "incoming tunnelSock s = p @ rest"
  shows "session one w (mc_iter s) \<and> incoming tunnelSock (mc_iter s) = rest
    \<and> sent (mc_iter s) serverSock = sent s serverSock @ p"
proof -
  from p obtain i body cs where c: "p = i # body" "map_of mc_layout i = Some cs" "i \<noteq> 0x14" "i \<noteq> 42"
    and len: "length body = sum_list (map rwidth cs)"
    and cs: "one \<or> list_all wrapped cs" "list_all (\<lambda>c. 0 < rwidth c) cs"
    by (rule relayedE)
  have "one \<longrightarrow> length (segs s tunnelSock) \<le> 1" using s by (simp add: session_def)
  moreover have "sum_list (map rwidth (RecvW 1 # cs)) \<le> length (incoming tunnelSock s)"
    using inp c(1) len by simp
  ultimately have r: "readable (mc_calls p) (segs s tunnelSock)"
    unfolding mc_calls_relayed [OF c] by (intro readable_body [of one]) (use cs in simp_all)
  have "relayed True w p" using p c(1) by (auto split: option.splits)
  from mc_iter_passes [OF s this inp r] inp show ?thesis by simp
qed





section \<open>Where the relay is not transparent\<close>

text \<open>
  C20: The segment boundary decides what a packet received by plain \<open>recv\<close> calls becomes. A
  colour packet that is cut inside its red value is passed on with an indeterminate byte in
  the red value and every later byte one place too late, and its last byte is taken for the
  number of the next packet.
\<close>

theorem plain_recv_loses_the_packet_boundary:
  assumes "status s = Running" and "accepts s serverSock = []"
    and "segs s tunnelSock = [0x19, v, r1] # [r2, g1, g2, b1, b2] # ss"
  shows "sent (mc_iter s) serverSock = sent s serverSock @ [0x19, v, r1, indet s 0, r2, g1, g2, b1]
    \<and> segs (mc_iter s) tunnelSock = [b2] # ss"
  using assms
  by (simp add: mc_iter_def recvW_enough mc_packet_def mc_handlers_def mc_envSetColor_def
      recvs_def recv_def fresh_def sends_open emit_def sip_def)

theorem plain_recv_loses_the_packet_boundary_witness:
  "sent (mc_iter (start\<lparr>segs := (\<lambda>_. [])(tunnelSock := [[0x19, 1, 0], [200, 0, 100, 0, 50]])\<rparr>)) serverSock
     = [0x19, 1, 0, 0, 200, 0, 100, 0]"
  using plain_recv_loses_the_packet_boundary
    [of "start\<lparr>segs := (\<lambda>_. [])(tunnelSock := [[0x19, 1, 0], [200, 0, 100, 0, 50]])\<rparr>"]
  by (simp add: start_def)

end
