(* ===== verification/ClientRelay.thy ===== *)
theory ClientRelay
  imports FromClient ServerRelay
begin

text \<open>
  What the thread of \<open>FromClient\<close> passes on: in a plain session (nothing hidden, painted,
  gimped or waiting for a point) the packets of the table \<open>ts_layout\<close> reach the game server
  byte for byte, those of the table \<open>altered\<close> with a fixed change, and the loop is a second
  instance of \<open>segmented_relay\<close>.
\<close>

section \<open>A plain session on the client side\<close>

definition ts_session :: "bool \<Rightarrow> world \<Rightarrow> bool" where
  "ts_session one s \<longleftrightarrow> status s = Running \<and> accepts s tunnelSock = [] \<and> fucked s \<and> \<not> hide s
     \<and> \<not> zPlace s \<and> \<not> paint s \<and> \<not> gimped s \<and> (one \<longrightarrow> length (segs s serverSock) \<le> 1)"

lemma ts_sessionD:
  assumes "ts_session one s"
  shows "accepts s tunnelSock = []" "status s = Running" "fucked s" "\<not> hide s" "\<not> zPlace s"
    "\<not> paint s" "\<not> gimped s"
  using assms by (simp_all add: ts_session_def)

lemma ts_session_sip [simp]: "ts_session one s \<Longrightarrow> ts_session one (sip serverSock n s)"
  using length_skip [of n "segs s serverSock"] by (auto simp: ts_session_def sip_def)

lemma ts_session_frames [simp]:
  "ts_session one (emit k bs s) = ts_session one s"
  "ts_session one (remark e s) = ts_session one s"
  "ts_session one (copied c n s) = ts_session one s"
  "ts_session one (snd (fresh m s)) = ts_session one s"
  "ts_session one (s\<lparr>user := u\<rparr>) = ts_session one s"
  "ts_session one (s\<lparr>cpeServer := d\<rparr>) = ts_session one s"
  by (simp_all add: ts_session_def emit_def remark_def copied_def fresh_def)

lemma toggle_frames [frame_simps]:
  "hide (sip k n s) = hide s" "zPlace (sip k n s) = zPlace s" "paint (sip k n s) = paint s"
  "gimped (sip k n s) = gimped s" "fucked (sip k n s) = fucked s" "gimped (snd (fresh m s)) = gimped s"
  by (simp_all add: sip_def fresh_def)

definition ts_forwards :: "byte \<Rightarrow> rcall list \<Rightarrow> (byte list \<Rightarrow> bool) \<Rightarrow> (world \<Rightarrow> world) \<Rightarrow> bool" where
  "ts_forwards i cs ok h \<longleftrightarrow> (\<forall>one s. ts_session one s \<longrightarrow> readable cs (segs s serverSock) \<longrightarrow>
     ok (take (sum_list (map rwidth cs)) (incoming serverSock s)) \<longrightarrow>
     ts_session one (h s) \<and> segs (h s) serverSock = skip (sum_list (map rwidth cs)) (segs s serverSock)
     \<and> sent (h s) tunnelSock
         = sent s tunnelSock @ i # take (sum_list (map rwidth cs)) (incoming serverSock s))"

abbreviation any_body :: "byte list \<Rightarrow> bool" where
  "any_body \<equiv> \<lambda>body. True"

lemmas ts_forward_simps = ts_forwards_def wire_simps frame_simps ts_sessionD

lemma ts_forward_short:
  "ts_forwards 0x08 [RecvW 1, RecvW 2, RecvW 2, RecvW 2, RecvW 1, RecvW 1] any_body ts_position"
  "ts_forwards 0x11 [RecvW 64, RecvW 4] any_body ts_extEntry"
  "ts_forwards 0x12 [RecvW 2] any_body ts_clickDistance"
  "ts_forwards 0x13 [RecvW 1] any_body ts_customBlocks"
  "ts_forwards 0x14 [RecvW 1, RecvW 1] any_body ts_holdThis"
  "ts_forwards 0x1C [RecvW 1, RecvW 1, RecvW 1] any_body ts_setBlockPermission"
  "ts_forwards 0x1F [RecvW 1] any_body ts_envSetWeatherType"
  "ts_forwards 0x22 [RecvW 1, RecvW 1, RecvW 1, RecvW 2, RecvW 2, RecvW 1, RecvW 2, RecvW 2,
     RecvW 2, RecvW 1] any_body ts_playerClicked"
  by (simp_all add: ts_forward_simps ts_position_def ts_extEntry_def ts_clickDistance_def
      ts_customBlocks_def ts_holdThis_def ts_setBlockPermission_def ts_envSetWeatherType_def
      ts_playerClicked_def Let_def del: readable.simps One_nat_def)

lemma ts_forward_mixed:
  "ts_forwards 0x16 [Recv 2, RecvW 64, RecvW 64, RecvW 64, Recv 1] any_body ts_extAddPlayerName"
  "ts_forwards 0x18 [Recv 2] any_body ts_extRemovePlayerName"
  "ts_forwards 0x19 [Recv 1, Recv 2, Recv 2, Recv 2] any_body ts_envSetColor"
  "ts_forwards 0x1A [Recv 1, Recv 64, Recv 2, Recv 2, Recv 2, Recv 2, Recv 2, Recv 2, Recv 2,
     Recv 2, Recv 2, Recv 2] any_body ts_makeSelection"
  "ts_forwards 0x1B [Recv 1] any_body ts_removeSelection"
  "ts_forwards 0x1D [Recv 1, RecvW 64] any_body ts_changeModel"
  "ts_forwards 0x1E [RecvW 64, Recv 1, Recv 1, Recv 2] any_body ts_envMapAppearance"
  by (simp_all add: ts_forward_simps ts_extAddPlayerName_def ts_extRemovePlayerName_def
      ts_envSetColor_def ts_makeSelection_def ts_removeSelection_def ts_changeModel_def
      ts_envMapAppearance_def del: readable.simps One_nat_def)

lemma take_one: "Suc n \<le> length xs \<Longrightarrow> [drop n xs ! 0] = take 1 (drop n xs)"
  by (cases "drop n xs") simp_all

lemma ts_forward_setBlock:
  "ts_forwards 0x05 [RecvW 2, RecvW 2, RecvW 2, RecvW 1, RecvW 1] any_body ts_setBlock"
  unfolding ts_forwards_def
proof (intro allI impI)
  fix one :: bool and s :: world
  let ?cs = "[RecvW 2, RecvW 2, RecvW 2, RecvW 1, RecvW 1]"
  let ?in = "incoming serverSock s"
  assume s: "ts_session one s" and r: "readable ?cs (segs s serverSock)"
  have len: "8 \<le> length ?in" using readable_length [OF r] by simp
  have ends: "take 6 ?in @ [?in ! 6, ?in ! 7] = take 8 ?in"
    using len take_Suc_conv_app_nth [of 6 ?in] take_Suc_conv_app_nth [of 7 ?in] by simp
  from s r show "ts_session one (ts_setBlock s)
      \<and> segs (ts_setBlock s) serverSock = skip (sum_list (map rwidth ?cs)) (segs s serverSock)
      \<and> sent (ts_setBlock s) tunnelSock = sent s tunnelSock @ 0x05 # take (sum_list (map rwidth ?cs)) ?in"
    using len
    by (simp add: ts_forward_simps ts_setBlock_def Let_def del: readable.simps One_nat_def)
      (use ends in \<open>simp del: One_nat_def\<close>)
qed

text \<open>
  A message that is no command. What is tested is the line up to its first double space, without
  colour codes, in a buffer that had no value; \<open>nxt\<close> is the byte behind the 64 of the message.
  The line is safe when it has at most one character, or when the first one left is no
  apostrophe; a line that is all colour codes leaves the test to the buffer.
\<close>

definition chat_ok :: "byte list \<Rightarrow> bool" where
  "chat_ok body \<longleftrightarrow>
     (let m = drop 1 body
      in 0 \<notin> set m \<and> list_all (\<lambda>nxt. let n = clean_size m nxt; t = strip_colour (take n m)
           in n \<le> 1 \<or> t \<noteq> [] \<and> hd t \<noteq> 39) [0, 32])"

lemma clean_size_loop_behind:
  "i + k \<le> length m \<Longrightarrow> (a = 32 \<longleftrightarrow> b = 32) \<Longrightarrow>
   clean_size_loop k i (m @ [a]) = clean_size_loop k i (m @ [b])"
  by (induction k arbitrary: i) (auto simp: nth_append less_Suc_eq)

lemma clean_size_behind:
  assumes "length m = 64"
  shows "clean_size m nxt = clean_size m (if nxt = 32 then 32 else 0)"
  unfolding clean_size_def by (rule clean_size_loop_behind) (simp_all add: assms)

lemma no_command:
  assumes "length m = 64" "length d = 64" "chat_ok (x # m)"
  shows "\<not> (cleanString d m nxt ! 0 = 39 \<and> 2 \<le> length (cstr (cleanString d m nxt)))"
proof -
  define n where "n = clean_size m nxt"
  define t where "t = strip_colour (take n m)"
  have clean: "cleanString d m nxt = (put_at 0 t d)[n := 0]"
    by (simp add: cleanString_def Let_def n_def t_def)
  have "n < 64" by (simp add: n_def clean_size_less)
  have "length t \<le> 64" using length_strip_colour [of "take n m"] \<open>n < 64\<close> by (simp add: t_def)
  then have len: "length (put_at 0 t d) = 64" using assms(2) by (simp add: put_at_0)
  have "n \<le> 1 \<or> t \<noteq> [] \<and> hd t \<noteq> 39"
    using assms(3) clean_size_behind [OF assms(1), of nxt]
    by (auto simp: chat_ok_def Let_def n_def t_def split: if_splits)
  then consider "n = 0" | "n = 1" | "1 < n" "t \<noteq> []" "hd t \<noteq> 39" by linarith
  then show ?thesis
  proof cases
    case 1
    then show ?thesis using len by (simp add: clean)
  next
    case 2
    from len obtain y z r where "put_at 0 t d = y # z # r"
      by (cases "put_at 0 t d"; cases "tl (put_at 0 t d)") auto
    then show ?thesis using 2 by (simp add: clean cstr_def)
  next
    case 3
    then have "cleanString d m nxt ! 0 = hd t"
      by (simp add: clean put_at_0 nth_append hd_conv_nth)
    then show ?thesis using 3 by simp
  qed
qed

lemma chat_plain:
  assumes "length body = 65" "body ! 1 \<noteq> 39" "body ! 1 \<noteq> 38" "0 \<notin> set (drop 1 body)"
  shows "chat_ok body"
proof -
  from assms(1) obtain x a r where b: "body = x # a # r"
    by (cases body; cases "tl body") auto
  have "strip_colour (a # u) = a # strip_colour u" for u using assms(3) b by (cases u) simp_all
  moreover have "n \<le> 1 \<or> (\<exists>k. take n (a # r) = a # take k r)" for n by (cases n) auto
  ultimately have "n \<le> 1 \<or> strip_colour (take n (a # r)) \<noteq> [] \<and> hd (strip_colour (take n (a # r))) \<noteq> 39" for n
    using assms(2) b by (metis list.sel(1) list.discI nth_Cons_0 nth_Cons_Suc One_nat_def)
  then show ?thesis using assms(4) b by (simp add: chat_ok_def Let_def)
qed

lemma ts_forward_chat: "ts_forwards 0x0d [RecvW 1, RecvW 64] chat_ok ts_chat"
  unfolding ts_forwards_def
proof (intro allI impI)
  fix one :: bool and s :: world
  let ?cs = "[RecvW 1, RecvW 64]"
  let ?in = "incoming serverSock s"
  assume s: "ts_session one s" and r: "readable ?cs (segs s serverSock)"
    and ok: "chat_ok (take (sum_list (map rwidth ?cs)) ?in)"
  have len: "65 \<le> length ?in" using readable_length [OF r] by simp
  let ?m = "take 64 (drop 1 ?in)"
  have m: "length ?m = 64" "0 \<notin> set ?m" "chat_ok (?in ! 0 # ?m)"
    using ok len by (auto simp: chat_ok_def Let_def drop_take)
  have plain: "\<not> (cleanString (map f [0 ..< 64]) ?m nxt ! 0 = 39
      \<and> 2 \<le> length (cstr (cleanString (map f [0 ..< 64]) ?m nxt)))" for f nxt
    by (rule no_command) (use m in simp_all)
  have msg: "toMCString ?m = ?m" by (rule toMCString_id) (use m in simp_all)
  have one: "?in ! 0 # ?m = take 65 ?in"
  proof -
    have "[?in ! 0] = take 1 ?in" using take_one [of 0 ?in] len by simp
    then have "?in ! 0 # ?m = take 1 ?in @ ?m" by (metis append_Cons append_Nil)
    then show ?thesis by (simp del: One_nat_def)
  qed
  from s r show "ts_session one (ts_chat s)
      \<and> segs (ts_chat s) serverSock = skip (sum_list (map rwidth ?cs)) (segs s serverSock)
      \<and> sent (ts_chat s) tunnelSock = sent s tunnelSock @ 0x0d # take (sum_list (map rwidth ?cs)) ?in"
    using len
    by (simp add: plain ts_forward_simps ts_chat_def Let_def case_prod_beta message_def msg one
        del: readable.simps One_nat_def)
qed

section \<open>The loop as a transparent relay\<close>

text \<open>
  The packets that are passed on as they are. \<open>ExtInfo\<close> (one extension less is announced),
  \<open>TextHotKey\<close>, \<open>ExtAddEntity2\<close> (each loses a byte) and \<open>TwoWayPing\<close> (two bytes without a
  value) are in the table \<open>altered\<close> below.
\<close>

definition ts_layout :: "(byte \<times> rcall list) list" where
  "ts_layout =
     [(0x05, [RecvW 2, RecvW 2, RecvW 2, RecvW 1, RecvW 1]),
      (0x08, [RecvW 1, RecvW 2, RecvW 2, RecvW 2, RecvW 1, RecvW 1]), (0x0d, [RecvW 1, RecvW 64]),
      (0x11, [RecvW 64, RecvW 4]), (0x12, [RecvW 2]), (0x13, [RecvW 1]), (0x14, [RecvW 1, RecvW 1]),
      (0x16, [Recv 2, RecvW 64, RecvW 64, RecvW 64, Recv 1]), (0x18, [Recv 2]),
      (0x19, [Recv 1, Recv 2, Recv 2, Recv 2]),
      (0x1A, [Recv 1, Recv 64, Recv 2, Recv 2, Recv 2, Recv 2, Recv 2, Recv 2, Recv 2, Recv 2,
        Recv 2, Recv 2]),
      (0x1B, [Recv 1]), (0x1C, [RecvW 1, RecvW 1, RecvW 1]), (0x1D, [Recv 1, RecvW 64]),
      (0x1E, [RecvW 64, Recv 1, Recv 1, Recv 2]), (0x1F, [RecvW 1]),
      (0x22, [RecvW 1, RecvW 1, RecvW 1, RecvW 2, RecvW 2, RecvW 1, RecvW 2, RecvW 2, RecvW 2,
        RecvW 1])]"

definition ts_body_ok :: "byte \<Rightarrow> byte list \<Rightarrow> bool" where
  "ts_body_ok i = (if i = 0x0d then chat_ok else any_body)"

lemmas ts_all_forwards = ts_forward_setBlock ts_forward_chat ts_forward_short ts_forward_mixed

lemma ts_layout_forwards:
  "list_all (\<lambda>(i, cs). \<exists>h. map_of ts_handlers i = Some h \<and> ts_forwards i cs (ts_body_ok i) h) ts_layout"
  by (simp add: ts_layout_def ts_handlers_def ts_body_ok_def ts_all_forwards del: One_nat_def)

fun ts_relayed :: "bool \<Rightarrow> byte list \<Rightarrow> bool" where
  "ts_relayed one [] = False"
| "ts_relayed one (i # body) =
     (case map_of ts_layout i of None \<Rightarrow> False
      | Some cs \<Rightarrow> length body = sum_list (map rwidth cs) \<and> (one \<or> list_all wrapped cs)
          \<and> ts_body_ok i body)"

definition altered :: "(byte \<times> rcall list) list" where
  "altered = [(0x10, [RecvW 64, RecvW 2]), (0x15, [RecvW 64, RecvW 64, RecvW 4, RecvW 1]),
     (0x21, [Recv 1, RecvW 64, RecvW 64, RecvW 2, RecvW 2, RecvW 2, Recv 1, Recv 1]),
     (43, [RecvW 1, RecvW 2])]"

text \<open>All receive calls for a packet, number first, and what the game server gets of it.\<close>

definition ts_calls :: "byte list \<Rightarrow> rcall list" where
  "ts_calls p = RecvW 1 # the (map_of (altered @ ts_layout) (hd p))"

definition ts_taken :: "byte list \<Rightarrow> bool" where
  "ts_taken p \<longleftrightarrow> ts_relayed True p
     \<or> p \<noteq> [] \<and> hd p \<in> set (map fst altered) \<and> length p = sum_list (map rwidth (ts_calls p))"

definition delivered :: "byte list \<Rightarrow> byte list \<Rightarrow> bool" where
  "delivered p q \<longleftrightarrow>
     (if hd p = 0x10 then q = take 65 p @ be16 (ntohs (ld16 (drop 65 p)) - 1)
      else if hd p = 0x15 then q = take 133 p
      else if hd p = 0x21 then q = 0x21 # drop 2 p
      else if hd p = 43 then length q = length p \<and> take 2 q = take 2 p
      else q = p)"

lemma ts_relayedE:
  assumes "ts_relayed one p"
  obtains i body cs where "p = i # body" "map_of ts_layout i = Some cs"
    "length body = sum_list (map rwidth cs)" "one \<or> list_all wrapped cs" "ts_body_ok i body"
    "list_all (\<lambda>c. 0 < rwidth c) cs" "i \<noteq> 0" "i \<notin> set (map fst altered)"
proof -
  from assms obtain i body cs where p: "p = i # body" "map_of ts_layout i = Some cs"
    "length body = sum_list (map rwidth cs)" "one \<or> list_all wrapped cs" "ts_body_ok i body"
    by (cases p) (auto split: option.splits)
  have "list_all (\<lambda>(i, cs). i \<noteq> 0 \<and> i \<notin> set (map fst altered) \<and> list_all (\<lambda>c. 0 < rwidth c) cs) ts_layout"
    by (simp add: ts_layout_def altered_def)
  with map_of_SomeD [OF p(2)] have "list_all (\<lambda>c. 0 < rwidth c) cs" "i \<noteq> 0" "i \<notin> set (map fst altered)"
    unfolding list_all_iff [of _ ts_layout] by fastforce+
  with p that show thesis by blast
qed

lemma ts_calls_relayed:
  assumes "p = i # body" "map_of ts_layout i = Some cs" "i \<notin> set (map fst altered)"
  shows "ts_calls p = RecvW 1 # cs"
proof -
  have "map_of altered i = None" using assms(3) by (simp add: map_of_eq_None_iff)
  with assms show ?thesis by (simp add: ts_calls_def map_add_def)
qed

text \<open>With wrapped calls only, or all in one segment, nothing is asked of the segments.\<close>

lemma ts_relayed_readable:
  assumes s: "ts_session one s" and p: "ts_relayed one p" and inp: "incoming serverSock s = p @ rest"
  shows "ts_relayed True p" "readable (ts_calls p) (segs s serverSock)"
proof -
  from p obtain i body cs where c: "p = i # body" "map_of ts_layout i = Some cs" "i \<notin> set (map fst altered)"
    and len: "length body = sum_list (map rwidth cs)"
    and cs: "one \<or> list_all wrapped cs" "list_all (\<lambda>c. 0 < rwidth c) cs"
    by (rule ts_relayedE)
  have "one \<longrightarrow> length (segs s serverSock) \<le> 1" using s by (simp add: ts_session_def)
  moreover have "sum_list (map rwidth (RecvW 1 # cs)) \<le> length (incoming serverSock s)"
    using inp c(1) len by simp
  ultimately show "readable (ts_calls p) (segs s serverSock)"
    unfolding ts_calls_relayed [OF c] by (intro readable_body [of one]) (use cs in simp_all)
  show "ts_relayed True p" using p c(1) by (auto split: option.splits)
qed

text \<open>A turn of the loop on such a packet is a call of its handler, with the body at hand.\<close>

lemma ts_turn:
  assumes s: "ts_session one s" and p: "ts_relayed True p" and inp: "incoming serverSock s = p @ rest"
    and r: "readable (ts_calls p) (segs s serverSock)"
  obtains i body cs h where "p = i # body" "(i, cs) \<in> set ts_layout" "map_of ts_handlers i = Some h"
    "ts_iter s = h (sip serverSock 1 s)" "ts_session one (sip serverSock 1 s)"
    "incoming serverSock (sip serverSock 1 s) = body @ rest" "length body = sum_list (map rwidth cs)"
    "readable cs (segs (sip serverSock 1 s) serverSock)" "ts_body_ok i body" "i \<notin> set (map fst altered)"
proof -
  from p obtain i body cs where c: "p = i # body" "map_of ts_layout i = Some cs" "i \<notin> set (map fst altered)"
    and len: "length body = sum_list (map rwidth cs)" and ok: "ts_body_ok i body" and i: "i \<noteq> 0"
    by (rule ts_relayedE)
  from c(2) have mem: "(i, cs) \<in> set ts_layout" by (rule map_of_SomeD)
  with ts_layout_forwards obtain h where h: "map_of ts_handlers i = Some h"
    unfolding list_all_iff by fastforce
  let ?s = "sip serverSock 1 s"
  have "incoming serverSock ?s = body @ rest" using inp c(1) by simp
  moreover have "readable cs (segs ?s serverSock)" using r ts_calls_relayed [OF c] by simp
  moreover have "ts_iter s = h ?s"
    using s inp c(1) h i by (simp add: ts_iter_def recvW_enough ts_sessionD ts_packet_def)
  moreover have "ts_session one ?s" using s by simp
  ultimately show thesis using that c mem h len ok by blast
qed

lemma ts_iter_passes:
  assumes s: "ts_session one s" and p: "ts_relayed True p" and inp: "incoming serverSock s = p @ rest"
    and r: "readable (ts_calls p) (segs s serverSock)"
  shows "ts_session one (ts_iter s) \<and> segs (ts_iter s) serverSock = skip (length p) (segs s serverSock)
    \<and> sent (ts_iter s) tunnelSock = sent s tunnelSock @ p \<and> delivered p p"
  using assms
proof (rule ts_turn)
  fix i body cs h
  let ?s = "sip serverSock 1 s"
  assume turn: "p = i # body" "(i, cs) \<in> set ts_layout" "map_of ts_handlers i = Some h"
    "ts_iter s = h ?s" "ts_session one ?s" "incoming serverSock ?s = body @ rest"
    "length body = sum_list (map rwidth cs)" "readable cs (segs ?s serverSock)" "ts_body_ok i body"
    "i \<notin> set (map fst altered)"
  from turn(2,3) ts_layout_forwards have "ts_forwards i cs (ts_body_ok i) h"
    unfolding list_all_iff by fastforce
  with turn(5-9) have "ts_session one (h ?s) \<and> segs (h ?s) serverSock = skip (length body) (segs ?s serverSock)
      \<and> sent (h ?s) tunnelSock = sent ?s tunnelSock @ i # body"
    by (auto simp: ts_forwards_def)
  moreover have "delivered p p" using turn(1,10) by (simp add: delivered_def altered_def)
  ultimately show ?thesis by (simp add: turn(1,4) frame_simps)
qed

text \<open>What \<open>Duplex\<close> needs: the packets that are passed on as they are.\<close>

lemma ts_iter_relays:
  assumes "ts_session one s" and "ts_relayed one p" and "incoming serverSock s = p @ rest"
  shows "ts_session one (ts_iter s) \<and> incoming serverSock (ts_iter s) = rest
    \<and> sent (ts_iter s) tunnelSock = sent s tunnelSock @ p"
  using ts_iter_passes [OF assms(1) ts_relayed_readable(1) [OF assms] assms(3) ts_relayed_readable(2) [OF assms]]
    assms(3) by simp

section \<open>The packets that are altered\<close>

definition ts_alters :: "byte \<Rightarrow> rcall list \<Rightarrow> (world \<Rightarrow> world) \<Rightarrow> bool" where
  "ts_alters i cs h \<longleftrightarrow> (\<forall>one s. ts_session one s \<longrightarrow> readable cs (segs s serverSock) \<longrightarrow>
     ts_session one (h s) \<and> segs (h s) serverSock = skip (sum_list (map rwidth cs)) (segs s serverSock)
     \<and> (\<exists>q. delivered (i # take (sum_list (map rwidth cs)) (incoming serverSock s)) q
          \<and> sent (h s) tunnelSock = sent s tunnelSock @ q))"

lemma alter_extInfo: "ts_alters 0x10 [RecvW 64, RecvW 2] ts_extInfo"
  by (simp add: ts_alters_def ts_forward_simps delivered_def ts_extInfo_def Let_def drop_take
      del: readable.simps One_nat_def)

lemma alter_textHotKey: "ts_alters 0x15 [RecvW 64, RecvW 64, RecvW 4, RecvW 1] ts_textHotKey"
  by (simp add: ts_alters_def ts_forward_simps delivered_def ts_textHotKey_def Let_def
      del: readable.simps One_nat_def)

lemma take_glue_behind:
  "c = d + a \<Longrightarrow> take a (drop d xs) @ take b (drop c xs) = take (a + b) (drop d xs)"
  "c = d + a \<Longrightarrow> take a (drop d xs) @ take b (drop c xs) @ ys = take (a + b) (drop d xs) @ ys"
  by (simp_all add: take_add add.commute)

lemma alter_extAddEntity2:
  "ts_alters 0x21 [Recv 1, RecvW 64, RecvW 64, RecvW 2, RecvW 2, RecvW 2, Recv 1, Recv 1] ts_extAddEntity2"
  by (simp add: ts_alters_def ts_forward_simps delivered_def ts_extAddEntity2_def Let_def drop_take
      take_glue_behind del: readable.simps One_nat_def) simp

lemma alter_twoWayPing: "ts_alters 43 [RecvW 1, RecvW 2] ts_twoWayPing"
  unfolding ts_alters_def
proof (intro allI impI)
  fix one :: bool and s :: world
  let ?in = "incoming serverSock s"
  assume s: "ts_session one s" and r: "readable [RecvW 1, RecvW 2] (segs s serverSock)"
  have "3 \<le> length ?in" using readable_length [OF r] by simp
  then obtain a b c where "take 3 ?in = [a, b, c]" "take 1 ?in = [a]"
    by (cases ?in; cases "tl ?in"; cases "tl (tl ?in)") (auto simp: numeral_eq_Suc)
  with s r show "ts_session one (ts_twoWayPing s)
      \<and> segs (ts_twoWayPing s) serverSock = skip (sum_list (map rwidth [RecvW 1, RecvW 2])) (segs s serverSock)
      \<and> (\<exists>q. delivered (43 # take (sum_list (map rwidth [RecvW 1, RecvW 2])) ?in) q
          \<and> sent (ts_twoWayPing s) tunnelSock = sent s tunnelSock @ q)"
    by (simp add: ts_forward_simps delivered_def ts_twoWayPing_def Let_def case_prod_beta
        del: readable.simps One_nat_def)
qed

lemma altered_alters:
  "list_all (\<lambda>(i, cs). i \<noteq> 0 \<and> (\<exists>h. map_of ts_handlers i = Some h \<and> ts_alters i cs h)) altered"
  by (simp add: altered_def ts_handlers_def alter_extInfo alter_textHotKey alter_extAddEntity2
      alter_twoWayPing del: One_nat_def)

lemma ts_iter_alters:
  assumes s: "ts_session one s" and p: "p \<noteq> []" "hd p \<in> set (map fst altered)"
    and len: "length p = sum_list (map rwidth (ts_calls p))"
    and inp: "incoming serverSock s = p @ rest" and r: "readable (ts_calls p) (segs s serverSock)"
  shows "ts_session one (ts_iter s) \<and> segs (ts_iter s) serverSock = skip (length p) (segs s serverSock)
    \<and> (\<exists>q. delivered p q \<and> sent (ts_iter s) tunnelSock = sent s tunnelSock @ q)"
proof -
  obtain i body where b: "p = i # body" using p(1) by (cases p) auto
  with p(2) obtain cs where cs: "map_of altered i = Some cs"
    using map_of_eq_None_iff [of altered i] by force
  with b have calls: "ts_calls p = RecvW 1 # cs" by (simp add: ts_calls_def)
  from map_of_SomeD [OF cs] altered_alters obtain h where h: "i \<noteq> 0" "map_of ts_handlers i = Some h"
    "ts_alters i cs h"
    unfolding list_all_iff by fastforce
  let ?s = "sip serverSock 1 s"
  have step: "ts_iter s = h ?s"
    using s inp b h(1,2) by (simp add: ts_iter_def recvW_enough ts_sessionD ts_packet_def)
  have "readable cs (segs ?s serverSock)" "ts_session one ?s" using r calls s by simp_all
  moreover have "take (sum_list (map rwidth cs)) (incoming serverSock ?s) = body" "length body = sum_list (map rwidth cs)"
    using inp b len calls by simp_all
  ultimately have "ts_session one (h ?s) \<and> segs (h ?s) serverSock = skip (length body) (segs ?s serverSock)
      \<and> (\<exists>q. delivered (i # body) q \<and> sent (h ?s) tunnelSock = sent ?s tunnelSock @ q)"
    using h(3) unfolding ts_alters_def by metis
  then show ?thesis by (simp add: step b frame_simps)
qed

interpretation to_server: segmented_relay ts_iter "ts_session one" ts_taken ts_calls delivered
    "\<lambda>s. segs s serverSock" "\<lambda>s. sent s tunnelSock"
  for one
proof unfold_locales
  fix p assume "ts_taken p"
  then show "sum_list (map rwidth (ts_calls p)) = length p"
    by (auto simp: ts_taken_def ts_calls_relayed elim!: ts_relayedE)
next
  fix s p rest
  assume s: "ts_session one s" and p: "ts_taken p" and inp: "incoming serverSock s = p @ rest"
    and r: "readable (ts_calls p) (segs s serverSock)"
  then show "ts_session one (ts_iter s) \<and> segs (ts_iter s) serverSock = skip (length p) (segs s serverSock)
      \<and> (\<exists>q. delivered p q \<and> sent (ts_iter s) tunnelSock = sent s tunnelSock @ q)"
    using ts_iter_passes [OF s _ inp r] ts_iter_alters [OF s _ _ _ inp r] unfolding ts_taken_def by blast
qed

text \<open>
  C7: In a plain session (logged in, nothing hidden, painted, gimped or waiting for a point) the
  thread of the game client takes a stream of packets of any kind the code knows, chat lines that
  are no commands included, and the game server receives one packet for each, in order and with
  nothing in between. The packet is unchanged, but for four kinds: \<open>ExtInfo\<close> announces one
  extension less, \<open>TextHotKey\<close> lacks its last byte, \<open>ExtAddEntity2\<close> its entity number, and
  \<open>TwoWayPing\<close> carries two other bytes. The stream may be cut into segments anywhere but inside
  a field that is read by a plain \<open>recv\<close>.
\<close>

theorem client_stream_is_relayed:
  assumes "ts_session False s" and "list_all ts_taken ps"
    and "incoming serverSock s = concat ps @ rest"
    and "readable (concat (map ts_calls ps)) (segs s serverSock)"
  shows "(\<exists>qs. list_all2 delivered ps qs
      \<and> sent (iterate ts_iter (length ps) s) tunnelSock = sent s tunnelSock @ concat qs)
    \<and> incoming serverSock (iterate ts_iter (length ps) s) = rest
    \<and> ts_session False (iterate ts_iter (length ps) s)"
  using to_server.run [OF assms] by blast

text \<open>A block, an \<open>ExtInfo\<close> with 2 extensions, a coloured chat line, and a colour cut between its fields.\<close>

definition typed_stream :: "byte list list" where
  "typed_stream = [[5, 0, 1, 0, 2, 0, 3, 1, 4], 0x10 # replicate 64 65 @ [0, 2],
     13 # 0 # 38 # 99 # replicate 62 72, [0x19, 1, 0, 200, 0, 100, 0, 50]]"

definition typed_world :: world where
  "typed_world = start\<lparr>fucked := True, segs := (\<lambda>_. [])(serverSock :=
     [[5, 0], [1, 0, 2, 0, 3, 1, 4, 0x10], replicate 64 65, [0], [2, 13, 0, 38], 99 # replicate 62 72,
      [0x19, 1, 0, 200], [0, 100, 0, 50]])\<rparr>"

lemma coloured_line: "chat_ok (0 # 38 # 99 # replicate 62 72)"
proof -
  have "clean_size (38 # 99 # replicate 62 72) nxt = 0" for nxt
    unfolding clean_size_def
    by (rule clean_size_loop_none) (auto simp: nth_Cons nth_append split: nat.splits)
  then show ?thesis by (simp add: chat_ok_def Let_def)
qed

theorem client_stream_is_relayed_witness:
  "sent (iterate ts_iter 4 typed_world) tunnelSock = [5, 0, 1, 0, 2, 0, 3, 1, 4]
     @ 0x10 # replicate 64 65 @ [0, 1] @ 13 # 0 # 38 # 99 # replicate 62 72 @ [0x19, 1, 0, 200, 0, 100, 0, 50]"
proof -
  have "ts_session False typed_world"
    by (simp add: ts_session_def typed_world_def start_def)
  moreover have "list_all ts_taken typed_stream"
    by (simp add: typed_stream_def ts_taken_def ts_calls_def altered_def ts_layout_def ts_body_ok_def coloured_line)
  moreover have "incoming serverSock typed_world = concat typed_stream @ []"
    by (simp add: typed_world_def typed_stream_def)
  moreover have "readable (concat (map ts_calls typed_stream)) (segs typed_world serverSock)"
    by (simp add: typed_stream_def typed_world_def ts_calls_def altered_def ts_layout_def)
  ultimately obtain qs where "list_all2 delivered typed_stream qs"
    "sent (iterate ts_iter (length typed_stream) typed_world) tunnelSock = sent typed_world tunnelSock @ concat qs"
    using client_stream_is_relayed by blast
  moreover have "sent typed_world tunnelSock = []" by (simp add: typed_world_def start_def)
  moreover have four: "length typed_stream = 4" by (simp add: typed_stream_def)
  ultimately show ?thesis
    unfolding four
    by (auto simp: typed_stream_def delivered_def list_all2_Cons1 ld16_def ntohs_def be16_def simp del: iterate.simps)
qed

end
