(* ===== verification/ChatLine.thy ===== *)
theory ChatLine
  imports ClientRelay
begin

text \<open>
  What the client's thread makes of a line of chat: a command of the tunnel, a joke of the
  gimp file, or a message for the game server.
\<close>

definition chat_packet :: "byte \<Rightarrow> byte list \<Rightarrow> byte list" where
  "chat_packet what m = 0x0d # what # toMCString m"

text \<open>A command line of plain text: no colour codes, no double spaces, at most 61 characters.\<close>

definition plain_line :: "byte list \<Rightarrow> bool" where
  "plain_line c \<longleftrightarrow> c \<noteq> [] \<and> length c \<le> 61 \<and> 0 \<notin> set c \<and> 38 \<notin> set c \<and> single_spaced (39 # c)"

text \<open>The state in which the command runs: the packet is read, two buffers are on the stack.\<close>

definition after_chat :: "world \<Rightarrow> world" where
  "after_chat s = snd (fresh 1 (snd (fresh 64 (sip serverSock 66 s))))"

lemma after_chat_eq: "after_chat s = (sip serverSock 66 s)\<lparr>indet := (\<lambda>i. indet s (65 + i))\<rparr>"
  by (simp add: after_chat_def fresh_def sip_def)

lemma cleanString_plain_line:
  assumes "plain_line c" "length d = 64"
  shows "cstr (cleanString d (toMCString (39 # c)) b) = 39 # c"
  using assms cleanString_padded [of "39 # c" d b]
  by (simp add: plain_line_def strip_colour_id cstr_no_nul)

lemma cstr_first: "cstr xs = c # r \<Longrightarrow> xs ! 0 = c"
  by (cases xs) (auto split: if_splits)

lemma ts_iter_chat:
  assumes "status s = Running" and "incoming serverSock s = chat_packet what m @ rest"
  shows "ts_iter s = ts_chat (sip serverSock 1 s)"
  using assms by (simp add: ts_iter_def recvW_enough chat_packet_def ts_packet_def ts_handlers_def)

lemma recvs_chat:
  assumes "incoming serverSock s = chat_packet what m @ rest"
  shows "recvs serverSock [RecvW 1, RecvW 64] (sip serverSock 1 s)
    = ([[what], toMCString m], sip serverSock 66 s)"
proof -
  have "readable [RecvW 1, RecvW 64] (segs (sip serverSock 1 s) serverSock)"
    by (rule readable_wrapped) (simp_all add: assms chat_packet_def)
  then show ?thesis
    by (simp only: recvs_ready) (simp add: assms chat_packet_def)
qed

lemma ts_iter_line:
  assumes "status s = Running" and "incoming serverSock s = chat_packet what m @ rest"
  shows "ts_iter s =
    (let msg = cleanString (map (indet s) [0 ..< 64]) (toMCString m) (indet s 64); t = after_chat s
     in if msg ! 0 = 39 \<and> 2 \<le> length (cstr msg) then
          let (known, t) = commandFunc (tl (cstr msg)) t
          in if status t = Running \<and> \<not> known then say ''Unknown command.'' t else t
        else if gimped s \<and> toMCString m ! 0 \<noteq> 47 then if what = 0 then ts_gimped what t else t
        else sendMessage what (toMCString m) t)"
proof -
  have nth: "[[what], t] ! 0 ! 0 = what" "[[what], t] ! 1 = t" for t :: "byte list" by simp_all
  have frame: "gimped (after_chat s) = gimped s" "indet (sip serverSock 66 s) = indet s"
    by (simp_all add: after_chat_eq sip_def)
  have fr: "snd (fresh 1 (snd (fresh 64 (sip serverSock 66 s)))) = after_chat s"
    "fst (fresh 64 (sip serverSock 66 s)) = map (indet s) [0 ..< 64]"
    by (simp_all add: after_chat_def, simp_all add: fresh_def sip_def del: upt_Suc)
  have one: "fst (fresh 1 (snd (fresh 64 (sip serverSock 66 s)))) = [indet s 64]"
    by (simp add: fresh_def sip_def)
  show ?thesis
    by (simp only: ts_iter_chat [OF assms(1,2)] ts_chat_def recvs_chat [OF assms(2)] Let_def
        case_prod_beta fst_conv snd_conv nth fr one frame nth_Cons_0)
qed

lemma ts_iter_command:
  assumes "status s = Running" and "incoming serverSock s = chat_packet what (39 # c) @ rest"
    and "plain_line c"
  shows "ts_iter s = (let (known, t) = commandFunc c (after_chat s)
    in if status t = Running \<and> \<not> known then say ''Unknown command.'' t else t)"
proof -
  have clean: "cstr (cleanString (map (indet s) [0 ..< 64]) (toMCString (39 # c)) (indet s 64)) = 39 # c"
    by (rule cleanString_plain_line [OF assms(3)]) simp
  moreover have "2 \<le> length (39 # c)" using assms(3) by (cases c) (simp_all add: plain_line_def)
  ultimately show ?thesis
    by (simp add: ts_iter_line [OF assms(1,2)] cstr_first [OF clean] del: upt_Suc)
qed

text \<open>
  C15: A line of chat that begins with a quote runs the command behind the quote and is not
  passed on: the command starts with the packet read and nothing sent. A command that is not
  known gets the answer \<open>Unknown command\<close>.
\<close>

theorem quoted_line_is_a_command:
  assumes "status s = Running" and "incoming serverSock s = chat_packet what (39 # c) @ rest"
    and "plain_line c"
  shows "ts_iter s = (let (known, t) = commandFunc c (after_chat s)
      in if status t = Running \<and> \<not> known then say ''Unknown command.'' t else t)
    \<and> sent (after_chat s) = sent s \<and> incoming serverSock (after_chat s) = rest"
  using assms(2) by (simp add: ts_iter_command [OF assms] after_chat_eq sip_def chat_packet_def)

definition client_sends :: "byte list \<Rightarrow> world" where
  "client_sends bs = start\<lparr>fucked := True, segs := (\<lambda>_. [])(serverSock := [bs])\<rparr>"

lemma client_sends_simps:
  "status (client_sends bs) = Running" "incoming serverSock (client_sends bs) = bs"
  "accepts (client_sends bs) = (\<lambda>_. [])" "sent (client_sends bs) = (\<lambda>_. [])"
  "zPlace (client_sends bs) = False" "points (client_sends bs) = 0" "gimped (client_sends bs) = False"
  by (simp_all add: client_sends_def start_def)

theorem quoted_line_is_a_command_witness:
  "sent (ts_iter (client_sends (chat_packet 0 (39 # lit ''hi'')))) serverSock
    = message 0 (tag @ lit ''Unknown command.'')"
proof -
  let ?s = "client_sends (chat_packet 0 (39 # lit ''hi''))"
  have line: "plain_line (lit ''hi'')"
    by (simp add: plain_line_def lit_def single_spaced_def)
  have "commandFunc (lit ''hi'') (after_chat ?s) = (False, after_chat ?s)"
    by (simp add: commandFunc_def strcmp0_def lit_def tokens.simps argument_commands_def
        after_chat_eq sip_def client_sends_simps)
  with quoted_line_is_a_command [of ?s 0 "lit ''hi''" "[]", OF _ _ line] show ?thesis
    by (simp add: client_sends_simps after_chat_eq say_def tunnelMsg_open sip_def emit_def)
qed

text \<open>
  \<open>cleanString\<close> looks for two spaces in a row to find the end of the text. A line that fills
  its 64 bytes has none; it is cleaned to the empty string.
\<close>

definition full_line :: "byte list \<Rightarrow> bool" where
  "full_line m \<longleftrightarrow> length m = 64 \<and> 0 \<notin> set m \<and> single_spaced m"

lemma cleanString_full_line: "full_line m \<Longrightarrow> length d = 64 \<Longrightarrow> cleanString d m b ! 0 = 0"
proof -
  assume m: "full_line m" and d: "length d = 64"
  have "\<not> ((m @ [b]) ! i = 32 \<and> (m @ [b]) ! Suc i = 32)" if "i < 64" for i
  proof (cases "i = 63")
    case True
    have "m \<noteq> []" using m by (auto simp: full_line_def)
    then have "m ! 63 = last m" using m by (simp add: full_line_def last_conv_nth)
    moreover have "last m \<noteq> 32" using m \<open>m \<noteq> []\<close> by (simp add: full_line_def single_spaced_def)
    ultimately show ?thesis using True m by (simp add: full_line_def nth_append)
  next
    case False
    with that m have "\<not> (m ! i = 32 \<and> m ! Suc i = 32)"
      by (simp add: full_line_def single_spaced_def list_all_iff)
    with that False m show ?thesis by (simp add: full_line_def nth_append)
  qed
  then have "clean_size m b = 0"
    unfolding clean_size_def by (intro clean_size_loop_none) auto
  then show ?thesis using d by (simp add: cleanString_def)
qed

text \<open>
  C16: A command as long as a chat line can be (64 characters, no double space) is not
  recognised: the line goes out to the game server's chat for everyone to read.
\<close>

theorem full_command_line_is_broadcast:
  assumes "status s = Running" and "accepts s tunnelSock = []" and "\<not> gimped s"
    and "incoming serverSock s = chat_packet what m @ rest" and "full_line m" and "m ! 0 = 39"
  shows "sent (ts_iter s) tunnelSock = sent s tunnelSock @ chat_packet what m
    \<and> sent (ts_iter s) serverSock = sent s serverSock"
proof -
  have id: "toMCString m = m" using assms(5) by (simp add: full_line_def toMCString_id)
  have "cleanString (map (indet s) [0 ..< 64]) m (indet s 64) ! 0 = 0"
    using assms(5) by (rule cleanString_full_line) simp
  then have "ts_iter s = sendMessage what m (after_chat s)"
    using assms(3) by (simp add: ts_iter_line [OF assms(1,4)] id del: upt_Suc)
  then show ?thesis
    using assms(2) by (simp add: after_chat_eq sendMessage_open sip_def emit_def message_def chat_packet_def)
qed

definition long_tell :: "byte list" where
  "long_tell = 39 # replicate 63 97"

theorem full_command_line_is_broadcast_witness:
  "sent (ts_iter (client_sends (chat_packet 0 long_tell))) tunnelSock = chat_packet 0 long_tell"
proof -
  have "full_line long_tell" "long_tell ! 0 = 39"
    by (simp_all add: long_tell_def full_line_def single_spaced_def list_all_iff nth_Cons')
  with full_command_line_is_broadcast [of "client_sends (chat_packet 0 long_tell)" 0 long_tell "[]"]
  show ?thesis by (simp add: client_sends_simps)
qed

end
