(* ===== verification/Building.thy ===== *)
theory Building
  imports Points ChatLine
begin

text \<open>
  The building commands from the line of chat to the last block: the client's thread takes
  the command and the two points, the builder works the box.
\<close>

lemma iterate_3: "iterate f (Suc (Suc (Suc 0))) s = f (f (f s))"
  by simp

text \<open>The command \<open>z\<close> without a block.\<close>

definition z_ready :: "world \<Rightarrow> world" where
  "z_ready s = s\<lparr>points := 0, zPlace := True,
     cuboid := (cuboid s)\<lparr>q_halt := False, q_place := True, q_type := 0, q_getBlock := True\<rparr>\<rparr>"

lemma commandFunc_z:
  assumes "status s = Running" "accepts s serverSock = []"
  shows "commandFunc (lit ''z'') s
    = (True, emit serverSock (message 0 (tag @ lit ''z: Place two points.'')) (z_ready s))"
proof -
  have "commandFunc (lit ''z'') s = cmd_z [] s"
    using assms by (simp add: commandFunc_def strcmp0_def lit_def tokens.simps argument_commands_def)
  also have "\<dots> = (True, emit serverSock (message 0 (tag @ lit ''z: Place two points.'')) (z_ready s))"
    using assms by (simp add: cmd_z_def say_def tunnelMsg_open emit_def z_ready_def)
  finally show ?thesis .
qed

lemma plain_z: "plain_line (lit ''z'')"
  by (simp add: plain_line_def lit_def single_spaced_def)

text \<open>The box the two blocks span, to be filled with the kind of the second.\<close>

definition box :: "cuboid_t \<Rightarrow> u16 \<times> u16 \<times> u16 \<Rightarrow> u16 \<times> u16 \<times> u16 \<Rightarrow> byte \<Rightarrow> cuboid_t" where
  "box q p1 p2 b = (case (p1, p2) of ((x1, y1, z1), (x2, y2, z2)) \<Rightarrow>
     q\<lparr>q_x1 := x1, q_y1 := y1, q_z1 := z1, q_x2 := x2, q_y2 := y2, q_z2 := z2, q_block := b\<rparr>)"

lemma z_starts_the_cuboid:
  assumes s: "open_net s" "\<not> ps_place (paste s)" "\<not> c_place (copy s)"
    and inp: "incoming serverSock s
      = chat_packet 0 (39 # lit ''z'') @ block_packet p1 m1 b1 @ block_packet p2 m2 b2 @ rest"
    and v: "under p1 s = Some v1" "under p2 s = Some v2"
  obtains t where "iterate ts_iter 3 s = t" "open_net t" "incoming serverSock t = rest"
    "cuboid t = (box (cuboid s) p1 p2 b2)\<lparr>q_place := False, q_start := True, q_halt := False,
       q_type := 0, q_getBlock := True\<rparr>"
    "sent t tunnelSock = sent s tunnelSock" "\<not> zPlace t" "points t = 0"
    "lmap t = lmap s" "lvlx t = lvlx s" "lvlz t = lvlz s" "hide t = hide s"
proof -
  obtain x1 y1 z1 where p1: "p1 = (x1, y1, z1)" by (metis prod_cases3)
  obtain x2 y2 z2 where p2: "p2 = (x2, y2, z2)" by (metis prod_cases3)
  have run: "status s = Running" "accepts s serverSock = []" using s by (simp_all add: open_net_def)
  have c: "accepts (after_chat s) = accepts s" "status (after_chat s) = status s"
    by (simp_all add: after_chat_eq sip_def)
  define u where "u = emit serverSock (message 0 (tag @ lit ''z: Place two points.'')) (z_ready (after_chat s))"
  have a: "ts_iter s = u"
    using ts_iter_command [OF run(1) inp plain_z] run
    by (simp add: commandFunc_z c u_def)
  have u: "only_cuboid u" "points u = 0" "incoming serverSock u
      = block_packet (x1, y1, z1) m1 b1 @ block_packet (x2, y2, z2) m2 b2 @ rest"
    "lmap u = lmap s" "lvlx u = lvlx s" "lvlz u = lvlz s" "hide u = hide s" "accepts u = accepts s"
    "sent u tunnelSock = sent s tunnelSock"
    "cuboid u = (cuboid s)\<lparr>q_halt := False, q_place := True, q_type := 0, q_getBlock := True\<rparr>"
    using s run inp
    by (simp_all add: u_def only_cuboid_def z_ready_def after_chat_eq emit_def sip_def chat_packet_def p1 p2)
  have u1: "under (x1, y1, z1) u = Some v1" using v under_cong [of u s] u by (simp add: p1)
  define w where "w = ts_iter u"
  note w_eq = w_def [unfolded first_point [OF u(1,2) u1 u(3)]]
  have w: "only_cuboid w" "points w = 1" "incoming serverSock w = block_packet (x2, y2, z2) m2 b2 @ rest"
    "lmap w = lmap s" "lvlx w = lvlx s" "lvlz w = lvlz s" "hide w = hide s" "accepts w = accepts s"
    "sent w tunnelSock = sent s tunnelSock"
    "cuboid w = (cuboid u)\<lparr>q_x1 := x1, q_y1 := y1, q_z1 := z1\<rparr>"
    using u by (simp_all add: w_eq only_cuboid_def emit_def sip_def block_packet_def)
  have u2: "under (x2, y2, z2) w = Some v2" using v under_cong [of w s] w by (simp add: p2)
  define t where "t = ts_iter w"
  note t_eq = t_def [unfolded second_point [OF w(1,2) u2 w(3)]]
  have "iterate ts_iter 3 s = t" by (simp add: a t_def w_def numeral_3_eq_3)
  moreover have "open_net t" "incoming serverSock t = rest" "sent t tunnelSock = sent s tunnelSock"
    "\<not> zPlace t" "points t = 0" "lmap t = lmap s" "lvlx t = lvlx s" "lvlz t = lvlz s" "hide t = hide s"
    using s w by (simp_all add: t_eq only_cuboid_def open_net_def emit_def sip_def block_packet_def)
  moreover have "cuboid t = (box (cuboid s) p1 p2 b2)\<lparr>q_place := False, q_start := True,
      q_halt := False, q_type := 0, q_getBlock := True\<rparr>"
    using u w by (simp add: t_eq emit_def sip_def box_def p1 p2)
  ultimately show thesis by (intro that)
qed

text \<open>
  C5: The command \<open>z\<close> and two blocks, from chat to building: the client's thread takes the
  three packets without passing anything on to the game server, and the builder then asks the
  game server for exactly those cells of the box between the two blocks that do not hold the
  second block's kind, in order, and finishes.
\<close>

theorem z_command_fills_the_box:
  assumes "open_net s" and "\<not> ps_place (paste s)" and "\<not> c_place (copy s)"
    and "incoming serverSock s
      = chat_packet 0 (39 # lit ''z'') @ block_packet p1 m1 b1 @ block_packet p2 m2 b2 @ rest"
    and "under p1 s = Some v1" and "under p2 s = Some v2" and "cuboid_small (box (cuboid s) p1 p2 b2)"
    and "list_all (\<lambda>c. cell_there s c \<noteq> None) (cuboid_cells (points_in_order (box (cuboid s) p1 p2 b2)))"
  shows "sent (iterate ts_iter 3 s) tunnelSock = sent s tunnelSock
    \<and> (\<exists>n t. iterate builder_step n (PollCuboid, iterate ts_iter 3 s) = (PollPaste, t)
      \<and> sent t tunnelSock = sent s tunnelSock
        @ concat (map (\<lambda>c. cell_request (box (cuboid s) p1 p2 b2) c (the (cell_there s c)))
            (cuboid_cells (points_in_order (box (cuboid s) p1 p2 b2))))
      \<and> hide t = hide s \<and> lmap t = lmap s \<and> status t = Running)"
proof -
  obtain t where it: "iterate ts_iter 3 s = t" and t: "open_net t"
    and q: "cuboid t = (box (cuboid s) p1 p2 b2)\<lparr>q_place := False, q_start := True, q_halt := False,
       q_type := 0, q_getBlock := True\<rparr>"
    and out: "sent t tunnelSock = sent s tunnelSock"
    and lv: "lmap t = lmap s" "lvlx t = lvlx s" "lvlz t = lvlz s" and hid: "hide t = hide s"
    by (rule z_starts_the_cuboid [OF assms(1-6)])
  have there: "cell_there t = cell_there s" by (rule cell_there_cong) (simp_all add: lv)
  have cells: "cuboid_cells (points_in_order (cuboid t)) = cuboid_cells (points_in_order (box (cuboid s) p1 p2 b2))"
    by (simp add: q cuboid_cells_def points_in_order_def)
  have req: "cell_request (cuboid t) = cell_request (box (cuboid s) p1 p2 b2)"
    by (simp add: fun_eq_iff q cell_request_def)
  have "q_start (cuboid t)" "q_type (cuboid t) = 0" "\<not> q_halt (cuboid t)" "cuboid_small (cuboid t)"
    using assms(7) by (simp_all add: q cuboid_small_def)
  from cuboid_jobs [OF t this] assms(8) show ?thesis
    by (simp add: it out there cells req hid lv) blast
qed

text \<open>A row of two cells in a 2 by 2 by 2 level; the second block is of kind 7.\<close>

definition z_stream :: "byte list" where
  "z_stream = chat_packet 0 (39 # lit ''z'') @ block_packet (1, 1, 1) 1 3 @ block_packet (0, 1, 1) 1 7 @ []"

definition z_world :: world where
  "z_world = (client_sends z_stream)\<lparr>lmap := [1, 2, 3, 4, 5, 6, 7, 8], lvlx := 2, lvly := 2,
     lvlz := 2, cuboid := zero_cuboid\<lparr>q_zlimit := True\<rparr>\<rparr>"

theorem z_command_fills_the_box_witness:
  "\<exists>n t. iterate builder_step n (PollCuboid, iterate ts_iter 3 z_world) = (PollPaste, t)
    \<and> sent t tunnelSock = [5, 0, 1, 0, 1, 0, 1, 1, 7]"
proof -
  let ?q = "box (cuboid z_world) (1, 1, 1) (0, 1, 1) 7"
  have q: "points_in_order ?q = ?q\<lparr>q_x1 := 0, q_x2 := 1\<rparr>"
    by (simp add: z_world_def box_def points_in_order_def ordered_def)
  have c: "cuboid_cells (points_in_order ?q) = [(0, 1, 1), (1, 1, 1)]"
    unfolding q by (simp add: cuboid_cells_def cells_def box_def upto.simps)
  have lv: "lmap z_world = [1, 2, 3, 4, 5, 6, 7, 8]" "lvlx z_world = 2" "lvlz z_world = 2"
    by (simp_all add: z_world_def)
  have t: "cell_there z_world (0, 1, 1) = Some 7" "cell_there z_world (1, 1, 1) = Some 8"
    "under (1, 1, 1) z_world = Some 8" "under (0, 1, 1) z_world = Some 7"
    by (simp_all add: cell_there_def under_def map_read_def calculateOffset_def lv)
  have "open_net z_world" "\<not> ps_place (paste z_world)" "\<not> c_place (copy z_world)" "cuboid_small ?q"
    by (simp_all add: z_world_def client_sends_def start_def open_net_def zero_paste_def zero_copy_def
        zero_cuboid_def cuboid_small_def box_def)
  moreover have "incoming serverSock z_world = chat_packet 0 (39 # lit ''z'')
      @ block_packet (1, 1, 1) 1 3 @ block_packet (0, 1, 1) 1 7 @ []"
    by (simp add: z_world_def client_sends_def z_stream_def)
  moreover have "cell_request ?q (0, 1, 1) 7 = []"
    "cell_request ?q (1, 1, 1) 8 = [5, 0, 1, 0, 1, 0, 1, 1, 7]"
    by (simp_all add: cell_request_def z_world_def box_def place_packet_def posbytes_def be16_def)
  moreover have "sent z_world tunnelSock = []" by (simp add: z_world_def client_sends_simps)
  ultimately show ?thesis
    using z_command_fills_the_box [of z_world "(1, 1, 1)" 1 3 "(0, 1, 1)" 1 7 "[]" 8 7] c t by auto
qed

theorem intercepted_blocks_are_awaited_witness:
  "\<exists>g. moves (boot z_world) g \<and> zPlace (wld g)
    \<and> (q_place (cuboid (wld g)) \<or> ps_place (paste (wld g)) \<or> c_place (copy (wld g)))"
proof -
  let ?g = "(boot z_world)\<lparr>wld := ts_iter (wld (boot z_world))\<rparr>"
  have m: "moves (boot z_world) ?g" by (rule one_more [OF none client_turn])
  have run: "status z_world = Running" "accepts z_world serverSock = []"
    by (simp_all add: z_world_def client_sends_simps)
  have "incoming serverSock z_world = chat_packet 0 (39 # lit ''z'')
      @ block_packet (1, 1, 1) 1 3 @ block_packet (0, 1, 1) 1 7"
    by (simp add: z_world_def client_sends_def z_stream_def)
  from ts_iter_command [OF run(1) this plain_z]
  have "zPlace (wld ?g)"
    using run by (simp add: boot_def commandFunc_z after_chat_eq sip_def emit_def z_ready_def)
  moreover have "points z_world = 0" "\<not> zPlace z_world"
    by (simp_all add: z_world_def client_sends_simps)
  ultimately show ?thesis using m intercepted_blocks_are_awaited [OF m] by blast
qed

section \<open>Two commands that wait at once\<close>

text \<open>
  C17: \<open>cancel\<close> forgets that \<open>z\<close> is waiting (\<open>cuboid.place\<close> stays set), and \<open>z\<close> and \<open>copy\<close>
  count their points in the same variable. A \<open>copy\<close> after a cancelled \<open>z\<close> therefore starts at
  its first block: that block is taken for the first point of the cuboid and for the second
  point of the copy, whose first point is whatever an earlier copy left.
\<close>

theorem cancelled_z_spoils_the_next_copy:
  assumes "open_net s" and "\<not> ps_place (paste s)" and "\<not> hide s"
    and "incoming serverSock s = block_packet (x, y, z) m b @ rest" and "under (x, y, z) s = Some v"
    and t: "t = ts_iter (snd (cmd_copy [name] (snd (cmd_cancel (snd (cmd_z [] s))))))"
  shows "c_start (copy t) \<and> \<not> zPlace t
    \<and> (c_x2 (copy t), c_y2 (copy t), c_z2 (copy t)) = (x, y, z)
    \<and> (c_x1 (copy t), c_y1 (copy t), c_z1 (copy t)) = (c_x1 (copy s), c_y1 (copy s), c_z1 (copy s))
    \<and> (q_x1 (cuboid t), q_y1 (cuboid t), q_z1 (cuboid t)) = (x, y, z) \<and> q_place (cuboid t)"
proof -
  define a where "a = snd (cmd_copy [name] (snd (cmd_cancel (snd (cmd_z [] s)))))"
  have a: "status a = Running" "accepts a serverSock = []" "incoming serverSock a = incoming serverSock s"
    "zPlace a" "q_place (cuboid a)" "c_place (copy a)" "\<not> ps_place (paste a)" "points a = 0"
    "lmap a = lmap s" "lvlx a = lvlx s" "lvlz a = lvlz s"
    "c_x1 (copy a) = c_x1 (copy s)" "c_y1 (copy a) = c_y1 (copy s)" "c_z1 (copy a) = c_z1 (copy s)"
    using assms by (simp_all add: a_def cmd_copy_def cmd_cancel_def cmd_z_def open_net_def say_def
        tunnelMsg_open emit_def copied_def remark_def Let_def)
  let ?p = "point_copy (ntohs x) (ntohs y) (ntohs z) (point_paste (ntohs x) (ntohs y) (ntohs z)
      (point_cuboid (ntohs x) (ntohs y) (ntohs z) b (sip serverSock 9 a)))"
  have p: "accepts ?p serverSock = []" "lmap ?p = lmap s" "lvlx ?p = lvlx s" "lvlz ?p = lvlz s"
    "copy ?p = (copy a)\<lparr>c_x2 := x, c_y2 := y, c_z2 := z, c_place := False, c_start := True\<rparr>"
    "cuboid ?p = (cuboid a)\<lparr>q_x1 := x, q_y1 := y, q_z1 := z\<rparr>" "\<not> zPlace ?p"
    using a by (simp_all add: point_cuboid_def point_paste_def point_copy_def sip_def say_def
        tunnelMsg_open emit_def)
  have "under (x, y, z) ?p = Some v" using assms(5) under_cong [of ?p s] p by simp
  note r = restore_block_open [OF p(1) this]
  have inp: "incoming serverSock a = block_packet (x, y, z) m b @ rest" using a assms(4) by simp
  have "t = restore_block (ntohs x) (ntohs y) (ntohs z) ?p"
    unfolding t a_def [symmetric] by (rule ts_iter_block [OF a(1) inp a(4)])
  then have "copy t = copy ?p" "cuboid t = cuboid ?p" "zPlace t = zPlace ?p"
    unfolding r by (simp_all add: emit_def del: accepts_emit)
  then show ?thesis using a p(5-7) by simp
qed

theorem cancelled_z_spoils_the_next_copy_witness:
  "c_start (copy (ts_iter (snd (cmd_copy [lit ''house''] (snd (cmd_cancel (snd (cmd_z []
     ((client_sends (block_packet (1, 0, 1) 1 3))\<lparr>lmap := [1, 2, 3, 4, 5, 6, 7, 8], lvlx := 2, lvlz := 2\<rparr>)))))))))"
proof -
  let ?s = "(client_sends (block_packet (1, 0, 1) 1 3))\<lparr>lmap := [1, 2, 3, 4, 5, 6, 7, 8], lvlx := 2, lvlz := 2\<rparr>"
  have "open_net ?s" "\<not> ps_place (paste ?s)" "\<not> hide ?s"
    by (simp_all add: client_sends_def start_def open_net_def zero_paste_def)
  moreover have "incoming serverSock ?s = block_packet (1, 0, 1) 1 3 @ []"
    by (simp add: client_sends_def)
  moreover have "under (1, 0, 1) ?s = Some 4"
    by (simp add: under_def map_read_def calculateOffset_def)
  ultimately show ?thesis using cancelled_z_spoils_the_next_copy by blast
qed

end
