(* ===== verification/ChunkCommands.thy ===== *)
theory ChunkCommands
  imports Building
begin

text \<open>
  \<open>copy\<close> and \<open>paste\<close> from the line of chat to the last block: the client's thread takes the
  commands and the points, the builder writes the file and later places it.
\<close>

section \<open>The command lines\<close>

text \<open>A name that fits: one word of at most 50 characters without a colour code.\<close>

definition chunk_name :: "byte list \<Rightarrow> bool" where
  "chunk_name a \<longleftrightarrow> a \<noteq> [] \<and> length a \<le> 50 \<and> 0 \<notin> set a \<and> 32 \<notin> set a \<and> 38 \<notin> set a"

lemma commandFunc_chunk:
  assumes "status s = Running" "chunk_name a"
  shows "commandFunc (lit ''copy '' @ a) s = cmd_copy [a] s"
    and "commandFunc (lit ''paste '' @ a) s = cmd_paste [a] s"
proof -
  have a: "cstr a = a" "tokens a = [a]"
    using assms(2) by (simp_all add: chunk_name_def cstr_no_nul tokens_word(1))
  have c: "cstr (lit ''copy '' @ a) = lit ''copy'' @ 32 # a" "cstr (lit ''paste '' @ a) = lit ''paste'' @ 32 # a"
    using a(1) by (simp_all add: lit_def cstr_def)
  have t: "tokens (lit ''copy'' @ 32 # a) = [lit ''copy'', a]" "tokens (lit ''paste'' @ 32 # a) = [lit ''paste'', a]"
    using tokens_word(2) [of "lit ''copy''" a] tokens_word(2) [of "lit ''paste''" a]
    by (simp_all add: a, simp_all add: lit_def)
  show "commandFunc (lit ''copy '' @ a) s = cmd_copy [a] s"
    using assms(1) by (simp add: commandFunc_def strcmp0_def c t) (simp add: lit_def argument_commands_def)
  show "commandFunc (lit ''paste '' @ a) s = cmd_paste [a] s"
    using assms(1) by (simp add: commandFunc_def strcmp0_def c t) (simp add: lit_def argument_commands_def)
qed

lemma plain_chunk:
  assumes "chunk_name a"
  shows "plain_line (lit ''copy '' @ a)" "plain_line (lit ''paste '' @ a)"
proof -
  have a: "a \<noteq> []" "hd a \<noteq> 32" "single_spaced a"
    using assms by (auto simp: chunk_name_def single_spaced_word dest: hd_in_set)
  then show "plain_line (lit ''copy '' @ a)" "plain_line (lit ''paste '' @ a)"
    using assms by (simp_all add: plain_line_def chunk_name_def lit_def single_spaced_Cons)
qed

section \<open>Two blocks make a chunk\<close>

text \<open>A placed block that is a point: the three parts of the code make \<open>t\<close> of the globals, and
  the client is shown the old block again.\<close>

lemma point_turn:
  assumes "status s = Running" and "zPlace s" and "accepts t serverSock = []"
    and "incoming serverSock s = block_packet (x, y, z) mode b @ rest" and "under (x, y, z) s = Some v"
    and "point_copy (ntohs x) (ntohs y) (ntohs z) (point_paste (ntohs x) (ntohs y) (ntohs z)
      (point_cuboid (ntohs x) (ntohs y) (ntohs z) b (sip serverSock 9 s))) = t"
    and "lmap t = lmap s" and "lvlx t = lvlx s" and "lvlz t = lvlz s"
  shows "ts_iter s = emit serverSock (restored (x, y, z) v) t"
proof -
  have "under (x, y, z) t = Some v" using assms(5,7-9) under_cong by metis
  from restore_block_open [OF assms(3) this] show ?thesis
    by (simp add: ts_iter_block [OF assms(1,4,2)] assms(6))
qed

definition only_copy :: "world \<Rightarrow> bool" where
  "only_copy s \<longleftrightarrow> status s = Running \<and> accepts s serverSock = [] \<and> zPlace s
     \<and> c_place (copy s) \<and> \<not> ps_place (paste s) \<and> \<not> q_place (cuboid s)"

lemma first_copy_point:
  assumes s: "only_copy s" "points s = 0" and v: "under (x, y, z) s = Some v"
    and inp: "incoming serverSock s = block_packet (x, y, z) mode b @ rest"
  shows "ts_iter s = emit serverSock (message 0 (tag @ lit ''copy: First point.'') @ restored (x, y, z) v)
    ((sip serverSock 9 s)\<lparr>copy := (copy s)\<lparr>c_x1 := x, c_y1 := y, c_z1 := z\<rparr>, points := 1\<rparr>)"
proof -
  let ?t = "emit serverSock (message 0 (tag @ lit ''copy: First point.''))
    ((sip serverSock 9 s)\<lparr>copy := (copy s)\<lparr>c_x1 := x, c_y1 := y, c_z1 := z\<rparr>, points := 1\<rparr>)"
  have "ts_iter s = emit serverSock (restored (x, y, z) v) ?t"
    by (rule point_turn [OF _ _ _ inp v])
      (use s in \<open>simp_all add: only_copy_def point_cuboid_def point_paste_def point_copy_def
        sip_def emit_def say_def tunnelMsg_open\<close>)
  then show ?thesis by simp
qed

lemma second_copy_point:
  assumes s: "only_copy s" "points s = 1" and v: "under (x, y, z) s = Some v"
    and inp: "incoming serverSock s = block_packet (x, y, z) mode b @ rest"
  shows "ts_iter s = emit serverSock (message 0 (tag @ lit ''copy: Second point, copying'') @ restored (x, y, z) v)
    ((sip serverSock 9 s)\<lparr>copy := (copy s)\<lparr>c_x2 := x, c_y2 := y, c_z2 := z, c_place := False,
       c_start := True\<rparr>, points := 0, zPlace := False\<rparr>)"
proof -
  let ?t = "emit serverSock (message 0 (tag @ lit ''copy: Second point, copying''))
    ((sip serverSock 9 s)\<lparr>copy := (copy s)\<lparr>c_x2 := x, c_y2 := y, c_z2 := z, c_place := False,
       c_start := True\<rparr>, points := 0, zPlace := False\<rparr>)"
  have "ts_iter s = emit serverSock (restored (x, y, z) v) ?t"
    by (rule point_turn [OF _ _ _ inp v])
      (use s in \<open>simp_all add: only_copy_def point_cuboid_def point_paste_def point_copy_def
        sip_def emit_def say_def tunnelMsg_open\<close>)
  then show ?thesis by simp
qed

lemma paste_point:
  assumes "status s = Running" "accepts s serverSock = []" "zPlace s" "ps_place (paste s)"
    and "\<not> c_place (copy s)" "\<not> q_place (cuboid s)"
    and v: "under (x, y, z) s = Some v" and inp: "incoming serverSock s = block_packet (x, y, z) mode b @ rest"
  obtains f r where "ts_iter s = (sip serverSock 9 s)\<lparr>remarks := r, sent := (sent s)(serverSock := f),
    paste := (paste s)\<lparr>ps_x := x, ps_y := y, ps_z := z, ps_place := False, ps_start := True\<rparr>, zPlace := False\<rparr>"
proof -
  let ?a = "(sip serverSock 9 s)\<lparr>paste := (paste s)\<lparr>ps_x := x, ps_y := y, ps_z := z\<rparr>\<rparr>"
  have "accepts ?a serverSock = []" using assms(2) by (simp add: sip_def)
  then obtain f r where say: "sayf (tag @ lit ''paste: pasting '' @ cstr (ps_chunkName (paste s))) ?a
      = ?a\<lparr>remarks := r, sent := (sent ?a)(serverSock := f)\<rparr>"
    by (rule sayf_open)
  let ?t = "?a\<lparr>remarks := r, sent := (sent ?a)(serverSock := f),
    paste := (paste s)\<lparr>ps_x := x, ps_y := y, ps_z := z, ps_place := False, ps_start := True\<rparr>, zPlace := False\<rparr>"
  have part: "point_paste (ntohs x) (ntohs y) (ntohs z) (sip serverSock 9 s) = ?t"
    using assms(4) say by (simp add: point_paste_def sip_def)
  have "ts_iter s = emit serverSock (restored (x, y, z) v) ?t"
    by (rule point_turn [OF _ _ _ inp v])
      (use assms(1-6) part in \<open>simp_all add: point_cuboid_def point_copy_def sip_def\<close>)
  then show thesis
    by (intro that [of "f @ restored (x, y, z) v" r]) (simp add: emit_def sip_def)
qed

text \<open>The copy that the command and its two blocks ask for.\<close>

definition spanned :: "copy_t \<Rightarrow> byte list \<Rightarrow> u16 \<times> u16 \<times> u16 \<Rightarrow> u16 \<times> u16 \<times> u16 \<Rightarrow> copy_t" where
  "spanned c a p1 p2 = (case (p1, p2) of ((x1, y1, z1), (x2, y2, z2)) \<Rightarrow>
     c\<lparr>c_x1 := x1, c_y1 := y1, c_z1 := z1, c_x2 := x2, c_y2 := y2, c_z2 := z2,
       c_chunkName := chunk_path a, c_place := False, c_start := True, c_halt := False\<rparr>)"

lemma chunk_path_fits: "chunk_name a \<Longrightarrow> copied 64 (Suc (length (chunk_path a))) s = s"
  by (simp add: copied_def chunk_path_def lit_def chunk_name_def)

lemma copy_starts:
  assumes s: "open_net s" "\<not> ps_place (paste s)" "\<not> q_place (cuboid s)" and a: "chunk_name a"
    and inp: "incoming serverSock s
      = chat_packet 0 (39 # lit ''copy '' @ a) @ block_packet p1 m1 b1 @ block_packet p2 m2 b2 @ rest"
    and v: "under p1 s = Some v1" "under p2 s = Some v2"
  obtains t where "iterate ts_iter 3 s = t" "open_net t" "incoming serverSock t = rest"
    "copy t = spanned (copy s) a p1 p2" "sent t tunnelSock = sent s tunnelSock" "\<not> zPlace t"
    "lmap t = lmap s" "lvlx t = lvlx s" "lvlz t = lvlz s" "paste t = paste s" "cuboid t = cuboid s"
    "files t = files s" "creatable t = creatable s"
proof -
  obtain x1 y1 z1 where p1: "p1 = (x1, y1, z1)" by (metis prod_cases3)
  obtain x2 y2 z2 where p2: "p2 = (x2, y2, z2)" by (metis prod_cases3)
  have run: "status s = Running" "accepts s serverSock = []" using s by (simp_all add: open_net_def)
  have c: "status (after_chat s) = Running" using run by (simp add: after_chat_eq sip_def)
  define u where "u = (after_chat s)\<lparr>copy := (copy s)\<lparr>c_chunkName := chunk_path a, c_halt := False,
    c_place := True\<rparr>, points := 0, zPlace := True\<rparr>"
  have "commandFunc (lit ''copy '' @ a) (after_chat s) = (True, u)"
    using commandFunc_chunk(1) [OF c a] chunk_path_fits [OF a, of "after_chat s"]
    by (simp add: cmd_copy_def u_def after_chat_eq sip_def)
  then have step: "ts_iter s = u"
    using ts_iter_command [OF run(1) inp plain_chunk(1) [OF a]] by simp
  have u: "only_copy u" "points u = 0" "incoming serverSock u
      = block_packet (x1, y1, z1) m1 b1 @ block_packet (x2, y2, z2) m2 b2 @ rest"
    "lmap u = lmap s" "lvlx u = lvlx s" "lvlz u = lvlz s" "accepts u = accepts s" "sent u = sent s"
    "paste u = paste s" "cuboid u = cuboid s" "files u = files s" "creatable u = creatable s"
    "copy u = (copy s)\<lparr>c_chunkName := chunk_path a, c_halt := False, c_place := True\<rparr>"
    using s run inp by (simp_all add: u_def only_copy_def after_chat_eq sip_def chat_packet_def p1 p2)
  have u1: "under (x1, y1, z1) u = Some v1" using v under_cong [of u s] u by (simp add: p1)
  define w where "w = ts_iter u"
  note w_eq = w_def [unfolded first_copy_point [OF u(1,2) u1 u(3)]]
  have w: "only_copy w" "points w = 1" "incoming serverSock w = block_packet (x2, y2, z2) m2 b2 @ rest"
    "lmap w = lmap s" "lvlx w = lvlx s" "lvlz w = lvlz s" "accepts w = accepts s"
    "sent w tunnelSock = sent s tunnelSock"
    "paste w = paste s" "cuboid w = cuboid s" "files w = files s" "creatable w = creatable s"
    "copy w = (copy u)\<lparr>c_x1 := x1, c_y1 := y1, c_z1 := z1\<rparr>"
    using u by (simp_all add: w_eq only_copy_def emit_def sip_def block_packet_def)
  have u2: "under (x2, y2, z2) w = Some v2" using v under_cong [of w s] w by (simp add: p2)
  define t where "t = ts_iter w"
  note t_eq = t_def [unfolded second_copy_point [OF w(1,2) u2 w(3)]]
  have "iterate ts_iter 3 s = t" by (simp add: step t_def w_def numeral_3_eq_3)
  moreover have "open_net t" "incoming serverSock t = rest" "sent t tunnelSock = sent s tunnelSock"
    "\<not> zPlace t" "lmap t = lmap s" "lvlx t = lvlx s" "lvlz t = lvlz s" "paste t = paste s"
    "cuboid t = cuboid s" "files t = files s" "creatable t = creatable s"
    using s w by (simp_all add: t_eq only_copy_def open_net_def emit_def sip_def block_packet_def)
  moreover have "copy t = spanned (copy s) a p1 p2"
    using u(13) w(13) by (simp add: t_eq emit_def sip_def spanned_def p1 p2)
  ultimately show thesis by (intro that)
qed

lemma paste_starts:
  assumes s: "open_net s" "\<not> c_place (copy s)" "\<not> q_place (cuboid s)" and a: "chunk_name a"
    and inp: "incoming serverSock s
      = chat_packet 0 (39 # lit ''paste '' @ a) @ block_packet (x, y, z) m b @ rest"
    and v: "under (x, y, z) s = Some v"
  obtains t where "iterate ts_iter 2 s = t" "open_net t" "incoming serverSock t = rest"
    "paste t = (paste s)\<lparr>ps_x := x, ps_y := y, ps_z := z, ps_chunkName := chunk_path a,
       ps_place := False, ps_start := True\<rparr>"
    "sent t tunnelSock = sent s tunnelSock" "\<not> zPlace t" "files t = files s"
proof -
  have run: "status s = Running" "accepts s serverSock = []" using s by (simp_all add: open_net_def)
  have c: "status (after_chat s) = Running" using run by (simp add: after_chat_eq sip_def)
  define u where "u = (after_chat s)\<lparr>paste := (paste s)\<lparr>ps_chunkName := chunk_path a, ps_place := True\<rparr>,
    zPlace := True\<rparr>"
  have "commandFunc (lit ''paste '' @ a) (after_chat s) = (True, u)"
    using commandFunc_chunk(2) [OF c a] chunk_path_fits [OF a, of "after_chat s"]
    by (simp add: cmd_paste_def u_def after_chat_eq sip_def)
  then have step: "ts_iter s = u"
    using ts_iter_command [OF run(1) inp plain_chunk(2) [OF a]] by simp
  have u: "status u = Running" "accepts u serverSock = []" "zPlace u" "ps_place (paste u)"
    "\<not> c_place (copy u)" "\<not> q_place (cuboid u)"
    "incoming serverSock u = block_packet (x, y, z) m b @ rest"
    "lmap u = lmap s" "lvlx u = lvlx s" "lvlz u = lvlz s" "sent u = sent s" "files u = files s"
    "accepts u = accepts s"
    "paste u = (paste s)\<lparr>ps_chunkName := chunk_path a, ps_place := True\<rparr>"
    using s run inp by (simp_all add: u_def after_chat_eq sip_def chat_packet_def)
  have "under (x, y, z) u = Some v" using v under_cong [of u s] u by simp
  from u(1-6) this u(7) obtain f r where t: "ts_iter u = (sip serverSock 9 u)\<lparr>remarks := r,
    sent := (sent u)(serverSock := f), paste := (paste u)\<lparr>ps_x := x, ps_y := y, ps_z := z,
      ps_place := False, ps_start := True\<rparr>, zPlace := False\<rparr>"
    by (rule paste_point)
  have "iterate ts_iter 2 s = ts_iter u" by (simp add: step numeral_2_eq_2)
  moreover have "open_net (ts_iter u)" "incoming serverSock (ts_iter u) = rest"
    "paste (ts_iter u) = (paste s)\<lparr>ps_x := x, ps_y := y, ps_z := z, ps_chunkName := chunk_path a,
       ps_place := False, ps_start := True\<rparr>"
    "sent (ts_iter u) tunnelSock = sent s tunnelSock" "\<not> zPlace (ts_iter u)" "files (ts_iter u) = files s"
    using s(1) u by (simp_all add: t open_net_def sip_def block_packet_def)
  ultimately show thesis by (intro that)
qed

section \<open>From the chat to the blocks\<close>

text \<open>
  C6: \<open>copy\<close> and \<open>paste\<close>, from chat to building: the client's thread takes the command \<open>copy\<close>
  with a name and two blocks, the builder saves the box between them, the client's thread takes
  \<open>paste\<close> with the name and a third block, and the builder asks the game server for each block
  of the box that is not air, at the same place relative to the third block. Neither the
  commands nor the three points reach the game server.
\<close>

theorem copy_and_paste_commands:
  assumes "open_net s" and "\<not> q_place (cuboid s)" and "\<not> ps_place (paste s)" and "\<not> ps_halt (paste s)"
    and "incoming serverSock s = chat_packet 0 (39 # lit ''copy '' @ a) @ block_packet p1 m1 b1
      @ block_packet p2 m2 b2 @ chat_packet 0 (39 # lit ''paste '' @ a) @ block_packet (x, y, z) m3 b3 @ rest"
    and "chunk_name a" and "creatable s (chunk_path a)"
    and "under p1 s = Some v1" and "under p2 s = Some v2" and "under (x, y, z) s = Some v3"
    and "copy_small (spanned (copy s) a p1 p2)" and "copy_in_order (spanned (copy s) a p1 p2) = c"
    and "chunk_extents c = (ux, uy, uz)" and "length (copy_cells c) \<le> 8994"
    and "list_all (\<lambda>e. cell_there s e \<noteq> None) (copy_cells c)"
    and "fits x ux" and "fits y uy" and "fits z uz"
  shows "\<exists>n s' m s''. iterate builder_step n (PollCopy, iterate ts_iter 3 s) = (PollCuboid, s')
    \<and> iterate builder_step m (PollPaste, iterate ts_iter 2 s') = (PollCopy, s'')
    \<and> sent s'' tunnelSock = sent s tunnelSock
        @ concat (map (\<lambda>e. paste_request (moved c x y z e) (the (cell_there s e))) (copy_cells c))"
proof -
  have path: "cstr (chunk_path a) = chunk_path a"
    using assms(6) by (intro cstr_no_nul) (simp add: chunk_path_def lit_def chunk_name_def)
  obtain t where t: "iterate ts_iter 3 s = t" "open_net t"
    "incoming serverSock t = chat_packet 0 (39 # lit ''paste '' @ a) @ block_packet (x, y, z) m3 b3 @ rest"
    "copy t = spanned (copy s) a p1 p2" "sent t tunnelSock = sent s tunnelSock" "\<not> zPlace t"
    "lmap t = lmap s" "lvlx t = lvlx s" "lvlz t = lvlz s" "paste t = paste s" "cuboid t = cuboid s"
    "files t = files s" "creatable t = creatable s"
    by (rule copy_starts [OF assms(1,3,2,6,5,8,9)])
  have there: "cell_there t = cell_there s" by (rule cell_there_cong) (simp_all add: t)
  have flags: "c_start (copy t)" "\<not> c_place (copy t)" "c_chunkName (copy t) = chunk_path a"
    by (simp_all add: t spanned_def case_prod_beta)
  have sane: "copy_sane c" using copy_sane_ordered [OF assms(11)] assms(12) by simp
  let ?bytes = "map (\<lambda>e. the (cell_there s e)) (copy_cells c)"
  have "copy_small (copy t)" "copy_in_order (copy t) = c" using assms(11,12) by (simp_all add: t)
  from copy_ends [OF t(2) flags(1) this assms(13) chunk_volume(5) [OF sane assms(13,14)] _ refl]
  obtain n s' where n: "iterate builder_step n (PollCopy, t) = (PollCuboid, s')"
    and f: "files s' (chunk_path a) = Some (chunk_file ux uy uz ?bytes)"
    and s': "sent s' tunnelSock = sent s tunnelSock" "paste s' = paste s" "open_net s'" "still t s'" "lmap s' = lmap s"
    using assms(7,15) by (auto simp: there flags(3) path t(5,7,10,12,13))
  have "under (x, y, z) s' = Some v3"
    using assms(10) under_cong [of s' s] s' by (simp add: still_def t)
  moreover have "incoming serverSock s' = incoming serverSock t" "\<not> c_place (copy s')" "\<not> q_place (cuboid s')"
    using s'(4) flags(2) assms(2) by (simp_all add: still_def t(11))
  ultimately obtain u where u: "iterate ts_iter 2 s' = u" "open_net u"
    "paste u = (paste s')\<lparr>ps_x := x, ps_y := y, ps_z := z, ps_chunkName := chunk_path a,
       ps_place := False, ps_start := True\<rparr>"
    "sent u tunnelSock = sent s' tunnelSock" "files u = files s'"
    using paste_starts [OF s'(3) _ _ assms(6)] t(3) by metis
  have "ps_start (paste u)" "\<not> ps_halt (paste u)"
    "files u (cstr (ps_chunkName (paste u))) = Some (chunk_file ux uy uz ?bytes)"
    using u(3,5) s'(2) f assms(4) by (simp_all add: path)
  from paste_copied [OF u(2) this(1,2) sane assms(13,14) this(3)] assms(16-18)
  obtain m s'' where "iterate builder_step m (PollPaste, u) = (PollCopy, s'')"
    "sent s'' tunnelSock = sent s tunnelSock
      @ concat (map (\<lambda>e. paste_request (moved c x y z e) (the (cell_there s e))) (copy_cells c))"
    using u(3,4) s'(1) by auto
  with n t(1) u(1) show ?thesis by blast
qed

text \<open>Two cells of a 2 by 2 by 2 level, one of them air, are copied and pasted a level higher.\<close>

definition chunk_stream :: "byte list" where
  "chunk_stream = chat_packet 0 (39 # lit ''copy '' @ lit ''a'') @ block_packet (1, 0, 0) 1 3
     @ block_packet (0, 0, 0) 1 7 @ chat_packet 0 (39 # lit ''paste '' @ lit ''a'')
     @ block_packet (0, 1, 0) 1 3 @ []"

definition chunk_world :: world where
  "chunk_world = (client_sends chunk_stream)\<lparr>lmap := [0, 9, 3, 4, 5, 6, 7, 8], lvlx := 2, lvly := 2,
     lvlz := 2\<rparr>"

theorem copy_and_paste_commands_witness:
  "\<exists>n s' m s''. iterate builder_step n (PollCopy, iterate ts_iter 3 chunk_world) = (PollCuboid, s')
    \<and> iterate builder_step m (PollPaste, iterate ts_iter 2 s') = (PollCopy, s'')
    \<and> sent s'' tunnelSock = [8, 255, 0, 32, 0, 32, 0, 0, 0, 0, 5, 0, 1, 0, 1, 0, 0, 1, 9]"
proof -
  let ?c = "spanned (copy chunk_world) (lit ''a'') (0, 0, 0) (1, 0, 0)"
  have cp: "copy chunk_world = zero_copy" by (simp add: chunk_world_def client_sends_def start_def)
  have lv: "lmap chunk_world = [0, 9, 3, 4, 5, 6, 7, 8]" "lvlx chunk_world = 2" "lvlz chunk_world = 2"
    by (simp_all add: chunk_world_def)
  have c: "copy_in_order (spanned (copy chunk_world) (lit ''a'') (1, 0, 0) (0, 0, 0)) = ?c"
    "copy_small (spanned (copy chunk_world) (lit ''a'') (1, 0, 0) (0, 0, 0))"
    "chunk_extents ?c = (2, 1, 1)" "copy_cells ?c = [(0, 0, 0), (1, 0, 0)]"
    by (simp_all add: spanned_def cp zero_copy_def copy_in_order_def ordered_def copy_small_def
        chunk_extents_def extent_def copy_cells_def cells_def upto.simps)
  have there: "cell_there chunk_world (0, 0, 0) = Some 0" "cell_there chunk_world (1, 0, 0) = Some 9"
    "under (1, 0, 0) chunk_world = Some 9" "under (0, 0, 0) chunk_world = Some 0"
    "under (0, 1, 0) chunk_world = Some 5"
    by (simp_all add: cell_there_def under_def map_read_def calculateOffset_def lv)
  have "open_net chunk_world" "\<not> q_place (cuboid chunk_world)" "\<not> ps_place (paste chunk_world)"
    "\<not> ps_halt (paste chunk_world)" "creatable chunk_world p" for p
    by (simp_all add: chunk_world_def client_sends_def start_def open_net_def zero_paste_def zero_cuboid_def)
  have "incoming serverSock chunk_world = chat_packet 0 (39 # lit ''copy '' @ lit ''a'')
     @ block_packet (1, 0, 0) 1 3 @ block_packet (0, 0, 0) 1 7
     @ chat_packet 0 (39 # lit ''paste '' @ lit ''a'') @ block_packet (0, 1, 0) 1 3 @ []"
    by (simp add: chunk_world_def client_sends_def chunk_stream_def)
  have "chunk_name (lit ''a'')" by (simp add: chunk_name_def lit_def)
  have "length (copy_cells ?c) \<le> 8994" "list_all (\<lambda>e. cell_there chunk_world e \<noteq> None) (copy_cells ?c)"
    by (simp_all add: c(4) there)
  have "fits 0 2" "fits 1 1" "fits 0 1" by (simp_all add: fits_def)
  have "\<exists>n s' m s''. iterate builder_step n (PollCopy, iterate ts_iter 3 chunk_world) = (PollCuboid, s')
    \<and> iterate builder_step m (PollPaste, iterate ts_iter 2 s') = (PollCopy, s'')
    \<and> sent s'' tunnelSock = sent chunk_world tunnelSock
      @ concat (map (\<lambda>e. paste_request (moved ?c 0 1 0 e) (the (cell_there chunk_world e))) (copy_cells ?c))"
    by (rule copy_and_paste_commands [of chunk_world "lit ''a''" "(1, 0, 0)" 1 3 "(0, 0, 0)" 1 7 0 1 0 1 3
        "[]" 9 0 5 ?c 2 1 1]) fact+
  then obtain n s' m s'' where r:
    "iterate builder_step n (PollCopy, iterate ts_iter 3 chunk_world) = (PollCuboid, s')"
    "iterate builder_step m (PollPaste, iterate ts_iter 2 s') = (PollCopy, s'')"
    "sent s'' tunnelSock = sent chunk_world tunnelSock
      @ concat (map (\<lambda>e. paste_request (moved ?c 0 1 0 e) (the (cell_there chunk_world e))) (copy_cells ?c))"
    by blast
  have "sent chunk_world tunnelSock = []" by (simp add: chunk_world_def client_sends_simps)
  moreover have "moved ?c 0 1 0 (0, 0, 0) = (0, 1, 0)" "moved ?c 0 1 0 (1, 0, 0) = (1, 1, 0)"
    by (simp_all add: moved_def spanned_def)
  ultimately have "sent s'' tunnelSock = [8, 255, 0, 32, 0, 32, 0, 0, 0, 0, 5, 0, 1, 0, 1, 0, 0, 1, 9]"
    by (simp add: r(3) c(4) there paste_request_def move_packet_def place_packet_def posbytes_def be16_def)
  with r show ?thesis by blast
qed

end
