(* ===== verification/StartupProps.thy ===== *)
theory StartupProps
  imports Startup FromServer
begin

text \<open>
  What the start-up code makes of its files: the connection it saves is the one it reads back,
  the lines of the gimp file and the names of the ignore file reach their rows.
\<close>

section \<open>Text files\<close>

lemma text_in_plain: "26 \<notin> set bs \<Longrightarrow> 13 \<notin> set bs \<Longrightarrow> text_in bs = bs"
  by (induction bs rule: text_in.induct) auto

lemma text_in_13: "text_in (13 # 10 # r) = text_in (10 # r)"
  by simp

lemma text_in_Cons: "c \<noteq> 26 \<Longrightarrow> c \<noteq> 13 \<Longrightarrow> text_in (c # r) = c # text_in r"
  by (cases r) simp_all

lemma text_in_out: "26 \<notin> set bs \<Longrightarrow> 13 \<notin> set bs \<Longrightarrow> text_in (text_out bs) = bs"
proof (induction bs)
  case (Cons c bs)
  then have ih: "text_in (text_out bs) = bs" by simp
  show ?case
  proof (cases "c = 10")
    case True
    have "text_out (c # bs) = 13 # 10 # text_out bs" by (simp add: text_out_def True)
    then show ?thesis using ih True by (simp add: text_in_Cons)
  next
    case False
    have "text_out (c # bs) = c # text_out bs" by (simp add: text_out_def False)
    then show ?thesis using ih Cons.prems by (simp add: text_in_Cons)
  qed
qed (simp add: text_out_def)

text \<open>A word: some characters, none of them a space, a NUL or the end of a text file.\<close>

definition wordy :: "byte list \<Rightarrow> bool" where
  "wordy w \<longleftrightarrow> w \<noteq> [] \<and> list_all (\<lambda>c. \<not> isspace c \<and> c \<noteq> 0 \<and> c \<noteq> 26) w"

lemma wordy_parts:
  "wordy w \<Longrightarrow> w \<noteq> [] \<and> \<not> isspace (hd w) \<and> (\<forall>c \<in> set w. \<not> isspace c) \<and> 0 \<notin> set w \<and> 26 \<notin> set w \<and> 13 \<notin> set w"
proof -
  assume "wordy w"
  then have "\<forall>c \<in> set w. \<not> isspace c \<and> c \<noteq> 0 \<and> c \<noteq> 26" "w \<noteq> []"
    by (simp_all add: wordy_def list_all_iff)
  moreover have "isspace 13" by (simp add: isspace_def)
  ultimately show ?thesis by (metis hd_in_set)
qed

lemma takeWhile_word:
  assumes "\<forall>c \<in> set w. \<not> isspace c" "f = [] \<or> isspace (hd f)"
  shows "takeWhile (\<lambda>c. \<not> isspace c) (w @ f) = w" "dropWhile (\<lambda>c. \<not> isspace c) (w @ f) = f"
  using assms by (induction w; cases f; auto)+

lemma scan_word_line:
  assumes "wordy w" "f = [] \<or> isspace (hd f)"
  shows "scan_word (w @ f) = (Some w, dropWhile isspace f)"
proof -
  note p = wordy_parts [OF assms(1)]
  then have "dropWhile isspace (w @ f) = w @ f" by (cases w) simp_all
  with p show ?thesis
    using takeWhile_word [of w f] assms(2) by (simp add: scan_word_def)
qed

lemma isspace_10: "isspace 10"
  by (simp add: isspace_def)

lemma skip_to_word: "wordy v \<Longrightarrow> dropWhile isspace (10 # v @ r) = v @ r"
  using wordy_parts [of v] isspace_10 by (cases v) auto

lemma wordy_no_newline: "wordy w \<Longrightarrow> 10 \<notin> set w"
  using wordy_parts [of w] isspace_10 by blast

lemma scan_word_end: "list_all isspace f \<Longrightarrow> scan_word f = (None, [])"
  by (simp add: scan_word_def list_all_iff dropWhile_eq_Nil_conv)

lemma store_word_cstr: "0 \<notin> set w \<Longrightarrow> cstr (store_word (Some w) buf) = w"
  by (simp add: store_word_def put_at_0 cstr_append cstr_no_nul)

section \<open>Decimals\<close>

lemma digits_val_snoc: "digits_val (ds @ [c]) = 10 * digits_val ds + (uint c - 48)"
  by (simp add: digits_val_def)

lemma digit_word:
  "d < 10 \<Longrightarrow> uint (of_nat (48 + d) :: byte) = 48 + int d"
  "d < 10 \<Longrightarrow> digit (of_nat (48 + d))"
proof -
  have all: "list_all (\<lambda>d. uint (of_nat (48 + d) :: byte) = 48 + int d \<and> digit (of_nat (48 + d))) [0 ..< 10]"
    by (simp add: digit_def upt_rec)
  show "uint (of_nat (48 + d) :: byte) = 48 + int d" "digit (of_nat (48 + d))" if "d < 10"
    using all that unfolding list_all_iff by auto
qed

lemma dec_nat_digits: "list_all digit (dec_nat n) \<and> dec_nat n \<noteq> [] \<and> digits_val (dec_nat n) = int n"
proof (induction n rule: dec_nat.induct)
  case (1 n)
  show ?case
  proof (cases "n < 10")
    case True
    then have "dec_nat n = [of_nat (48 + n)]" by (subst dec_nat.simps) simp
    with True show ?thesis by (simp add: digits_val_def digit_word [of n] del: of_nat_add)
  next
    case False
    then have "dec_nat n = dec_nat (n div 10) @ [of_nat (48 + n mod 10)]"
      by (subst dec_nat.simps) simp
    moreover have "10 * int (n div 10) + int (n mod 10) = int n"
      by (metis mult_div_mod_eq of_nat_add of_nat_mult of_nat_numeral)
    ultimately show ?thesis
      using 1 False digit_word [of "n mod 10"] by (simp add: digits_val_snoc del: of_nat_add)
  qed
qed

lemma digit_not_sign: "digit c \<Longrightarrow> c \<noteq> 45 \<and> c \<noteq> 43 \<and> \<not> isspace c \<and> c \<noteq> 0 \<and> c \<noteq> 26"
  by (auto simp: digit_def isspace_def word_le_nat_alt)

lemma takeWhile_digits:
  assumes "list_all digit ds"
  shows "takeWhile digit (ds @ 10 # r) = ds" "dropWhile digit (ds @ 10 # r) = 10 # r"
  using assms by (induction ds) (auto simp: digit_def)

lemma scan_int_line:
  assumes "- (2 ^ 31) \<le> n" "n < 2 ^ 31"
  shows "scan_int (dec n @ 10 # r) = (Some n, dropWhile isspace r)"
proof -
  let ?ds = "dec_nat (nat (if n < 0 then - n else n))"
  have ds: "list_all digit ?ds" "?ds \<noteq> []" "digits_val ?ds = \<bar>n\<bar>"
    using dec_nat_digits [of "nat (if n < 0 then - n else n)"] by auto
  then obtain c t where ct: "?ds = c # t" "digit c" by (cases ?ds) auto
  have fit: "sint (word_of_int n :: i32) = n"
    using assms by (simp add: sint_sbintrunc' signed_take_bit_int_eq_self)
  have ten: "isspace 10" by (simp add: isspace_def)
  show ?thesis
  proof (cases "n < 0")
    case True
    then have "dec n @ 10 # r = 45 # ?ds @ 10 # r" by (simp add: dec_def)
    moreover have "\<not> isspace 45" by (simp add: isspace_def)
    ultimately show ?thesis
      using ds takeWhile_digits [OF ds(1)] fit ten True by (simp add: scan_int_def)
  next
    case False
    then have eq: "dec n @ 10 # r = ?ds @ 10 # r" by (simp add: dec_def)
    have "dropWhile isspace (?ds @ 10 # r) = ?ds @ 10 # r" using ct digit_not_sign by simp
    moreover have "(case ?ds @ 10 # r of c # u \<Rightarrow> if c = 45 then (True, u) else if c = 43 then (False, u)
        else (False, ?ds @ 10 # r) | [] \<Rightarrow> (False, [])) = (False, ?ds @ 10 # r)"
      using ct digit_not_sign by simp
    ultimately show ?thesis
      unfolding eq scan_int_def using ds takeWhile_digits [OF ds(1)] fit ten False
      by (simp only: Let_def prod.case) simp
  qed
qed

section \<open>The saved connection\<close>

lemma dec_plain: "0 \<notin> set (dec n) \<and> 13 \<notin> set (dec n) \<and> 26 \<notin> set (dec n)"
proof -
  let ?ds = "dec_nat (nat (if n < 0 then - n else n))"
  have "list_all digit ?ds" using dec_nat_digits by blast
  moreover have "\<not> digit 0" "\<not> digit 13" "\<not> digit 26" by (simp_all add: digit_def)
  ultimately have "0 \<notin> set ?ds" "13 \<notin> set ?ds" "26 \<notin> set ?ds" unfolding list_all_iff by blast+
  then show ?thesis by (auto simp: dec_def split: if_splits)
qed

lemma dec_first: "dec n \<noteq> [] \<and> \<not> isspace (hd (dec n))"
proof (cases "n < 0")
  case False
  have "list_all digit (dec_nat (nat n))" "dec_nat (nat n) \<noteq> []" using dec_nat_digits by blast+
  then obtain c t where "dec_nat (nat n) = c # t" "digit c" by (cases "dec_nat (nat n)") auto
  then show ?thesis using False digit_not_sign [of c] by (simp add: dec_def)
qed (simp add: dec_def isspace_def)

definition saved_ok :: "launch \<Rightarrow> bool" where
  "saved_ok s \<longleftrightarrow> wordy (cstr (g_ipa s)) \<and> wordy (cstr (g_username s)) \<and> wordy (cstr (g_mppass s))
     \<and> g_port s \<noteq> 0 \<and> - (2 ^ 31) \<le> g_port s \<and> g_port s < 2 ^ 31"

lemma strlen_pos: "wordy (cstr b) \<Longrightarrow> \<not> strlen b < 1"
  by (simp add: strlen_def wordy_def)

lemma launch_word_written [simp]:
  "g_ipa (word_written w s) = g_ipa (s :: launch)" "g_port (word_written w s) = g_port s"
  "g_username (word_written w s) = g_username s" "g_mppass (word_written w s) = g_mppass s"
  "g_password (word_written w s) = g_password s" "g_hash (word_written w s) = g_hash s"
  "loginMethod (word_written w s) = loginMethod s" "dircon (word_written w s) = dircon s"
  "status (word_written w s) = status s"
  by (simp_all add: word_written_def copied_def remark_def split: option.split)

lemma launch_copied [simp]:
  "g_ipa (copied c n s) = g_ipa (s :: launch)" "g_port (copied c n s) = g_port s"
  "g_username (copied c n s) = g_username s" "g_mppass (copied c n s) = g_mppass s"
  "g_password (copied c n s) = g_password s" "g_hash (copied c n s) = g_hash s"
  "writable (copied c n s) = writable s" "disk (copied c n s) = disk s"
  by (simp_all add: copied_def remark_def)

lemma remarks_copied: "remarks (copied c n s) = remarks s @ (if c < n then [Overrun c n] else [])"
  by (simp add: copied_def remark_def)

lemma save_direct_eq:
  "writable s direct_path \<Longrightarrow> save_direct s = (copied 70 (Suc (length (direct_text s))) s)
     \<lparr>disk := (disk s)(direct_path \<mapsto> text_out (direct_text s))\<rparr>"
  by (simp add: save_direct_def direct_text_def Let_def)

text \<open>
  C30: The connection the program saves after a login is the connection it reads back at the
  next start with \<open>loginMethod\<close> 2: address, port, user name and pass survive the trip through
  \<open>direct.txt\<close>, line ends included; and the text overruns its buffer of 70 bytes exactly when
  it has 70 characters or more.
\<close>

theorem direct_txt_round_trip:
  assumes ok: "saved_ok s" and "writable s direct_path" and l: "loginMethod l = 2"
    and same: "disk l direct_path = disk (save_direct s) direct_path"
  shows "cstr (g_ipa (load_direct l)) = cstr (g_ipa s) \<and> g_port (load_direct l) = g_port s
    \<and> cstr (g_username (load_direct l)) = cstr (g_username s)
    \<and> cstr (g_mppass (load_direct l)) = cstr (g_mppass s)
    \<and> dircon (load_direct l) \<and> loginMethod (load_direct l) = 2
    \<and> (remarks (save_direct s) = remarks s \<longleftrightarrow> length (direct_text s) < 70)"
proof -
  let ?i = "cstr (g_ipa s)" and ?u = "cstr (g_username s)" and ?m = "cstr (g_mppass s)"
  let ?text = "?i @ 10 # dec (g_port s) @ 10 # ?u @ 10 # ?m"
  have w: "wordy ?i" "wordy ?u" "wordy ?m" using ok by (simp_all add: saved_ok_def)
  note parts = w [THEN wordy_parts]
  have dt: "direct_text s = ?text" by (simp add: direct_text_def)
  have "26 \<notin> set ?text" "13 \<notin> set ?text" using parts dec_plain [of "g_port s"] by auto
  then have disk: "disk l direct_path = Some (text_out ?text)" "text_in (text_out ?text) = ?text"
    using assms(2) same
    by (simp_all add: save_direct_eq dt text_in_out del: text_in.simps)
  have ten: "isspace 10" by (simp add: isspace_def)
  have skip: "dropWhile isspace (10 # dec (g_port s) @ r) = dec (g_port s) @ r" for r
    using dec_first [of "g_port s"] ten by (cases "dec (g_port s)") auto
  note skipw = skip_to_word
  have first: "scan_word ?text = (Some ?i, dec (g_port s) @ 10 # ?u @ 10 # ?m)"
    using scan_word_line [OF w(1), of "10 # dec (g_port s) @ 10 # ?u @ 10 # ?m"] ten by (simp only: skip) simp
  have two: "scan_int (dec (g_port s) @ 10 # ?u @ 10 # ?m) = (Some (g_port s), ?u @ 10 # ?m)"
    using scan_int_line [of "g_port s" "?u @ 10 # ?m"] skipw [OF w(2), of "10 # ?m"] ok ten
    by (simp add: saved_ok_def)
  have three: "scan_word (?u @ 10 # ?m) = (Some ?u, ?m)"
    using scan_word_line [OF w(2), of "10 # ?m"] skipw [OF w(3), of "[]"] ten by simp
  have four: "scan_word ?m = (Some ?m, [])"
    using scan_word_line [OF w(3), of "[]"] by simp
  have again: "cstr (store_word (Some v) buf) = v" "0 < strlen (store_word (Some v) buf)"
    "strlen (store_word (Some v) buf) \<noteq> 0" if "wordy v" for v buf
    using wordy_parts [OF that] by (simp_all add: store_word_cstr strlen_def)
  have "load_direct l = word_written (Some ?m) (word_written (Some ?u) (word_written (Some ?i)
      (l\<lparr>dircon := True, g_ipa := store_word (Some ?i) (g_ipa l)\<rparr>)\<lparr>g_port := g_port s\<rparr>
      \<lparr>g_username := store_word (Some ?u) (g_username l)\<rparr>)\<lparr>g_mppass := store_word (Some ?m) (g_mppass l)\<rparr>)"
    using l disk ok w
    by (simp add: load_direct_def first two three four keep_def again saved_ok_def Let_def del: text_in.simps)
  moreover have "remarks (save_direct s) = remarks s \<longleftrightarrow> length (direct_text s) < 70"
    using assms(2) by (auto simp: save_direct_eq remarks_copied)
  ultimately show ?thesis using w l by (simp add: again)
qed

definition zero_launch :: launch where
  "zero_launch = \<lparr>segs = (\<lambda>_. []), ending = (\<lambda>_. Closed), accepts = (\<lambda>_. []), sent = (\<lambda>_. []),
     indet = (\<lambda>_. 0), remarks = [], status = Running, disk = (\<lambda>_. None), writable = (\<lambda>_. True),
     typed = [], pressed = [], httpbuffer = replicate 9024 0, requests = 0, g_ipa = replicate 64 0,
     g_port = 0, g_mppass = replicate 64 0, g_password = replicate 64 0, g_username = replicate 64 0,
     g_hash = replicate 64 0, g_ignores = replicate 64 (replicate 64 0), g_ignoreN = 0,
     g_gimp = replicate 6024 (replicate 256 0), g_gimpN = 0, g_haxType = None, gimpF = None,
     g_hax = 0, g_useCPE = 0, loginMethod = 0, dircon = False\<rparr>"

definition connected :: launch where
  "connected = zero_launch\<lparr>g_ipa := lit ''10.0.0.7'' @ [0], g_port := 25565,
     g_username := lit ''lava'' @ [0], g_mppass := lit ''5f3a'' @ [0], g_password := lit ''pw'' @ [0],
     g_hash := lit ''h4sh'' @ [0]\<rparr>"

lemma connected_texts:
  "cstr (g_ipa connected) = lit ''10.0.0.7''" "cstr (g_username connected) = lit ''lava''"
  "cstr (g_mppass connected) = lit ''5f3a''" "cstr (g_password connected) = lit ''pw''"
  "cstr (g_hash connected) = lit ''h4sh''" "g_port connected = 25565" "writable connected f"
  by (simp_all add: connected_def lit_def zero_launch_def)

lemma wordy_texts:
  "wordy (lit ''10.0.0.7'')" "wordy (lit ''lava'')" "wordy (lit ''5f3a'')" "wordy (lit ''pw'')"
  "wordy (lit ''h4sh'')"
  by (simp_all add: wordy_def lit_def isspace_def)

theorem direct_txt_round_trip_witness:
  "g_port (load_direct (zero_launch\<lparr>loginMethod := 2, disk := disk (save_direct connected)\<rparr>)) = 25565
    \<and> cstr (g_username (load_direct (zero_launch\<lparr>loginMethod := 2, disk := disk (save_direct connected)\<rparr>)))
      = lit ''lava''"
proof -
  have "saved_ok connected" by (simp add: saved_ok_def connected_texts wordy_texts)
  from direct_txt_round_trip [OF this, of "zero_launch\<lparr>loginMethod := 2, disk := disk (save_direct connected)\<rparr>"]
  show ?thesis by (simp add: connected_texts)
qed

text \<open>
  C31: What the user typed and saved is what the next start reads back: user name, password and
  server hash survive the trip through \<open>info.txt\<close>. On the way the text always overruns its
  buffer by one byte, the NUL it was not given room for.
\<close>

theorem info_txt_round_trip:
  assumes w: "wordy (cstr (g_username s))" "wordy (cstr (g_password s))" "wordy (cstr (g_hash s))"
    and "writable s info_path" and same: "disk l info_path = disk (save_info s) info_path"
  shows "cstr (g_username (load_info l)) = cstr (g_username s)
    \<and> cstr (g_password (load_info l)) = cstr (g_password s)
    \<and> cstr (g_hash (load_info l)) = cstr (g_hash s) \<and> loginMethod (load_info l) = loginMethod l
    \<and> (\<exists>n. remarks (save_info s) = remarks s @ [Overrun n (Suc n)])"
proof -
  let ?u = "cstr (g_username s)" and ?p = "cstr (g_password s)" and ?h = "cstr (g_hash s)"
  let ?text = "?u @ 10 # ?p @ 10 # ?h"
  have saved: "save_info s = (copied (Suc (Suc (length ?u + length ?p + length ?h)))
      (Suc (Suc (Suc (length ?u + length ?p + length ?h)))) s)\<lparr>disk := (disk s)(info_path \<mapsto> ?text)\<rparr>"
    using assms(4) by (simp add: save_info_def info_text_def strlen_def Let_def add.assoc)
  note parts = w [THEN wordy_parts]
  have ten: "isspace 10" by (simp add: isspace_def)
  note skip = skip_to_word
  have plain: "text_in ?text = ?text" by (rule text_in_plain) (use parts in auto)
  have first: "scan_word ?text = (Some ?u, ?p @ 10 # ?h)"
    using scan_word_line [OF w(1), of "10 # ?p @ 10 # ?h"] skip [OF w(2), of "10 # ?h"] ten by simp
  have second: "scan_word (?p @ 10 # ?h) = (Some ?p, ?h)"
    using scan_word_line [OF w(2), of "10 # ?h"] skip [OF w(3), of "[]"] ten by simp
  have third: "scan_word ?h = (Some ?h, [])"
    using scan_word_line [OF w(3), of "[]"] by simp
  have again: "cstr (store_word (Some v) buf) = v" "0 < strlen (store_word (Some v) buf)"
    "strlen (store_word (Some v) buf) \<noteq> 0" if "wordy v" for v buf
    using wordy_parts [OF that] by (simp_all add: store_word_cstr strlen_def)
  have "load_info l = word_written (Some ?h) ((word_written (Some ?p) ((word_written (Some ?u)
      (l\<lparr>g_username := store_word (Some ?u) (g_username l)\<rparr>))
      \<lparr>g_password := store_word (Some ?p) (g_password l)\<rparr>))\<lparr>g_hash := store_word (Some ?h) (g_hash l)\<rparr>)"
    using same w by (simp add: load_info_def saved plain first second third again Let_def del: text_in.simps)
  then show ?thesis using w by (simp add: again saved remarks_copied)
qed

theorem info_txt_round_trip_witness:
  "cstr (g_hash (load_info (zero_launch\<lparr>disk := disk (save_info connected)\<rparr>))) = lit ''h4sh''"
proof -
  have "wordy (cstr (g_username connected))" "wordy (cstr (g_password connected))"
    "wordy (cstr (g_hash connected))" by (simp_all add: connected_texts wordy_texts)
  from info_txt_round_trip [OF this, of "zero_launch\<lparr>disk := disk (save_info connected)\<rparr>"]
  show ?thesis by (simp add: connected_texts)
qed

section \<open>The gimp file\<close>

lemma newlines_lines:
  "list_all (\<lambda>l. 10 \<notin> set l) ls \<Longrightarrow> 10 \<notin> set u \<Longrightarrow> newlines (concat (map (\<lambda>l. l @ [10]) ls) @ u) = length ls"
proof -
  have none: "newlines v = 0" if "10 \<notin> set v" for v
    using that by (auto simp: newlines_def filter_empty_conv)
  have app: "newlines (a @ b) = newlines a + newlines b" "newlines (10 # b) = Suc (newlines b)" for a b
    by (simp_all add: newlines_def)
  assume "list_all (\<lambda>l. 10 \<notin> set l) ls" "10 \<notin> set u"
  then show ?thesis
    by (induction ls) (simp_all add: none app)
qed

lemma takeWhile_line: "10 \<notin> set l \<Longrightarrow> takeWhile (\<lambda>c. c \<noteq> 10) (l @ 10 # r) = l"
  by (rule takeWhile_append_stop) auto

lemma fgets_full: "10 \<notin> set l \<Longrightarrow> length l \<le> 254 \<Longrightarrow> fgets_line (l @ 10 # r) = l @ [10]"
  by (simp add: fgets_line_def takeWhile_line)

lemma fgets_last: "10 \<notin> set l \<Longrightarrow> length l \<le> 255 \<Longrightarrow> fgets_line l = l"
proof -
  assume "10 \<notin> set l" "length l \<le> 255"
  then have "takeWhile (\<lambda>c. c \<noteq> 10) l = l" by (auto simp: takeWhile_eq_all_conv)
  with \<open>length l \<le> 255\<close> show ?thesis by (simp add: fgets_line_def Let_def del: takeWhile_eq_all_conv)
qed

definition a_line :: "byte list \<Rightarrow> bool" where
  "a_line l \<longleftrightarrow> 0 \<notin> set l \<and> 10 \<notin> set l \<and> length l \<le> 254"

definition padded :: "byte list \<Rightarrow> byte list" where
  "padded l = l @ replicate (256 - length l) 0"

lemma cstr_padded: "0 \<notin> set l \<Longrightarrow> cstr (padded l) = l"
  by (simp add: padded_def cstr_append cstr_no_nul) (cases "256 - length l"; simp)

lemma gimp_row_text:
  assumes "g ! i = replicate 256 0" "0 \<notin> set line" "line \<noteq> []" "length line \<le> 255"
  shows "gimp_row i line g = g[i := padded (butlast line)]"
proof -
  have row: "put_at 0 (line @ [0]) (g ! i) = line @ 0 # replicate (255 - length line) 0"
    using assms(4) by (simp add: put_at_0 assms(1))
  have n: "strlen (line @ 0 # r) = length line" for r
    using assms(2) by (simp add: strlen_def cstr_append cstr_no_nul)
  have upd: "(line @ 0 # r)[length line - 1 := 0] = butlast line @ 0 # 0 # r" for r
    using assms(3) by (cases line rule: rev_cases) (simp_all add: list_update_append)
  have "257 - length line = Suc (Suc (255 - length line))" "256 - (length line - 1) = 257 - length line"
    using assms(3,4) by (cases line; simp)+
  then have "butlast line @ 0 # 0 # replicate (255 - length line) 0 = padded (butlast line)"
    by (simp add: padded_def)
  then show ?thesis
    using assms(3) by (simp add: gimp_row_def Let_def row n upd del: One_nat_def)
qed

text \<open>The rows are filled one after the other.\<close>

lemma gimp_rows_lines:
  assumes "g_gimp s = pre @ replicate m (replicate 256 0)" "list_all a_line ls" "length ls \<le> m"
    and "i = length pre"
  shows "gimp_rows ([i ..< i + length ls] @ js) (concat (map (\<lambda>l. l @ [10]) ls) @ u) s
    = gimp_rows js u (s\<lparr>g_gimp := pre @ map padded ls @ replicate (m - length ls) (replicate 256 0)\<rparr>)"
  using assms
proof (induction ls arbitrary: s pre m i)
  case (Cons l ls)
  obtain k where m: "m = Suc k" using Cons.prems(3) by (cases m) auto
  have l: "10 \<notin> set l" "length l \<le> 254" "0 \<notin> set (l @ [10])"
    using Cons.prems(2) by (simp_all add: a_line_def)
  have row: "gimp_row i (l @ [10]) (g_gimp s) = (pre @ [padded l]) @ replicate k (replicate 256 0)"
    using Cons.prems l gimp_row_text [of "g_gimp s" i "l @ [10]"]
    by (simp add: m nth_append list_update_append)
  have range: "[i ..< i + length (l # ls)] = i # [Suc i ..< Suc i + length ls]"
    using upt_conv_Cons [of i "i + length (l # ls)"] by (simp del: upt_Suc)
  have i: "i < length (g_gimp s)" using Cons.prems by (simp add: m)
  let ?s = "s\<lparr>g_gimp := (pre @ [padded l]) @ replicate k (replicate 256 0)\<rparr>"
  have "gimp_rows ([i ..< i + length (l # ls)] @ js) (concat (map (\<lambda>l. l @ [10]) (l # ls)) @ u) s
      = gimp_rows ([Suc i ..< Suc i + length ls] @ js) (concat (map (\<lambda>l. l @ [10]) ls) @ u) ?s"
    unfolding range using i by (simp add: fgets_full l row del: upt_Suc)
  also have "\<dots> = gimp_rows js u (?s\<lparr>g_gimp := (pre @ [padded l]) @ map padded ls
      @ replicate (k - length ls) (replicate 256 0)\<rparr>)"
    using Cons.prems by (intro Cons.IH) (simp_all add: m)
  finally show ?case by (simp add: m)
next
  case Nil
  then show ?case by (simp flip: Nil.prems(1))
qed

lemma gimps_loaded:
  assumes "gimpF s = Some name" and "disk s (cstr name) = Some content"
    and "text_in content = concat (map (\<lambda>l. l @ [10]) ls) @ u"
    and "list_all a_line ls" and "a_line u" and "length ls \<le> 6022"
    and "g_gimp s = replicate 6024 (replicate 256 0)"
  shows "g_gimpN (load_gimps s) = int (length ls) + 1
    \<and> g_gimp (load_gimps s) = replicate 256 0 # map padded (ls @ [butlast u])
        @ replicate (6022 - length ls) (replicate 256 0)"
proof -
  define zero where "zero = replicate 256 (0 :: byte)"
  define n where "n = Suc (length ls)"
  define t where "t = (copied 32 (Suc (length (cstr name))) s)\<lparr>g_gimpN := int n\<rparr>"
  have lines: "newlines (text_in content) = length ls"
    unfolding assms(3) using assms(4,5) by (intro newlines_lines) (simp_all add: a_line_def list_all_iff)
  have cp: "disk (copied c k s) = disk s" "g_gimp (copied c k s) = g_gimp s" for c k
    by (simp_all add: copied_def remark_def)
  have load: "load_gimps s = gimp_rows [1 ..< Suc n] (text_in content) t"
    using assms(1,2) by (simp add: load_gimps_def lines cp t_def n_def Let_def del: upt_Suc)
  have g: "g_gimp t = [zero] @ replicate 6023 zero"
    using assms(7) by (simp add: t_def cp zero_def flip: replicate_Suc)
  have range: "[1 ..< Suc n] = [1 ..< 1 + length ls] @ [n]" by (simp add: n_def)
  define w where "w = t\<lparr>g_gimp := [zero] @ map padded ls @ replicate (6023 - length ls) zero\<rparr>"
  have run: "load_gimps s = gimp_rows [n] u w"
    unfolding load range w_def assms(3) zero_def
    by (rule gimp_rows_lines) (use g assms(4,6) in \<open>simp_all add: zero_def\<close>)
  have split: "6023 - length ls = Suc (6022 - length ls)" using assms(6) by simp
  have gw: "g_gimp w = ([zero] @ map padded ls) @ zero # replicate (6022 - length ls) zero"
    by (simp add: w_def split)
  have u: "0 \<notin> set u" "10 \<notin> set u" "length u \<le> 255" using assms(5) by (simp_all add: a_line_def)
  have nth: "g_gimp w ! n = zero" by (simp add: gw n_def nth_append)
  have "gimp_row n u (g_gimp w) = (g_gimp w)[n := padded (butlast u)]"
  proof (cases "u = []")
    case True
    have "g_gimp w ! (n - 1) ! 255 = 0"
    proof (cases ls rule: rev_cases)
      case Nil
      then show ?thesis by (simp add: gw n_def zero_def)
    next
      case (snoc ks k)
      then have "length k \<le> 254" using assms(4) by (simp add: a_line_def)
      then show ?thesis by (simp add: gw n_def snoc nth_append padded_def)
    qed
    then have "(g_gimp w)[n - 1 := (g_gimp w ! (n - 1))[255 := 0]] = g_gimp w"
      by (metis list_update_id)
    moreover have "(g_gimp w)[n := zero] = g_gimp w" using nth by (metis list_update_id)
    moreover have "strlen zero = 0" "padded [] = zero"
      using cstr_padded [of "[]"] by (simp_all add: strlen_def zero_def padded_def)
    ultimately show ?thesis by (simp add: gimp_row_def True nth)
  next
    case False
    then show ?thesis using u nth by (intro gimp_row_text) (simp_all add: zero_def)
  qed
  moreover have "(g_gimp w)[n := padded (butlast u)]
      = ([zero] @ map padded ls) @ padded (butlast u) # replicate (6022 - length ls) zero"
    by (simp add: gw n_def list_update_append)
  moreover have "n < length (g_gimp w)" by (simp add: gw n_def)
  ultimately have "load_gimps s = w\<lparr>g_gimp := zero # map padded (ls @ [butlast u])
      @ replicate (6022 - length ls) zero\<rparr>"
    unfolding run using u by (simp add: fgets_last)
  then show ?thesis by (simp add: zero_def w_def t_def n_def)
qed

text \<open>
  C32: Loading the gimp file gives every line its row, from row 1 on, and counts one row more
  than there are line feeds; the text after the last line feed loses its final character
  (nothing, when the file ends with a line feed).
\<close>

theorem gimp_file_is_loaded:
  assumes "gimpF s = Some name" and "disk s (cstr name) = Some content"
    and "text_in content = concat (map (\<lambda>l. l @ [10]) ls) @ u"
    and "list_all a_line ls" and "a_line u" and "length ls \<le> 6022"
    and "g_gimp s = replicate 6024 (replicate 256 0)"
  shows "g_gimpN (load_gimps s) = int (length ls) + 1
    \<and> g_gimp (load_gimps s) = replicate 256 0 # map padded (ls @ [butlast u])
        @ replicate (6022 - length ls) (replicate 256 0)"
  by (rule gimps_loaded [OF assms])

definition jokes :: launch where
  "jokes = zero_launch\<lparr>gimpF := Some (lit ''g.txt'' @ [0]),
     disk := (\<lambda>_. Some (lit ''one'' @ [13, 10] @ lit ''two''))\<rparr>"

theorem gimp_file_is_loaded_witness:
  "g_gimpN (load_gimps jokes) = 2 \<and> g_gimp (load_gimps jokes) ! 1 = padded (lit ''one'')
    \<and> g_gimp (load_gimps jokes) ! 2 = padded (lit ''tw'')"
proof -
  have "text_in (lit ''one'' @ [13, 10] @ lit ''two'') = concat (map (\<lambda>l. l @ [10]) [lit ''one'']) @ lit ''two''"
    by (simp add: lit_def)
  moreover have "list_all a_line [lit ''one'']" "a_line (lit ''two'')" "length [lit ''one''] \<le> 6022"
    by (simp_all add: a_line_def lit_def)
  moreover have "gimpF jokes = Some (lit ''g.txt'' @ [0])"
    "disk jokes (cstr (lit ''g.txt'' @ [0])) = Some (lit ''one'' @ [13, 10] @ lit ''two'')"
    "g_gimp jokes = replicate 6024 (replicate 256 0)"
    by (simp_all add: jokes_def zero_launch_def)
  ultimately have "g_gimpN (load_gimps jokes) = int (length [lit ''one'']) + 1
    \<and> g_gimp (load_gimps jokes) = replicate 256 0 # map padded ([lit ''one''] @ [butlast (lit ''two'')])
        @ replicate (6022 - length [lit ''one'']) (replicate 256 0)"
    using gimp_file_is_loaded by blast
  moreover have "butlast (lit ''two'') = lit ''tw''" by (simp add: lit_def)
  ultimately show ?thesis by simp
qed

section \<open>The ignore file\<close>

definition a_name :: "byte list \<Rightarrow> bool" where
  "a_name w \<longleftrightarrow> wordy w \<and> length w \<le> 63"

definition name_row :: "byte list \<Rightarrow> byte list" where
  "name_row w = w @ replicate (64 - length w) 0"

lemma cstr_zeros: "cstr (replicate n 0) = []"
  by (cases n) simp_all

lemma cstr_name_row: "a_name w \<Longrightarrow> cstr (name_row w) = w"
  using wordy_parts [of w] by (simp add: a_name_def name_row_def cstr_append cstr_no_nul cstr_zeros)

lemma chop_lengths: "chop (map length g) (concat g) = g"
  by (induction g) simp_all

lemma put_at_middle:
  "length v \<le> length r \<Longrightarrow> put_at (length a) v (a @ r @ b) = a @ put_at 0 v r @ b"
  by (simp add: put_at_def)

lemma ignore_word_row:
  assumes "g_ignores s = pre @ replicate (Suc m) (replicate 64 0)" "list_all (\<lambda>r. length r = 64) pre"
    and "length pre + Suc m = 64" "a_name w"
  shows "ignore_word (length pre) w s = s\<lparr>g_ignores := pre @ name_row w # replicate m (replicate 64 0)\<rparr>"
proof -
  let ?z = "replicate 64 (0 :: byte)" and ?g = "g_ignores s"
  have pre: "length (concat pre) = 64 * length pre"
    using assms(2) by (induction pre) simp_all
  have rest: "length (concat (replicate k ?z)) = 64 * k" for k
    by (simp add: length_concat map_replicate sum_list_replicate)
  have len: "length (concat ?g) = 4096"
    using pre rest [of "Suc m"] assms(1,3) by simp
  have w: "length w \<le> 63" using assms(4) by (simp add: a_name_def)
  then have row: "put_at 0 (w @ [0]) ?z = name_row w"
    by (simp add: put_at_0 name_row_def Suc_diff_le flip: replicate_Suc)
  let ?g' = "pre @ name_row w # replicate m ?z"
  have "put_at (64 * length pre) (w @ [0]) (concat ?g) = concat ?g'"
    using put_at_middle [of "w @ [0]" ?z "concat pre" "concat (replicate m ?z)"] w
    by (simp add: assms(1) pre row)
  moreover have "map length ?g' = replicate 64 64"
  proof -
    have "map length pre = replicate (length pre) 64"
      using assms(2) by (induction pre) simp_all
    moreover have "length (name_row w) = 64" using w by (simp add: name_row_def)
    ultimately have "map length ?g' = replicate (length pre) 64 @ replicate (Suc m) 64"
      by (simp add: map_replicate)
    then show ?thesis by (simp only: assms(3) flip: replicate_add)
  qed
  moreover have "length (concat ?g') = 4096"
    using pre rest [of m] assms(3) w by (simp add: name_row_def)
  moreover have "64 * length pre < 4096" "64 * length pre + length w + 1 \<le> 4096" using assms(3) w by linarith+
  ultimately show ?thesis
    using chop_lengths [of ?g'] by (simp add: ignore_word_def len Let_def)
qed

lemma ignore_rows_names:
  assumes "g_ignores s = pre @ replicate m (replicate 64 0)" "list_all (\<lambda>r. length r = 64) pre"
    and "length pre + m = 64" "list_all a_name ws" "length ws \<le> m" "i = length pre"
  shows "ignore_rows ([i ..< i + length ws] @ js) (concat (map (\<lambda>w. w @ [10]) ws)) s
    = ignore_rows js [] (s\<lparr>g_ignores := pre @ map name_row ws @ replicate (m - length ws) (replicate 64 0)\<rparr>)"
  using assms
proof (induction ws arbitrary: s pre m i)
  case (Cons w ws)
  obtain k where m: "m = Suc k" using Cons.prems(5) by (cases m) auto
  have w: "a_name w" "wordy w" using Cons.prems(4) by (simp_all add: a_name_def)
  have range: "[i ..< i + length (w # ws)] = i # [Suc i ..< Suc i + length ws]"
    using upt_conv_Cons [of i "i + length (w # ws)"] by (simp del: upt_Suc)
  have ten: "isspace 10" by (simp add: isspace_def)
  have next_word: "dropWhile isspace (10 # concat (map (\<lambda>w. w @ [10]) ws)) = concat (map (\<lambda>w. w @ [10]) ws)"
    using ten Cons.prems(4) skip_to_word by (cases ws) (simp_all add: a_name_def)
  have scan: "scan_word (concat (map (\<lambda>w. w @ [10]) (w # ws))) = (Some w, concat (map (\<lambda>w. w @ [10]) ws))"
    using scan_word_line [OF w(2), of "10 # concat (map (\<lambda>w. w @ [10]) ws)"] ten
    by (simp del: dropWhile.simps add: next_word)
  let ?s = "s\<lparr>g_ignores := (pre @ [name_row w]) @ replicate k (replicate 64 0)\<rparr>"
  have row: "ignore_word i w s = ?s"
    using ignore_word_row [of s pre k w] Cons.prems w by (simp add: m)
  have "ignore_rows ([i ..< i + length (w # ws)] @ js) (concat (map (\<lambda>w. w @ [10]) (w # ws))) s
      = ignore_rows ([Suc i ..< Suc i + length ws] @ js) (concat (map (\<lambda>w. w @ [10]) ws)) ?s"
    unfolding range using scan row by (simp del: upt_Suc)
  also have "\<dots> = ignore_rows js [] (?s\<lparr>g_ignores := (pre @ [name_row w]) @ map name_row ws
      @ replicate (k - length ws) (replicate 64 0)\<rparr>)"
    using Cons.prems w by (intro Cons.IH) (simp_all add: m a_name_def name_row_def)
  finally show ?case by (simp add: m)
next
  case Nil
  then show ?case by (simp flip: Nil.prems(1))
qed

definition names_file :: "byte list list \<Rightarrow> byte list" where
  "names_file ws = concat (map (\<lambda>w. w @ [10]) ws)"

lemma load_ignores_names:
  assumes "disk l ignore_path = Some content" "text_in content = names_file ws"
    and "list_all a_name ws" "length ws \<le> 62" "g_ignores l = replicate 64 (replicate 64 0)"
  shows "load_ignores l = l\<lparr>g_ignoreN := int (length ws) + 1, g_ignores := replicate 64 0 # map name_row ws
      @ replicate (63 - length ws) (replicate 64 0)\<rparr>"
proof -
  let ?z = "replicate 64 (0 :: byte)"
  have "list_all (\<lambda>l. 10 \<notin> set l) ws"
    using assms(3) wordy_no_newline by (auto simp: list_all_iff a_name_def)
  then have n: "newlines (text_in content) = length ws"
    using newlines_lines [of ws "[]"] by (simp add: assms(2) names_file_def)
  let ?l = "l\<lparr>g_ignoreN := int (Suc (length ws))\<rparr>"
  have range: "[1 ..< Suc (Suc (length ws))] = [1 ..< 1 + length ws] @ [Suc (length ws)]" by simp
  have "load_ignores l = ignore_rows ([1 ..< 1 + length ws] @ [Suc (length ws)]) (names_file ws) ?l"
    unfolding range [symmetric] using assms(1) n
    by (simp add: load_ignores_def Let_def assms(2) del: upt_Suc)
  also have "\<dots> = ignore_rows [Suc (length ws)] [] (?l\<lparr>g_ignores := [?z] @ map name_row ws @ replicate (63 - length ws) ?z\<rparr>)"
    unfolding names_file_def
    by (rule ignore_rows_names) (use assms(3-5) in \<open>simp_all flip: replicate_Suc\<close>)
  finally show ?thesis by (simp add: scan_word_def)
qed

text \<open>Comparing a name against the rows.\<close>

lemma ignore_loop_flags:
  assumes "\<forall>i \<in> set is. i < length (ignores s)"
  shows "p_ignore (players (ignore_loop pid is s) pid) \<longleftrightarrow> p_ignore (players s pid)
    \<or> (\<exists>i \<in> set is. starts_with (cstr (p_username (players s pid))) (cstr (ignores s ! i)))"
  using assms
proof (induction "is" arbitrary: s)
  case (Cons i "is")
  define t where "t = snd (fresh 256 (snd (fresh 256 s)))"
  let ?hit = "starts_with (cstr (p_username (players s pid))) (cstr (ignores s ! i))"
  let ?u = "if ?hit then upd_player pid (\<lambda>p. p\<lparr>p_ignore := True\<rparr>) t else t"
  have t: "players t = players s" "ignores t = ignores s" by (simp_all add: t_def fresh_def)
  have "ignore_loop pid (i # is) s = ignore_loop pid is ?u"
    using Cons.prems by (simp add: row_def call_strEqual_def strEqual_prefix t_def Let_def case_prod_beta)
  moreover have "ignores ?u = ignores s" "p_username (players ?u pid) = p_username (players s pid)"
    "p_ignore (players ?u pid) \<longleftrightarrow> p_ignore (players s pid) \<or> ?hit"
    by (auto simp: t upd_player_def remark_def)
  ultimately show ?case using Cons by auto
qed simp

text \<open>
  C33: From the ignore file to the player table: with one name per line, a player who joins is
  flagged to be ignored if and only if his name is a prefix of a listed name. The names
  themselves are flagged; so is everyone whose name begins one of them.
\<close>

theorem ignore_file_flags_prefixes:
  assumes "disk l ignore_path = Some content" and "text_in content = names_file ws"
    and "list_all a_name ws" and "length ws \<le> 62" and "g_ignores l = replicate 64 (replicate 64 0)"
    and "cstr (p_username (players s pid)) \<noteq> []"
  shows "p_ignore (players (check_ignores pid (start_tunnel (load_ignores l) s)) pid)
    \<longleftrightarrow> p_ignore (players s pid) \<or> (\<exists>w \<in> set ws. starts_with (cstr (p_username (players s pid))) w)"
proof -
  let ?name = "cstr (p_username (players s pid))" and ?t = "start_tunnel (load_ignores l) s"
  let ?rows = "replicate 64 0 # map name_row ws @ replicate (63 - length ws) (replicate 64 0)"
  have rows: "ignores ?t = ?rows" "ignoreN ?t = int (length ws) + 1" "players ?t = players s"
    by (simp_all add: load_ignores_names [OF assms(1-5)] start_tunnel_def)
  have range: "[0 ..< nat (ignoreN ?t + 1)] = [0 ..< length ws + 2]"
    by (simp add: rows nat_add_distrib)
  have empty: "\<not> starts_with ?name (cstr (replicate 64 0))"
    using assms(6) by (cases ?name) (simp_all add: cstr_zeros)
  have row: "starts_with ?name (cstr (?rows ! i)) \<longleftrightarrow> (\<exists>k < length ws. i = Suc k \<and> starts_with ?name (ws ! k))"
    if "i < length ws + 2" for i
  proof (cases i)
    case 0
    then show ?thesis using empty by simp
  next
    case (Suc k)
    show ?thesis
    proof (cases "k < length ws")
      case True
      then have "a_name (ws ! k)" using assms(3) by (simp add: list_all_length)
      then show ?thesis using True Suc by (simp add: nth_append cstr_name_row)
    next
      case False
      then have "?rows ! i = replicate 64 0" using that Suc assms(4) by (simp add: nth_append)
      then show ?thesis using empty False Suc by simp
    qed
  qed
  have "p_ignore (players (check_ignores pid ?t) pid)
      \<longleftrightarrow> p_ignore (players s pid) \<or> (\<exists>i \<in> set [0 ..< length ws + 2]. starts_with ?name (cstr (?rows ! i)))"
    unfolding check_ignores_def range using ignore_loop_flags [of "[0 ..< length ws + 2]" ?t pid] assms(4)
    by (simp add: rows)
  also have "(\<exists>i \<in> set [0 ..< length ws + 2]. starts_with ?name (cstr (?rows ! i)))
      \<longleftrightarrow> (\<exists>i < length ws + 2. \<exists>k < length ws. i = Suc k \<and> starts_with ?name (ws ! k))"
    unfolding set_upt atLeast0LessThan lessThan_iff Bex_def using row by blast
  also have "\<dots> \<longleftrightarrow> (\<exists>k < length ws. starts_with ?name (ws ! k))"
    by (metis Suc_less_eq add_2_eq_Suc' less_Suc_eq)
  also have "\<dots> \<longleftrightarrow> (\<exists>w \<in> set ws. starts_with ?name w)"
    by (metis in_set_conv_nth)
  finally show ?thesis .
qed

definition ignoring :: launch where
  "ignoring = zero_launch\<lparr>disk := (\<lambda>_. Some (lit ''lava'' @ [10]))\<rparr>"

theorem ignore_file_flags_prefixes_witness:
  "p_ignore (players (check_ignores 5 (start_tunnel (load_ignores ignoring)
     (start\<lparr>players := (\<lambda>_. zero_player\<lparr>p_username := lit ''la'' @ [0]\<rparr>)\<rparr>))) 5)"
proof -
  let ?s = "start\<lparr>players := (\<lambda>_. zero_player\<lparr>p_username := lit ''la'' @ [0]\<rparr>)\<rparr>"
  have "list_all a_name [lit ''lava'']" by (simp add: a_name_def wordy_texts) (simp add: lit_def)
  moreover have "text_in (lit ''lava'' @ [10]) = names_file [lit ''lava'']"
    by (simp add: lit_def names_file_def)
  moreover have "disk ignoring ignore_path = Some (lit ''lava'' @ [10])"
    "g_ignores ignoring = replicate 64 (replicate 64 0)" "length [lit ''lava''] \<le> 62"
    by (simp_all add: ignoring_def zero_launch_def)
  moreover have name: "cstr (p_username (players ?s 5)) = lit ''la''" by (simp add: lit_def)
  then have "cstr (p_username (players ?s 5)) \<noteq> []" by (simp only: name) (simp add: lit_def)
  ultimately have "p_ignore (players (check_ignores 5 (start_tunnel (load_ignores ignoring) ?s)) 5)
      \<longleftrightarrow> p_ignore (players ?s 5) \<or> (\<exists>w \<in> set [lit ''lava'']. starts_with (cstr (p_username (players ?s 5))) w)"
    by (intro ignore_file_flags_prefixes)
  moreover have "starts_with (lit ''la'') (lit ''lava'')" by (simp add: lit_def)
  ultimately show ?thesis unfolding name by simp
qed

end
