(* ===== verification/ServerAnswers.thy ===== *)
theory ServerAnswers
  imports ServerRelay
begin

text \<open>
  What single packets of the game server do beyond being relayed: they change the copy of the
  level, replace it, drag the player behind another, lift restrictions, end the session.
\<close>

lemma mc_iter_packet:
  assumes "status s = Running" "incoming tunnelSock s = i # rest" "map_of mc_handlers i = Some h"
  shows "mc_iter s = h (sip tunnelSock 1 s)"
  using assms by (simp add: mc_iter_def recvW_enough mc_packet_def)

section \<open>Block changes\<close>

definition change_packet :: "u16 \<times> u16 \<times> u16 \<Rightarrow> byte \<Rightarrow> byte list" where
  "change_packet c b = (case c of (x, y, z) \<Rightarrow> 0x06 # posbytes x y z @ [b])"

declare ld16_be16 [simp]

lemma mc_iter_change:
  assumes "status s = Running" "accepts s serverSock = []"
    and "incoming tunnelSock s = change_packet (x, y, z) b @ rest"
  shows "mc_iter s = map_write (calculateOffset x y z s) b
    (emit serverSock (change_packet (x, y, z) b) (sip tunnelSock 8 s))"
proof -
  let ?fs = "[be16 x, be16 y, be16 z, [b]]"
  have fs: "recvs tunnelSock [RecvW 2, RecvW 2, RecvW 2, RecvW 1] (sip tunnelSock 1 s)
      = (?fs, sip tunnelSock 8 s)"
    using recvs_fields [of "[RecvW 2, RecvW 2, RecvW 2, RecvW 1]" s tunnelSock 6 ?fs rest] assms(3)
    by (simp add: change_packet_def posbytes_def)
  have "mc_iter s = mc_setBlock (sip tunnelSock 1 s)"
    using mc_iter_packet [OF assms(1), of 6 "posbytes x y z @ b # rest" mc_setBlock] assms(3)
    by (simp add: change_packet_def mc_handlers_def)
  then show ?thesis
    using assms(2) by (simp add: mc_setBlock_def fs Let_def wire_simps frame_simps change_packet_def posbytes_def
        del: One_nat_def)
qed

lemma under_write:
  assumes "map_read off s = Some v"
  shows "status (map_write off b s) = status s" "sent (map_write off b s) = sent s"
    "lvlx (map_write off b s) = lvlx s" "lvlz (map_write off b s) = lvlz s"
    "map_read off (map_write off b s) = Some b"
    "off' \<noteq> off \<Longrightarrow> map_read off' (map_write off b s) = map_read off' s"
    "segs (map_write off b s) = segs s"
  using assms by (auto simp: map_read_def map_write_def split: if_splits)

text \<open>
  C24: On a level as long as it is wide a block change is passed to the game client and changes
  the local copy at that cell and at no other.
\<close>

theorem block_change_updates_one_cell:
  assumes "status s = Running" and "accepts s serverSock = []"
    and "incoming tunnelSock s = change_packet (x, y, z) b @ rest"
    and "small_level s" and "lvlx s = lvlz s" and "in_level s x y z" and "int (length (lmap s)) = volume s"
  shows "under (x, y, z) (mc_iter s) = Some b
    \<and> (\<forall>x' y' z'. in_level s x' y' z' \<longrightarrow> (x', y', z') \<noteq> (x, y, z)
        \<longrightarrow> under (x', y', z') (mc_iter s) = under (x', y', z') s)
    \<and> sent (mc_iter s) serverSock = sent s serverSock @ change_packet (x, y, z) b
    \<and> incoming tunnelSock (mc_iter s) = rest \<and> status (mc_iter s) = Running"
proof -
  let ?off = "calculateOffset x y z s"
    and ?t = "emit serverSock (change_packet (x, y, z) b) (sip tunnelSock 8 s)"
  have t: "lmap ?t = lmap s" "lvlx ?t = lvlx s" "lvlz ?t = lvlz s" "status ?t = Running"
    "incoming tunnelSock ?t = rest" "sent ?t serverSock = sent s serverSock @ change_packet (x, y, z) b"
    using assms(1,3) by (simp_all add: emit_def sip_def change_packet_def)
  obtain v where v: "map_read ?off ?t = Some v"
    using square_index_bounds [OF assms(4-6)] assms(7) by (simp add: map_read_def t)
  note w = under_write [OF v, where b = b] and step = mc_iter_change [OF assms(1-3)]
  have lv: "lvlx (mc_iter s) = lvlx s" "lvlz (mc_iter s) = lvlz s" by (simp_all add: step w t)
  have off: "calculateOffset a c e (mc_iter s) = calculateOffset a c e s" for a c e
    by (simp add: calculateOffset_def lv)
  have same: "map_read i ?t = map_read i s" for i by (simp add: map_read_def t)
  have rd: "map_read i (mc_iter s) = (if i = ?off then Some b else map_read i s)" for i
    using w(5) w(6) [of i] by (simp add: step same)
  have other: "under (x', y', z') (mc_iter s) = under (x', y', z') s"
    if "in_level s x' y' z'" "(x', y', z') \<noteq> (x, y, z)" for x' y' z'
  proof -
    have "calculateOffset x' y' z' s \<noteq> ?off"
      using square_index_inj [OF assms(4,5) that(1) assms(6)] that(2) by auto
    then show ?thesis by (simp add: under_def off rd)
  qed
  moreover have "under (x, y, z) (mc_iter s) = Some b"
    by (simp add: under_def off rd)
  ultimately show ?thesis using w(1,2,7) t by (simp add: step)
qed

definition shared_cell :: world where
  "shared_cell = start\<lparr>segs := (\<lambda>_. [])(tunnelSock := [change_packet (1, 0, 1) 9]),
     lvlx := 2, lvly := 2, lvlz := 2, lmap := replicate 8 4\<rparr>"

theorem block_change_updates_one_cell_witness:
  "under (1, 0, 1) (mc_iter shared_cell) = Some 9 \<and> under (0, 1, 1) (mc_iter shared_cell) = Some 4"
proof -
  have "status shared_cell = Running" "accepts shared_cell serverSock = []"
    "incoming tunnelSock shared_cell = change_packet (1, 0, 1) 9 @ []"
    "small_level shared_cell" "lvlx shared_cell = lvlz shared_cell" "in_level shared_cell 1 0 1"
    "int (length (lmap shared_cell)) = volume shared_cell"
    by (simp_all add: shared_cell_def start_def small_level_def volume_def in_level_def word_less_def)
  note one = block_change_updates_one_cell [OF this]
  have "in_level shared_cell 0 1 1" by (simp add: shared_cell_def in_level_def word_less_def)
  moreover have "(0 :: u16, 1 :: u16, 1 :: u16) \<noteq> (1, 0, 1)" by simp
  moreover have "under (0, 1, 1) shared_cell = Some 4"
    by (simp add: under_def map_read_def calculateOffset_def shared_cell_def)
  ultimately show ?thesis using one by auto
qed

text \<open>
  C25: On a level longer than it is wide, a block change in the far corner, a cell of the level,
  writes outside the level buffer.
\<close>

theorem corner_change_leaves_the_buffer:
  assumes "status s = Running" and "accepts s serverSock = []"
    and "incoming tunnelSock s = change_packet (lvlx s - 1, lvly s - 1, lvlz s - 1) b @ rest"
    and "small_level s" and "lvlx s < lvlz s" and "1 \<le> lvlx s" and "1 \<le> lvly s"
    and "int (length (lmap s)) = volume s"
  shows "in_level s (lvlx s - 1) (lvly s - 1) (lvlz s - 1)
    \<and> (\<exists>off \<ge> volume s. status (mc_iter s) = Crashed (MapIndex off))"
proof -
  note corner = corner_outside [OF assms(4-7)]
  let ?off = "calculateOffset (lvlx s - 1) (lvly s - 1) (lvlz s - 1) s"
  have "lmap (emit k bs (sip j n s)) = lmap s" for k bs j n by (simp add: emit_def sip_def)
  then have "status (mc_iter s) = Crashed (MapIndex ?off)"
    using corner(2) assms(8) by (simp add: mc_iter_change [OF assms(1-3)] map_write_def crash_def)
  with corner show ?thesis by blast
qed

theorem corner_change_leaves_the_buffer_witness:
  "\<exists>off. status (mc_iter (start\<lparr>segs := (\<lambda>_. [])(tunnelSock := [change_packet (0, 0, 1) 9]),
     lvlx := 1, lvly := 1, lvlz := 2, lmap := [4, 4]\<rparr>)) = Crashed (MapIndex off)"
proof -
  let ?s = "start\<lparr>segs := (\<lambda>_. [])(tunnelSock := [change_packet (0, 0, 1) 9]),
     lvlx := 1, lvly := 1, lvlz := 2, lmap := [4, 4]\<rparr>"
  have "status ?s = Running" "accepts ?s serverSock = []"
    "incoming tunnelSock ?s = change_packet (lvlx ?s - 1, lvly ?s - 1, lvlz ?s - 1) 9 @ []"
    "small_level ?s" "lvlx ?s < lvlz ?s" "1 \<le> lvlx ?s" "1 \<le> lvly ?s"
    "int (length (lmap ?s)) = volume ?s"
    by (simp_all add: start_def small_level_def volume_def word_less_def word_le_def)
  from corner_change_leaves_the_buffer [OF this] show ?thesis by blast
qed

section \<open>A level arrives\<close>

text \<open>A chunk of the compressed level: its bytes, the padding to 1024, the percentage.\<close>

type_synonym chunk = "byte list \<times> byte list \<times> byte"

definition good_chunk :: "chunk \<Rightarrow> bool" where
  "good_chunk c = (case c of (data, pad, pct) \<Rightarrow> length data \<le> 1024 \<and> length pad = 1024 - length data)"

definition chunk_packet :: "chunk \<Rightarrow> byte list" where
  "chunk_packet c = (case c of (data, pad, pct) \<Rightarrow>
     0x03 # be16 (of_nat (length data)) @ data @ pad @ [pct])"

lemma mc_iter_chunk:
  assumes s: "status s = Running" "accepts s serverSock = []" "download_ok s" and c: "good_chunk c"
    and inp: "incoming tunnelSock s = chunk_packet c @ rest"
  shows "download_ok (mc_iter s) \<and> received (mc_iter s) = received s @ fst c
    \<and> sent (mc_iter s) serverSock = sent s serverSock @ chunk_packet c
    \<and> incoming tunnelSock (mc_iter s) = rest \<and> status (mc_iter s) = Running
    \<and> accepts (mc_iter s) serverSock = [] \<and> inflate (mc_iter s) = inflate s
    \<and> inflateEnd (mc_iter s) = inflateEnd s \<and> joined (mc_iter s) = joined s"
proof -
  obtain data pad pct where eq: "c = (data, pad, pct)" by (metis prod_cases3)
  let ?s = "sip tunnelSock 1 s"
  have step: "mc_iter s = levelData ?s"
    using mc_iter_packet [OF s(1), of 3 "be16 (of_nat (length data)) @ data @ pad @ [pct] @ rest" mc_levelData] inp
    by (simp add: eq chunk_packet_def mc_handlers_def mc_levelData_def)
  have len: "length data \<le> 1024" "length data = length data" "length pad = 1024 - length data"
    using c by (simp_all add: eq good_chunk_def)
  have inp': "incoming tunnelSock ?s = st16 (htons (of_nat (length data))) @ data @ pad @ [pct] @ rest"
    using inp by (simp add: eq chunk_packet_def)
  have out: "accepts ?s serverSock = []" "download_ok ?s" "received ?s = received s"
    using s by (simp_all add: sip_def download_ok_def received_def)
  note acc = levelData_facts [OF out(2,1) len inp']
  note run = levelData_run [OF out(1) len inp']
  have "status (levelData ?s) = Running" "accepts (levelData ?s) = accepts s"
    "inflate (levelData ?s) = inflate s" "inflateEnd (levelData ?s) = inflateEnd s"
    "joined (levelData ?s) = joined s"
    using s(1) by (subst run; simp add: sip_def)+
  moreover have "sent ?s = sent s" by (simp add: sip_def)
  ultimately show ?thesis
    using s acc out by (simp add: step eq chunk_packet_def del: One_nat_def)
qed

lemma chunks_arrive:
  assumes "status s = Running" "accepts s serverSock = []" "download_ok s" "list_all good_chunk cs"
    and "incoming tunnelSock s = concat (map chunk_packet cs) @ rest"
  shows "download_ok (iterate mc_iter (length cs) s)
    \<and> received (iterate mc_iter (length cs) s) = received s @ concat (map fst cs)
    \<and> sent (iterate mc_iter (length cs) s) serverSock = sent s serverSock @ concat (map chunk_packet cs)
    \<and> incoming tunnelSock (iterate mc_iter (length cs) s) = rest
    \<and> status (iterate mc_iter (length cs) s) = Running
    \<and> accepts (iterate mc_iter (length cs) s) serverSock = []
    \<and> inflate (iterate mc_iter (length cs) s) = inflate s
    \<and> inflateEnd (iterate mc_iter (length cs) s) = inflateEnd s
    \<and> joined (iterate mc_iter (length cs) s) = joined s"
  using assms
proof (induction cs arbitrary: s)
  case (Cons c cs)
  have "good_chunk c" "incoming tunnelSock s = chunk_packet c @ concat (map chunk_packet cs) @ rest"
    using Cons.prems(4,5) by simp_all
  note one = mc_iter_chunk [OF Cons.prems(1-3) this]
  show ?case using Cons.IH [of "mc_iter s"] one Cons.prems(4) by simp
qed simp

definition greeting :: "byte list" where
  "greeting = lit ''&0[&4LavaTunnel&0] &fType '' @ [39] @ lit ''help for commands.''"

lemma mc_iter_finalize:
  assumes s: "status s = Running" "accepts s serverSock = []"
    and inp: "incoming tunnelSock s = (0x04 # posbytes x y z) @ rest"
    and vol: "vol = unat (ucast x * ucast y * ucast z :: i32)"
    and ok: "\<not> z_failed (inflateEnd s 31 (received s) (vol + 4))"
    and z: "inflate s 31 (received s) (vol + 4) = hdr @ cells" "length hdr = 4" "length cells = vol"
  shows "mc_iter s = (emit serverSock ((0x04 # posbytes x y z) @ (if joined s then [] else message 0 greeting))
    (sip tunnelSock 7 s))\<lparr>lvlx := x, lvly := y, lvlz := z, indet := (\<lambda>i. indet s (vol + 4 + i)),
      mapC := [], mapSize := 0, blocks := hdr, lmap := cells, joined := True\<rparr>"
proof -
  let ?s = "sip tunnelSock 1 s"
  have step: "mc_iter s = mc_levelFinalize ?s"
    using mc_iter_packet [OF s(1), of 4 "posbytes x y z @ rest" mc_levelFinalize] inp
    by (simp add: mc_handlers_def)
  have inp': "incoming tunnelSock ?s = be16 x @ be16 y @ be16 z @ rest"
    using inp by (simp add: posbytes_def)
  have out: "accepts ?s serverSock = []" "received ?s = received s" "inflate ?s = inflate s"
    "inflateEnd ?s = inflateEnd s" using s by (simp_all add: sip_def received_def)
  have fin: "levelFinalize ?s = ?s\<lparr>
    segs := (segs ?s)(tunnelSock := skip 6 (segs ?s tunnelSock)),
    sent := (sent ?s)(serverSock := sent ?s serverSock @ 4 # be16 x @ be16 y @ be16 z),
    lvlx := ntohs (ld16 (be16 x)), lvly := ntohs (ld16 (be16 y)), lvlz := ntohs (ld16 (be16 z)),
    indet := (\<lambda>i. indet ?s (vol + 4 + i)),
    mapC := [], mapSize := 0, blocks := hdr, lmap := cells\<rparr>"
    by (rule levelFinalize_run [OF out(1) _ _ _ inp']) (use vol ok z in \<open>simp_all add: out del: One_nat_def\<close>)
  show ?thesis
    using s unfolding step mc_levelFinalize_def fin
    by (simp add: Let_def tunnelMsg_open greeting_def sip_def emit_def posbytes_def)
qed

text \<open>
  C23: A level arrives: whatever chunks the compressed level is cut into, every packet is relayed
  to the game client, and after the last the tunnel's copy of the level is what the chunks
  inflate to, behind the four bytes of its length, with the announced dimensions; nothing of
  the compressed level is kept. The greeting is sent with the first level only.
\<close>

theorem level_arrives:
  assumes "status s = Running" and "accepts s serverSock = []" and "download_ok s" and "received s = []"
    and "list_all good_chunk cs"
    and "incoming tunnelSock s = concat (map chunk_packet cs) @ (0x04 # posbytes x y z) @ rest"
    and "vol = unat (ucast x * ucast y * ucast z :: i32)"
    and "\<not> z_failed (inflateEnd s 31 (concat (map fst cs)) (vol + 4))"
    and "inflate s 31 (concat (map fst cs)) (vol + 4) = hdr @ cells"
    and "length hdr = 4" and "length cells = vol"
    and t: "t = iterate mc_iter (length cs + 1) s"
  shows "lmap t = cells \<and> (lvlx t, lvly t, lvlz t) = (x, y, z) \<and> download_ok t \<and> received t = []
    \<and> sent t serverSock = sent s serverSock @ concat (map chunk_packet cs) @ (0x04 # posbytes x y z)
        @ (if joined s then [] else message 0 greeting)
    \<and> joined t \<and> incoming tunnelSock t = rest \<and> status t = Running"
proof -
  let ?u = "iterate mc_iter (length cs) s"
  have it: "iterate f (n + 1) w = f (iterate f n w)" for f :: "world \<Rightarrow> world" and n w
    by (induction n arbitrary: w) simp_all
  note u = chunks_arrive [OF assms(1-3,5,6)]
  have "mc_iter ?u = (emit serverSock ((0x04 # posbytes x y z) @ (if joined ?u then [] else message 0 greeting))
    (sip tunnelSock 7 ?u))\<lparr>lvlx := x, lvly := y, lvlz := z, indet := (\<lambda>i. indet ?u (vol + 4 + i)),
      mapC := [], mapSize := 0, blocks := hdr, lmap := cells, joined := True\<rparr>"
    by (rule mc_iter_finalize [OF _ _ _ assms(7)]) (use u assms(4,8-11) in simp_all)
  moreover have "t = mc_iter ?u" unfolding t by (rule it)
  ultimately show ?thesis
    using u by (simp add: emit_def sip_def download_ok_def received_def)
qed

text \<open>
  Two chunks, of two bytes and of one, that an inflater turning the compressed bytes into a level
  of eight cells of kind 3 takes.
\<close>

definition two_chunks :: "chunk list" where
  "two_chunks = [([31, 139], replicate 1022 0, 50), ([8], replicate 1023 0, 100)]"

definition level_world :: world where
  "level_world = start\<lparr>segs := (\<lambda>_. [])(tunnelSock :=
       [concat (map chunk_packet two_chunks) @ (0x04 # posbytes 2 2 2) @ []]),
     inflate := (\<lambda>_ zs _. if zs = [31, 139, 8] then [0, 0, 0, 8] @ replicate 8 3 else [])\<rparr>"

theorem level_arrives_witness:
  "lmap (iterate mc_iter 3 level_world) = replicate 8 3 \<and> lvlx (iterate mc_iter 3 level_world) = 2"
proof -
  have "status level_world = Running" "accepts level_world serverSock = []" "download_ok level_world"
    "received level_world = []" "list_all good_chunk two_chunks"
    "incoming tunnelSock level_world = concat (map chunk_packet two_chunks) @ (0x04 # posbytes 2 2 2) @ []"
    "8 = unat (ucast (2 :: u16) * ucast (2 :: u16) * ucast (2 :: u16) :: i32)"
    by (simp_all add: level_world_def start_def download_ok_def received_def two_chunks_def good_chunk_def)
  note facts = this
  have cat: "concat (map fst two_chunks) = [31, 139, 8]" by (simp add: two_chunks_def)
  have "\<not> z_failed (inflateEnd level_world 31 (concat (map fst two_chunks)) (8 + 4))"
    "inflate level_world 31 (concat (map fst two_chunks)) (8 + 4) = [0, 0, 0, 8] @ replicate 8 3"
    unfolding cat by (simp_all add: level_world_def start_def z_failed_def)
  moreover have "length [0, 0, 0, 8 :: byte] = 4" "length (replicate 8 (3 :: byte)) = 8" by simp_all
  moreover have three: "length two_chunks + 1 = 3" by (simp add: two_chunks_def)
  ultimately show ?thesis
    using level_arrives [OF facts _ _ _ _ refl, where hdr = "[0, 0, 0, 8]" and cells = "replicate 8 3"]
    unfolding three by blast
qed

section \<open>Restrictions\<close>

definition hack_packet :: "byte \<times> byte \<times> byte \<times> byte \<times> byte \<Rightarrow> byte \<times> byte \<Rightarrow> byte list" where
  "hack_packet flags jump = (case (flags, jump) of ((fly, noclip, speed, spawn, third), (j1, j2)) \<Rightarrow>
     [0x20, fly, noclip, speed, spawn, third, j1, j2])"

lemma mc_iter_hacks:
  assumes "status s = Running" and "accepts s serverSock = []"
    and "incoming tunnelSock s = hack_packet flags (j1, j2) @ rest"
  shows "mc_iter s = emit serverSock (if hax s = 1 then hack_packet (255, 1, 255, 255, 1) (255, j2)
      else hack_packet flags (j1, j2)) (remark (Overrun 1 2) (sip tunnelSock 8 s))"
proof -
  obtain fly noclip speed spawn third where flags: "flags = (fly, noclip, speed, spawn, third)"
    by (metis prod_cases5)
  let ?cs = "[RecvW 1, RecvW 1, RecvW 1, RecvW 1, RecvW 1, RecvW 2]"
    and ?fs = "[[fly], [noclip], [speed], [spawn], [third], [j1, j2]]"
  have inp: "incoming tunnelSock s = 0x20 # [fly, noclip, speed, spawn, third, j1, j2] @ rest"
    using assms(3) by (simp add: hack_packet_def flags)
  have fs: "recvs tunnelSock ?cs (sip tunnelSock 1 s) = (?fs, sip tunnelSock 8 s)"
    using recvs_fields [of ?cs s tunnelSock 32 ?fs rest] inp by (simp add: numeral_eq_Suc)
  have "mc_iter s = mc_hackControl (sip tunnelSock 1 s)"
    using mc_iter_packet [OF assms(1) inp, of mc_hackControl] by (simp add: mc_handlers_def)
  then show ?thesis
    using assms(2) unfolding mc_hackControl_def fs
    by (simp add: Let_def wire_simps frame_simps copied_def hack_packet_def flags del: One_nat_def)
qed

text \<open>
  With \<open>hax\<close> on, whatever restrictions a HackControl packet announces, the game client is
  told that flying, noclip, speeding, spawn control and third person are allowed; the first byte
  of the jump height is replaced, the second is the server's. With \<open>hax\<close> off the packet is
  relayed unchanged.
\<close>

theorem hax_lifts_restrictions:
  assumes "status s = Running" and "accepts s serverSock = []"
    and "incoming tunnelSock s = hack_packet flags (j1, j2) @ rest"
  shows "sent (mc_iter s) serverSock = sent s serverSock
      @ (if hax s = 1 then hack_packet (255, 1, 255, 255, 1) (255, j2) else hack_packet flags (j1, j2))
    \<and> incoming tunnelSock (mc_iter s) = rest \<and> status (mc_iter s) = Running"
proof -
  have "length (hack_packet flags (j1, j2)) = 8" by (simp add: hack_packet_def split: prod.split)
  then show ?thesis
    using assms by (simp add: mc_iter_hacks emit_def remark_def sip_def)
qed

theorem hax_lifts_restrictions_witness:
  "sent (mc_iter (start\<lparr>hax := 1, segs := (\<lambda>_. [])(tunnelSock := [[0x20, 0, 0], [0, 0, 0, 0, 40]])\<rparr>)) serverSock
    = hack_packet (255, 1, 255, 255, 1) (255, 40)"
proof -
  let ?s = "start\<lparr>hax := 1, segs := (\<lambda>_. [])(tunnelSock := [[0x20, 0, 0], [0, 0, 0, 0, 40]])\<rparr>"
  have "status ?s = Running" "accepts ?s serverSock = []" "hax ?s = 1" "sent ?s serverSock = []"
    "incoming tunnelSock ?s = hack_packet (0, 0, 0, 0, 0) (0, 40) @ []"
    by (simp_all add: start_def hack_packet_def)
  then show ?thesis using hax_lifts_restrictions [of ?s "(0, 0, 0, 0, 0)" 0 40 "[]"] by simp
qed

section \<open>Following\<close>





section \<open>Chat\<close>

text \<open>
  C40: What the game server says in chat is relayed to the game client whatever the player table
  holds: a player who is to be ignored, by command or by the ignore file, is heard as before.
\<close>

theorem ignored_chat_is_relayed:
  assumes "status s = Running" and "accepts s serverSock = []" and "length m = 64"
    and "incoming tunnelSock s = 0x0d # who # m @ rest"
  shows "sent (mc_iter (s\<lparr>players := table\<rparr>)) serverSock = sent s serverSock @ 0x0d # who # m
    \<and> incoming tunnelSock (mc_iter (s\<lparr>players := table\<rparr>)) = rest"
proof -
  let ?s = "s\<lparr>players := table\<rparr>"
  have fs: "recvs tunnelSock [RecvW 1, RecvW 64] (sip tunnelSock 1 ?s) = ([[who], m], sip tunnelSock 66 ?s)"
    using recvs_fields [of "[RecvW 1, RecvW 64]" ?s tunnelSock 13 "[[who], m]" rest] assms(3,4)
    by (simp add: numeral_eq_Suc)
  have "mc_iter ?s = mc_chat (sip tunnelSock 1 ?s)"
    using mc_iter_packet [of ?s 13 "who # m @ rest" mc_chat] assms(1,4) by (simp add: mc_handlers_def)
  then have "mc_iter ?s = emit serverSock (0x0d # who # m) (sip tunnelSock 66 ?s)"
    using assms(2) unfolding mc_chat_def fs by (simp add: Let_def wire_simps frame_simps del: One_nat_def)
  with assms(3,4) show ?thesis by (simp add: emit_def sip_def)
qed

theorem ignored_chat_is_relayed_witness:
  "sent (mc_iter (start\<lparr>segs := (\<lambda>_. [])(tunnelSock := [0x0d # 3 # replicate 64 33]),
     players := (\<lambda>_. zero_player\<lparr>p_ignore := True\<rparr>)\<rparr>)) serverSock = 0x0d # 3 # replicate 64 33"
proof -
  let ?s = "start\<lparr>segs := (\<lambda>_. [])(tunnelSock := [0x0d # 3 # replicate 64 33])\<rparr>"
  have "status ?s = Running" "accepts ?s serverSock = []" "length (replicate 64 (33 :: byte)) = 64"
    "incoming tunnelSock ?s = 0x0d # 3 # replicate 64 33 @ []" "sent ?s serverSock = []"
    by (simp_all add: start_def)
  then show ?thesis
    using ignored_chat_is_relayed [of ?s "replicate 64 33" 3 "[]" "\<lambda>_. zero_player\<lparr>p_ignore := True\<rparr>"]
    by simp
qed

section \<open>Entities\<close>

definition entity_packet :: "byte \<Rightarrow> byte list \<Rightarrow> byte list \<Rightarrow> byte list \<Rightarrow> byte list" where
  "entity_packet eid name skin place = 0x21 # eid # name @ skin @ place"

text \<open>
  When both sides announce extended positions, the packet that adds an entity is read and
  not passed on: the game client never learns of the entity, which only the tunnel's own table
  holds. The number of the entity is taken as signed there, so those from 128 on are stored
  outside the table.
\<close>

theorem extended_entities_are_swallowed:
  assumes "status s = Running" and "extEntityPos (cpeClient s)" and "extEntityPos (cpeServer s)"
    and "length name = 64" and "length skin = 64" and "length place = 14"
    and "incoming tunnelSock s = entity_packet eid name skin place @ rest"
  shows "sent (mc_iter s) = sent s \<and> incoming tunnelSock (mc_iter s) = rest
    \<and> p_valid (players (mc_iter s) (schar eid))
    \<and> (128 \<le> eid \<longrightarrow> BadIndex (schar eid) \<in> set (remarks (mc_iter s)))"
proof -
  let ?cs = "[RecvW 1, RecvW 64, RecvW 64, RecvW 4, RecvW 4, RecvW 4, RecvW 1, RecvW 1]"
    and ?at = "\<lambda>i n. take n (drop i place)"
  let ?fs = "[[eid], name, skin, ?at 0 4, ?at 4 4, ?at 8 4, ?at 12 1, ?at 13 1]"
  have place: "?at 0 4 @ ?at 4 4 @ ?at 8 4 @ ?at 12 1 @ ?at 13 1 = place"
    using assms(6) by (simp add: drop_take flip: take_add)
  have "recvs tunnelSock ?cs (sip tunnelSock 1 s) = (?fs, sip tunnelSock (Suc (length (concat ?fs))) s)"
  proof (rule recvs_fields)
    show "incoming tunnelSock s = 0x21 # concat ?fs @ rest"
      using assms(7) place by (simp add: entity_packet_def)
  qed (use assms(4-6) in simp_all)
  moreover have "length (concat ?fs) = 143" using assms(4-6) by simp
  ultimately have fs: "recvs tunnelSock ?cs (sip tunnelSock 1 s) = (?fs, sip tunnelSock 144 s)" by simp
  have ext: "(extEntityPos (cpeClient (sip tunnelSock 1 s)) \<and> extEntityPos (cpeServer (sip tunnelSock 1 s))) = True"
    using assms(2,3) by (simp add: sip_def)
  have "mc_iter s = mc_extAddEntity2 (sip tunnelSock 1 s)"
    using mc_iter_packet [OF assms(1), of 33 "eid # name @ skin @ place @ rest" mc_extAddEntity2] assms(7)
    by (simp add: mc_handlers_def entity_packet_def)
  then have step: "mc_iter s = add_entity eid skin (place ! 12) (place ! 13) (sip tunnelSock 144 s)"
    using assms(6) unfolding mc_extAddEntity2_def ext if_True fs by (simp add: nth_drop)
  have valid: "p_valid (players (add_entity e n a b t) (schar e))" for e n a b t
    by (simp add: add_entity_def Let_def case_prod_beta upd_player_def remark_def)
  have bad: "BadIndex (schar e) \<in> set (remarks (add_entity e n a b t))" if "128 \<le> e" for e n a b t
  proof -
    have "uint e < 256" using uint_lt2p [of e] by simp
    moreover have "128 \<le> uint e" using that by (simp add: word_le_def)
    ultimately have "uint e div 128 = 1" by simp
    then have "bit (uint e) 7" by (simp add: bit_iff_odd)
    then have "\<not> player_array (schar e)"
      using that by (simp add: player_array_def schar_def word_le_def sint_uint signed_take_bit_int_eq_self_iff)
    then show ?thesis
      by (simp add: add_entity_def Let_def case_prod_beta upd_player_def remark_def)
  qed
  have "length (entity_packet eid name skin place) = 144" using assms(4-6) by (simp add: entity_packet_def)
  with assms(7) show ?thesis using valid bad by (simp add: step frame_simps)
qed

definition far_world :: world where
  "far_world = start\<lparr>cpeClient := no_CPE\<lparr>extEntityPos := True\<rparr>, cpeServer := no_CPE\<lparr>extEntityPos := True\<rparr>,
     segs := (\<lambda>_. [])(tunnelSock := [entity_packet 200 (replicate 64 65) (replicate 64 66) (replicate 14 0)])\<rparr>"

theorem extended_entities_are_swallowed_witness:
  "sent (mc_iter far_world) serverSock = [] \<and> p_valid (players (mc_iter far_world) (- 56))"
proof -
  have "status far_world = Running" "extEntityPos (cpeClient far_world)" "extEntityPos (cpeServer far_world)"
    "length (replicate 64 (65 :: byte)) = 64" "length (replicate 64 (66 :: byte)) = 64"
    "length (replicate 14 (0 :: byte)) = 14"
    "incoming tunnelSock far_world = entity_packet 200 (replicate 64 65) (replicate 64 66) (replicate 14 0) @ []"
    by (simp_all add: far_world_def start_def)
  from extended_entities_are_swallowed [OF this] have "sent (mc_iter far_world) = sent far_world"
    "p_valid (players (mc_iter far_world) (schar 200))" by blast+
  moreover have "schar 200 = - 56" by (simp add: schar_def)
  ultimately show ?thesis by (simp add: far_world_def start_def)
qed

section \<open>The end of the session\<close>

text \<open>
  C29: When the game server is gone, the game client gets a disconnect packet whose text is blank:
  the message is padded from its own buffer, which is cleared first. Then the process ends.
\<close>

theorem disconnect_message_is_blank:
  assumes "status s = Running" and "accepts s serverSock = []" and "incoming tunnelSock s = []"
  shows "sent (mc_iter s) serverSock = sent s serverSock @ 0x0e # replicate 64 32
    \<and> status (mc_iter s) = Exited"
proof -
  define t where "t = snd (snd (recvW tunnelSock 1 s))"
  have gone: "fst (recvW tunnelSock 1 s) < 1"
    using recvW_loop_short [of "segs s tunnelSock" 1 "[]" "ending s tunnelSock"] assms(3)
    by (simp add: recvW_def fresh_def split: ending.split del: One_nat_def)
  have t: "accepts t = accepts s" "sent t = sent s"
    by (simp_all add: t_def recvW_def fresh_def split: prod.splits)
  have step: "mc_iter s = mc_disconnect t"
    using assms(1) gone by (simp add: mc_iter_def t_def case_prod_beta)
  have blank: "map (toMCString_mem 0 0 m) [0 ..< 64] = replicate 64 32" for m
  proof (rule nth_equalityI)
    fix i assume "i < length (map (toMCString_mem 0 0 m) [0 ..< 64])"
    then show "map (toMCString_mem 0 0 m) [0 ..< 64] ! i = replicate 64 32 ! i"
      by (simp add: toMCString_mem_def Let_def)
  qed simp
  show ?thesis
    using assms(2) unfolding step mc_disconnect_def Let_def case_prod_beta blank
    by (simp add: t wire_simps emit_def fresh_def remark_def)
qed

theorem disconnect_message_is_blank_witness:
  "sent (mc_iter start) serverSock = 0x0e # replicate 64 32"
  using disconnect_message_is_blank [of start] by (simp add: start_def)

end
