(* ===== verification/Settings.thy ===== *)
theory Settings
  imports Points StartupProps ServerAnswers
begin

text \<open>
  From \<open>main\<close> into the threads: what a relation has to respect to be respected by every turn of
  every thread, and the settings that \<open>main\<close> reads and nothing changes afterwards.
\<close>

section \<open>Laws of change for all threads\<close>

text \<open>
  The steps of \<open>preserved\<close> are those of the packets that are only relayed. Commands, points and
  the builder also write the player's toggles, the three building jobs and the files.
\<close>

locale lasting = preserved +
  assumes R_trans: "R s t \<Longrightarrow> R t u \<Longrightarrow> R s u"
    and R_jobs: "R s t \<Longrightarrow> R s (t\<lparr>copy := c\<rparr>)" "R s t \<Longrightarrow> R s (t\<lparr>paste := p\<rparr>)"
      "R s t \<Longrightarrow> R s (t\<lparr>cuboid := q\<rparr>)" "R s t \<Longrightarrow> R s (t\<lparr>points := n\<rparr>)"
      "R s t \<Longrightarrow> R s (t\<lparr>zPlace := h\<rparr>)" "R s t \<Longrightarrow> R s (t\<lparr>files := fs\<rparr>)"
    and R_toggles: "R s t \<Longrightarrow> R s (t\<lparr>hide := h\<rparr>)" "R s t \<Longrightarrow> R s (t\<lparr>gimped := h\<rparr>)"
      "R s t \<Longrightarrow> R s (t\<lparr>paint := h\<rparr>)" "R s t \<Longrightarrow> R s (t\<lparr>paintBid := b\<rparr>)"
      "R s t \<Longrightarrow> R s (t\<lparr>plotBlock := b\<rparr>)" "R s t \<Longrightarrow> R s (t\<lparr>user := who\<rparr>)"
      "R s t \<Longrightarrow> R s (t\<lparr>players := ps\<rparr>)" "R s t \<Longrightarrow> R s (t\<lparr>rands := rs\<rparr>)"
      "R s t \<Longrightarrow> R s (t\<lparr>remarks := es\<rparr>)"
    and R_login: "R s t \<Longrightarrow> R s (t\<lparr>fucked := h\<rparr>)" "R s t \<Longrightarrow> R s (t\<lparr>unused := b\<rparr>)"
      "R s t \<Longrightarrow> R s (t\<lparr>tunnelUser := m\<rparr>)" "R s t \<Longrightarrow> R s (t\<lparr>clientThread := h\<rparr>)"
      "R s t \<Longrightarrow> R s (t\<lparr>builderThread := h\<rparr>)"
begin

lemmas R_fields = R_intros R_jobs R_toggles R_login

lemma R_recvs_from: "R s t \<Longrightarrow> R s (snd (recvs k cs t))"
  by (rule R_trans [OF _ R_recvs])

lemma R_say: "R s t \<Longrightarrow> R s (say m t)" "R s t \<Longrightarrow> R s (sayf w t)"
  "R s t \<Longrightarrow> R s (goto_player i t)" "R s t \<Longrightarrow> R s (goto_user t)" "R s t \<Longrightarrow> R s (snd (rand t))"
  unfolding say_def sayf_def goto_player_def goto_user_def rand_def Let_def snd_conv
  by (intro R_fields | assumption)+

lemma R_fold_msg: "R s t \<Longrightarrow> R s (fold tunnelMsg ms t)"
  by (induction ms arbitrary: t) (simp_all add: R_packets)

lemma R_ptp: "R s t \<Longrightarrow> R s (ptp_loop n vx vy p t)"
  by (induction n vx vy p t rule: ptp_loop.induct) (simp_all add: Let_def R_packets)

lemma R_find: "R s t \<Longrightarrow> R s (snd (find_equal a is t))"
proof (induction "is" arbitrary: t)
  case (Cons i "is")
  have "R s (snd (call_strEqual a (p_username (players u i)) False u))" if "R s u" for u
    using that by (rule R_calls)
  then show ?case using Cons by (auto simp: Let_def case_prod_beta R_remark)
qed simp

lemma R_follow: "R s t \<Longrightarrow> R s (snd (follow_loop a is f t))"
  by (induction a "is" f t rule: follow_loop.induct) (simp_all add: R_player R_say)

lemma R_gimp_loop: "R s t \<Longrightarrow> R s (gimp_loop js n w t)"
  by (induction js n w t rule: gimp_loop.induct) (simp_all add: Let_def R_packets R_calls)

lemmas R_all = R_fields R_recvs_from R_say R_fold_msg R_ptp R_find R_follow R_gimp_loop

lemma R_plain:
  "R s (snd (cmd_hide s))" "R s (snd (cmd_back s))" "R s (snd (cmd_ptp s))" "R s (snd (cmd_roll s))"
  "R s (snd (cmd_gimp s))" "R s (cmd_dump s)" "R s (snd (cmd_cancel s))"
  unfolding cmd_hide_def cmd_back_def cmd_ptp_def cmd_roll_def cmd_gimp_def cmd_dump_def
    cmd_cancel_def Let_def case_prod_beta
  by (intro R_all)+

lemma R_args:
  "R s (snd (cmd_tp args s))" "R s (snd (cmd_help args s))" "R s (snd (cmd_plotmotion args s))"
  "R s (snd (cmd_paint args s))" "R s (snd (cmd_paste args s))" "R s (snd (cmd_copy args s))"
  "R s (snd (cmd_z args s))" "R s (snd (cmd_zspeed args s))" "R s (snd (cmd_find args s))"
  "R s (snd (cmd_ignore args s))" "R s (snd (cmd_follow args s))" "R s (snd (cmd_spectate args s))"
  by (auto simp: Let_def case_prod_beta cmd_tp_def cmd_help_def cmd_plotmotion_def cmd_paint_def
      cmd_paste_def cmd_copy_def cmd_z_def cmd_zspeed_def cmd_find_def cmd_ignore_def cmd_follow_def
      cmd_spectate_def split: list.split option.split intro!: R_all)

lemma R_commandFunc: "R s t \<Longrightarrow> R s (snd (commandFunc c t))"
  by (rule commandFunc_keeps [of "R s"])
    (auto simp: argument_commands_def intro: R_trans [OF _ R_plain(1)] R_trans [OF _ R_plain(2)]
      R_trans [OF _ R_plain(3)] R_trans [OF _ R_plain(4)] R_trans [OF _ R_plain(5)]
      R_trans [OF _ R_plain(6)] R_trans [OF _ R_plain(7)] R_trans [OF _ R_args(1)]
      R_trans [OF _ R_args(2)] R_trans [OF _ R_args(3)] R_trans [OF _ R_args(4)]
      R_trans [OF _ R_args(5)] R_trans [OF _ R_args(6)] R_trans [OF _ R_args(7)]
      R_trans [OF _ R_args(8)] R_trans [OF _ R_args(9)] R_trans [OF _ R_args(10)]
      R_trans [OF _ R_args(11)] R_trans [OF _ R_args(12)])

lemma R_points:
  "R s t \<Longrightarrow> R s (point_cuboid x y z b t)" "R s t \<Longrightarrow> R s (point_paste x y z t)"
  "R s t \<Longrightarrow> R s (point_copy x y z t)" "R s t \<Longrightarrow> R s (restore_block x y z t)"
  unfolding point_cuboid_def point_paste_def point_copy_def restore_block_def Let_def
  by (auto split: option.split intro!: R_all)

lemma R_gimped: "R s t \<Longrightarrow> R s (ts_gimped w t)"
  unfolding ts_gimped_def Let_def case_prod_beta by (intro R_all | assumption)+

lemma R_ts_own: "R s (ts_login s)" "R s (ts_setBlock s)" "R s (ts_position s)" "R s (ts_chat s)"
  unfolding ts_login_def ts_setBlock_def ts_position_def ts_chat_def Let_def case_prod_beta
  by (intro R_all R_points R_gimped R_commandFunc)+

lemma R_ts_packet: "R s (ts_packet i s)"
proof -
  have "list_all (\<lambda>(i, h). \<forall>t. R t (h t)) ts_handlers"
    by (simp add: ts_handlers_def R_ts_own ts_ext from_client.ts_forwarded)
  then have "R s (h s)" if "map_of ts_handlers i = Some h" for h
    using map_of_SomeD [OF that] by (fastforce simp: list_all_iff)
  then show ?thesis by (auto simp: ts_packet_def R_ts_own R_refl split: option.split)
qed

lemma R_ts_iter: "R s (ts_iter s)"
  unfolding ts_iter_def ts_disconnect_def Let_def case_prod_beta
  by (intro R_all R_trans [OF R_recvW [OF R_refl] R_ts_packet])

lemma R_mc_iter: "R s (mc_iter s)"
  by (rule from_server.mc_iter) (rule R_trans)

lemma R_mc_connect: "R s (mc_connect d s)"
proof -
  have "R s (mc_login s)"
    unfolding mc_login_def Let_def case_prod_beta by (intro R_all | assumption)+
  then show ?thesis
    by (cases d) (simp_all add: mc_connect_def R_calls R_status R_refl)
qed

lemma R_console: "R s (snd (console_line l s))"
  by (auto simp: console_line_def Let_def case_prod_beta split: list.split intro!: R_all R_commandFunc)

lemma R_cells:
  "R s t \<Longrightarrow> R s (paste_cell x y z n bs t)" "R s t \<Longrightarrow> R s (cuboid_cell x y z b t)"
  "R s t \<Longrightarrow> R s (snd (hide_self t))" "R s t \<Longrightarrow> R s (unhide_self h t)"
  unfolding paste_cell_def cuboid_cell_def pastebuf_at_def hide_self_def unhide_self_def Let_def
    case_prod_beta
  by (intro R_all | assumption)+

lemma R_builder: "R s (snd (builder_step (b, s)))"
proof -
  have "R s (snd (paste_begin s))" "R s (snd (copy_begin s))" "R s (snd (cuboid_begin s))"
    by (auto simp: paste_begin_def copy_begin_def cuboid_begin_def Let_def case_prod_beta
        split: option.split intro!: R_all R_cells)
  moreover have "R s (snd (paste_step ph l s))" "R s (snd (copy_step ph l s))"
    "R s (snd (cuboid_step ph l s))" for ph l
    by (cases ph; auto simp: copy_end_def cuboid_end_def Let_def split: option.split intro!: R_all R_cells)+
  ultimately show ?thesis by (auto simp: R_refl R_remark split: builder.split)
qed

theorem R_moves: "R (wld g) (wld g')" if "moves g g'"
  using that
proof (rule moves_keep [where I = "R (wld g)"])
qed (auto intro: R_refl R_trans [OF _ R_ts_iter] R_trans [OF _ R_mc_iter] R_trans [OF _ R_mc_connect]
    R_trans [OF _ R_builder] R_trans [OF _ R_console] simp del: builder_step.simps)

end


section \<open>Settings\<close>

text \<open>What the configuration and the text files decide, as the running tunnel holds it.\<close>

definition settings :: "world \<Rightarrow> (int \<times> byte list \<times> int) \<times> (byte list \<times> byte list)
    \<times> (byte list list \<times> int) \<times> (byte list list \<times> int)" where
  "settings s = ((hax s, haxType s, useCPE s), (username s, mppass s), (ignores s, ignoreN s), (gimp s, gimpN s))"

lemma settings_calls:
  "settings (snd (snd (recvW k n s))) = settings s" "settings (snd (rcv k c s)) = settings s"
  "settings (snd_call k sc s) = settings s" "settings (remark e s) = settings s"
  "settings (snd (fresh n s)) = settings s" "settings (upd_player i f s) = settings s"
  by (cases c; cases sc; simp add: settings_def recvW_def recv_def fresh_def snd_call.simps sendW_def
      send_def remark_def upd_player_def case_prod_beta)+

lemma settings_fields: "settings (snd (recvs k cs s)) = settings s" "settings (sends k scs s) = settings s"
proof -
  show "settings (snd (recvs k cs s)) = settings s"
    by (induction cs arbitrary: s) (simp_all add: recvs_def settings_calls case_prod_beta)
  show "settings (sends k scs s) = settings s"
    by (induction scs arbitrary: s) (simp_all add: sends.simps settings_calls)
qed

interpretation settled: lasting "\<lambda>s t. settings t = settings s"
  by unfold_locales (simp_all add: settings_calls settings_fields, simp_all add: settings_def)

lemma settings_last: "moves (boot s) g \<Longrightarrow> settings (wld g) = settings s"
  using settled.R_moves [of "boot s" g] by (simp add: boot_def)

section \<open>What \<open>main\<close> leaves in the globals\<close>

definition given :: "launch \<Rightarrow> int \<times> int \<times> byte list list \<times> byte list list \<times> int" where
  "given s = (g_hax s, g_useCPE s, g_ignores s, g_gimp s, g_gimpN s)"

lemma given_calls [simp]:
  "given (copied c n s) = given s" "given (stop st s) = given s" "given (word_written w s) = given s"
  "given (snd (getstr s)) = given s" "given (snd (getch s)) = given s" "given (clear_http s) = given s"
  "given (snd (tok_at i ts s)) = given s" "given (snd (token_text i ts txt s)) = given s"
  "given (curl_write ptr s) = given s" "given (save_info s) = given s" "given (save_direct s) = given s"
  by (simp_all add: given_def copied_def remark_def stop_def word_written_def getstr_def getch_def
      clear_http_def tok_at_def token_text_def curl_write_def save_info_def save_direct_def fresh_def
      Let_def case_prod_beta split: option.split list.split)

lemma given_web: "given (curl_easy_perform web url post s) = given s"
proof -
  have "given (fold curl_write ps t) = given t" for ps t by (induction ps arbitrary: t) simp_all
  then show ?thesis by (simp add: curl_easy_perform_def split: option.split) (simp add: given_def stop_def)
qed

lemma given_updates [simp]:
  "given (s\<lparr>g_username := b\<rparr>) = given s" "given (s\<lparr>g_password := b\<rparr>) = given s"
  "given (s\<lparr>g_hash := b\<rparr>) = given s" "given (s\<lparr>g_ipa := b\<rparr>) = given s"
  "given (s\<lparr>g_mppass := b\<rparr>) = given s" "given (s\<lparr>g_port := n\<rparr>) = given s"
  "given (s\<lparr>loginMethod := n\<rparr>) = given s" "given (s\<lparr>dircon := h\<rparr>) = given s"
  by (simp_all add: given_def)

lemma given_steps:
  "given (load_info s) = given s" "given (load_direct s) = given s" "given (prompt s) = given s"
  by (simp_all add: load_info_def load_direct_def prompt_def Let_def case_prod_beta split: option.split)

lemma next_if_given: "(\<And>t. given (f t) = given t) \<Longrightarrow> given (next_if f s) = given s"
  by (simp add: next_if_def)

lemma given_connect: "given (connect_info web jsmn s) = given s"
proof -
  have api: "given (api_fields kens body t) = given t" for kens body t
    unfolding api_fields_def Let_def case_prod_beta by (simp add: next_if_def)
  have info: "given (apiInfo web jsmn t) = given t" for t
    unfolding apiInfo_def Let_def case_prod_beta
    by (auto simp: next_if_def given_web api split: option.split)
  have login: "given (mcLogin web jsmn t) = given t" for t
    unfolding mcLogin_def Let_def case_prod_beta
    by (simp add: next_if_def given_web split: option.split)
  show ?thesis
    by (simp add: connect_info_def next_if_def info login)
qed

text \<open>The tables of texts keep the rows they were declared with, whatever the files hold.\<close>

definition shaped :: "nat \<Rightarrow> nat \<Rightarrow> byte list list \<Rightarrow> bool" where
  "shaped n k g \<longleftrightarrow> length g = n \<and> (\<forall>r \<in> set g. length r = k)"

lemma shaped_update: "shaped n k g \<Longrightarrow> length r = k \<Longrightarrow> shaped n k (g[i := r])"
  using set_update_subset_insert [of g i r] by (auto simp: shaped_def)

lemma shaped_nth: "shaped n k g \<Longrightarrow> i < n \<Longrightarrow> length (g ! i) = k"
  by (simp add: shaped_def)

lemma shaped_chop: "length flat = n * k \<Longrightarrow> shaped n k (chop (replicate n k) flat)"
proof (induction n arbitrary: flat)
  case (Suc n)
  then have "shaped n k (chop (replicate n k) (drop k flat))" by simp
  with Suc.prems show ?case by (simp add: shaped_def)
qed (simp add: shaped_def)

lemma shaped_flat: "shaped n k g \<Longrightarrow> length (concat g) = n * k"
  by (induction g arbitrary: n) (auto simp: shaped_def)

lemma shaped_gimp_row:
  assumes "shaped n 256 g" "i < n" "length line \<le> 255"
  shows "shaped n 256 (gimp_row i line g)"
proof -
  define row where "row = (if line = [] then g ! i else put_at 0 (line @ [0]) (g ! i))"
  have row: "length row = 256" using shaped_nth [OF assms(1,2)] assms(3) by (simp add: row_def)
  have before: "length (g ! (i - 1)) = 256" using assms(2) by (intro shaped_nth [OF assms(1)]) simp
  show ?thesis
    unfolding gimp_row_def Let_def row_def [symmetric]
    using row before by (auto intro!: shaped_update assms(1))
qed

lemma gimp_rows_keep:
  "shaped 6024 256 (g_gimp s) \<Longrightarrow> shaped 6024 256 (g_gimp (gimp_rows is f s))
    \<and> g_hax (gimp_rows is f s) = g_hax s \<and> g_ignores (gimp_rows is f s) = g_ignores s"
proof (induction "is" arbitrary: f s)
  case (Cons i "is")
  let ?line = "fgets_line f"
  let ?t = "if i < length (g_gimp s) then s\<lparr>g_gimp := gimp_row i ?line (g_gimp s)\<rparr> else remark (BadIndex (int i)) s"
  have "length ?line \<le> 255" by (simp add: fgets_line_def Let_def)
  moreover have n: "length (g_gimp s) = 6024" using Cons.prems by (simp add: shaped_def)
  ultimately have "shaped 6024 256 (g_gimp ?t)" "g_hax ?t = g_hax s" "g_ignores ?t = g_ignores s"
    using Cons.prems by (simp_all add: shaped_gimp_row remark_def)
  then show ?case using Cons.IH [of ?t "drop (length ?line) f"] by (simp only: gimp_rows.simps Let_def)
qed simp

lemma ignore_word_keeps:
  assumes "shaped 64 64 (g_ignores s)"
  shows "shaped 64 64 (g_ignores (ignore_word i w s)) \<and> g_hax (ignore_word i w s) = g_hax s
    \<and> g_gimp (ignore_word i w s) = g_gimp s"
proof -
  have flat: "length (concat (g_ignores s)) = 4096" using shaped_flat [OF assms] by simp
  have "shaped 64 64 (chop (replicate 64 64) (take 4096 (put_at (64 * i) (w @ [0]) (concat (g_ignores s)))))"
    if "64 * i < 4096"
  proof -
    have "4096 \<le> length (put_at (64 * i) (w @ [0]) (concat (g_ignores s)))"
      using that by (simp add: put_at_def flat)
    then show ?thesis by (intro shaped_chop) simp
  qed
  with assms show ?thesis unfolding ignore_word_def Let_def flat by (simp add: remark_def)
qed

lemma ignore_rows_keep:
  "shaped 64 64 (g_ignores s) \<Longrightarrow> shaped 64 64 (g_ignores (ignore_rows is f s))
    \<and> g_hax (ignore_rows is f s) = g_hax s \<and> g_gimp (ignore_rows is f s) = g_gimp s"
proof (induction "is" arbitrary: f s)
  case (Cons i "is")
  let ?t = "case fst (scan_word f) of None \<Rightarrow> s | Some w \<Rightarrow> ignore_word i w s"
  have "shaped 64 64 (g_ignores ?t)" "g_hax ?t = g_hax s" "g_gimp ?t = g_gimp s"
    using Cons.prems ignore_word_keeps [of s i] by (simp_all split: option.split)
  then show ?case
    using Cons.IH [of ?t "snd (scan_word f)"] by (cases "scan_word f") simp
qed simp

definition tables :: "byte list list \<Rightarrow> byte list list \<Rightarrow> bool" where
  "tables ig gi \<longleftrightarrow> shaped 64 64 ig \<and> shaped 6024 256 gi"

lemma tables_loaded:
  assumes "tables (g_ignores s) (g_gimp s)"
  shows "tables (g_ignores (load_gimps s)) (g_gimp (load_gimps s)) \<and> g_hax (load_gimps s) = g_hax s"
    "tables (g_ignores (load_ignores s)) (g_gimp (load_ignores s)) \<and> g_hax (load_ignores s) = g_hax s"
proof -
  have c: "g_ignores (copied a b s) = g_ignores s" "g_gimp (copied a b s) = g_gimp s"
    "g_hax (copied a b s) = g_hax s" for a b using given_calls(1) [of a b s] by (simp_all add: given_def)
  have t: "shaped 64 64 (g_ignores s)" "shaped 6024 256 (g_gimp s)" using assms by (simp_all add: tables_def)
  have "shaped 6024 256 (g_gimp (gimp_rows js f (u\<lparr>g_gimpN := n\<rparr>)))
      \<and> g_hax (gimp_rows js f (u\<lparr>g_gimpN := n\<rparr>)) = g_hax s
      \<and> g_ignores (gimp_rows js f (u\<lparr>g_gimpN := n\<rparr>)) = g_ignores s"
    if "u = copied a b s" for js f n u a b
    using gimp_rows_keep [of "u\<lparr>g_gimpN := n\<rparr>" js f] t by (simp add: that c)
  then show "tables (g_ignores (load_gimps s)) (g_gimp (load_gimps s)) \<and> g_hax (load_gimps s) = g_hax s"
    unfolding load_gimps_def Let_def
    by (cases "gimpF s"; cases "disk s (cstr (the (gimpF s)))") (simp_all add: tables_def c t stop_def)
  have "shaped 64 64 (g_ignores (ignore_rows js f (s\<lparr>g_ignoreN := n\<rparr>)))
      \<and> g_hax (ignore_rows js f (s\<lparr>g_ignoreN := n\<rparr>)) = g_hax s
      \<and> g_gimp (ignore_rows js f (s\<lparr>g_ignoreN := n\<rparr>)) = g_gimp s" for js f n
    using ignore_rows_keep [of "s\<lparr>g_ignoreN := n\<rparr>" js f] t by simp
  then show "tables (g_ignores (load_ignores s)) (g_gimp (load_ignores s)) \<and> g_hax (load_ignores s) = g_hax s"
    unfolding load_ignores_def Let_def
    by (cases "disk s ignore_path") (simp_all add: tables_def t)
qed

lemma main_start_keeps:
  assumes "tables (g_ignores s) (g_gimp s)"
  shows "tables (g_ignores (main_start c web jsmn s)) (g_gimp (main_start c web jsmn s))
    \<and> g_hax (main_start c web jsmn s) = keep (cf_hax c) (g_hax s)"
proof -
  let ?P = "\<lambda>t. tables (g_ignores t) (g_gimp t) \<and> g_hax t = keep (cf_hax c) (g_hax s)"
  have nxt: "?P (next_if f t)" if "?P t" "?P (f t)" for f t using that by (simp add: next_if_def)
  have "?P (load_config c s)" using assms by (simp add: load_config_def)
  then have gimps: "?P (load_gimps (load_config c s))" using tables_loaded(1) by metis
  have ignores: "?P (next_if load_ignores t)" if "?P t" for t
    using that tables_loaded(2) [of t] by (intro nxt) auto
  have rest: "?P (next_if f t)" if "?P t" "given (f t) = given t" for f t
    using that by (intro nxt) (auto simp: given_def)
  show ?thesis
    unfolding main_start_def by (intro rest ignores gimps given_steps given_connect)
qed

text \<open>The jokes stay those that \<open>load_gimps\<close> has read.\<close>

lemma ignore_rows_gimps:
  "g_gimp (ignore_rows is f s) = g_gimp s \<and> g_gimpN (ignore_rows is f s) = g_gimpN s"
  by (induction "is" arbitrary: f s)
    (simp_all add: ignore_word_def remark_def Let_def case_prod_beta split: option.split)

lemma main_start_gimps:
  "g_gimp (main_start c web jsmn s) = g_gimp (load_gimps (load_config c s))
    \<and> g_gimpN (main_start c web jsmn s) = g_gimpN (load_gimps (load_config c s))"
proof -
  let ?P = "\<lambda>t. g_gimp t = g_gimp (load_gimps (load_config c s)) \<and> g_gimpN t = g_gimpN (load_gimps (load_config c s))"
  have "g_gimp (load_ignores t) = g_gimp t \<and> g_gimpN (load_ignores t) = g_gimpN t" for t
    by (simp add: load_ignores_def Let_def ignore_rows_gimps split: option.split)
  then have ignores: "?P (next_if load_ignores t)" if "?P t" for t using that by (simp add: next_if_def)
  have rest: "?P (next_if f t)" if "?P t" "given (f t) = given t" for f t
    using that by (simp add: next_if_def given_def)
  have "?P (load_gimps (load_config c s))" by simp
  then show ?thesis
    unfolding main_start_def by (intro rest ignores given_steps given_connect)
qed

section \<open>From the configuration to the threads\<close>

lemma zero_tables: "tables (g_ignores zero_launch) (g_gimp zero_launch)"
  by (simp add: zero_launch_def tables_def shaped_def)

definition hax_config :: config where
  "hax_config = \<lparr>cf_loginMethod = Some 0, cf_hax = Some 1, cf_haxType = None, cf_gimp = None, cf_CPE = Some 1\<rparr>"

text \<open>
  C35: \<open>hax\<close> set in the configuration file is in force in every state the threads and the console
  reach: nothing turns it off, so a HackControl packet never reaches the game client with its
  restrictions.
\<close>

theorem configured_hax_reaches_the_client:
  assumes "cf_hax c = Some 1" and "tables (g_ignores l) (g_gimp l)"
    and "moves (boot (start_tunnel (main_start c web jsmn l) s)) g"
    and "status (wld g) = Running" and "accepts (wld g) serverSock = []"
    and "incoming tunnelSock (wld g) = hack_packet flags (j1, j2) @ rest"
  shows "sent (mc_iter (wld g)) serverSock
    = sent (wld g) serverSock @ hack_packet (255, 1, 255, 255, 1) (255, j2)"
proof -
  have "hax (wld g) = 1"
    using settings_last [OF assms(3)] main_start_keeps [OF assms(2), of c web jsmn] assms(1)
    by (simp add: settings_def start_tunnel_def keep_def)
  with assms(4-6) show ?thesis by (simp add: mc_iter_hacks emit_def remark_def sip_def)
qed

theorem configured_hax_reaches_the_client_witness:
  "sent (mc_iter (start_tunnel (main_start hax_config (\<lambda>_ _ _. None) (\<lambda>_. None) zero_launch)
      (start\<lparr>segs := (\<lambda>_. [])(tunnelSock := [[0x20, 0, 0, 0, 0, 0, 0, 40]])\<rparr>))) serverSock
    = hack_packet (255, 1, 255, 255, 1) (255, 40)"
proof -
  let ?s = "start\<lparr>segs := (\<lambda>_. [])(tunnelSock := [[0x20, 0, 0, 0, 0, 0, 0, 40]])\<rparr>"
  let ?g = "boot (start_tunnel (main_start hax_config (\<lambda>_ _ _. None) (\<lambda>_. None) zero_launch) ?s)"
  have "cf_hax hax_config = Some 1" by (simp add: hax_config_def)
  moreover have "status (wld ?g) = Running" "accepts (wld ?g) serverSock = []" "sent (wld ?g) serverSock = []"
    "incoming tunnelSock (wld ?g) = hack_packet (0, 0, 0, 0, 0) (0, 40) @ []"
    by (simp_all add: boot_def start_tunnel_def start_def hack_packet_def)
  ultimately show ?thesis
    using configured_hax_reaches_the_client [OF _ zero_tables moves.none, where rest = "[]"]
    unfolding boot_def by fastforce
qed

end
