(* ===== verification/Toggles.thy ===== *)
theory Toggles
  imports ChatLine Points
begin

text \<open>
  What the player's toggles do to the packets of his client: \<open>hide\<close>, \<open>paint\<close> and \<open>gimp\<close>, and
  what \<open>cancel\<close> does to the builder.
\<close>

section \<open>Packets of the client\<close>

lemma ts_iter_packet:
  assumes "status s = Running" "incoming serverSock s = i # rest" "map_of ts_handlers i = Some h" "i \<noteq> 0"
  shows "ts_iter s = h (sip serverSock 1 s)"
  using assms by (simp add: ts_iter_def recvW_enough ts_packet_def)

text \<open>A failed \<open>accept\<close> is taken for a client, and the first receive then ends the program.\<close>

lemma failed_accept_ends:
  assumes "ts_accept (INVALID_SOCKET # vs) s = Some t" and "status s = Running"
  shows "status (ts_iter t) = Exited"
proof -
  have "status t = Running" "segs t serverSock = []"
    using assms by (auto simp: INVALID_SOCKET_def Let_def)
  then show ?thesis
    using recvW_loop_short [of "segs t serverSock" 1 "[]" "ending t serverSock"]
    by (simp add: ts_iter_def recvW_def fresh_def ts_disconnect_def split: ending.split)
qed

section \<open>hide\<close>

definition own_position :: "u16 \<times> u16 \<times> u16 \<Rightarrow> byte \<times> byte \<times> byte \<Rightarrow> byte list" where
  "own_position c v = (case (c, v) of ((x, y, z), (pid, yaw, pitch)) \<Rightarrow>
     0x08 # pid # posbytes x y z @ [yaw, pitch])"

text \<open>
  C37: While \<open>hide\<close> is on, by command, by \<open>spectate\<close> or because the builder is at work, the
  game server gets nothing of the positions the client sends, and the position to which \<open>back\<close>
  and \<open>cancel\<close> return stays what the server last saw; otherwise the packet is passed on unchanged
  and becomes that position.
\<close>

theorem hidden_positions_are_withheld:
  assumes "status s = Running" and "accepts s tunnelSock = []"
    and "incoming serverSock s = own_position (x, y, z) (pid, yaw, pitch) @ rest"
  shows "sent (ts_iter s) tunnelSock = sent s tunnelSock
      @ (if hide s then [] else own_position (x, y, z) (pid, yaw, pitch))
    \<and> (u_x (user (ts_iter s)), u_y (user (ts_iter s)), u_z (user (ts_iter s)))
      = (if hide s then (u_x (user s), u_y (user s), u_z (user s)) else (x, y, z))
    \<and> sent (ts_iter s) serverSock = sent s serverSock \<and> incoming serverSock (ts_iter s) = rest"
proof -
  let ?cs = "[RecvW 1, RecvW 2, RecvW 2, RecvW 2, RecvW 1, RecvW 1]"
    and ?fs = "[[pid], be16 x, be16 y, be16 z, [yaw], [pitch]]"
  have fs: "recvs serverSock ?cs (sip serverSock 1 s) = (?fs, sip serverSock 10 s)"
    using recvs_fields [of ?cs s serverSock 8 ?fs rest] assms(3)
    by (simp add: own_position_def posbytes_def numeral_eq_Suc)
  have "ts_iter s = ts_position (sip serverSock 1 s)"
    using ts_iter_packet [OF assms(1), of 8 "pid # posbytes x y z @ yaw # pitch # rest" ts_position] assms(3)
    by (simp add: ts_handlers_def own_position_def)
  moreover have "hide (sip serverSock 10 s) = hide s" "user (sip serverSock 10 s) = user s"
    "accepts (sip serverSock 10 s) tunnelSock = []" using assms(2) by (simp_all add: sip_def)
  ultimately have step: "ts_iter s = (if hide s
      then (sip serverSock 10 s)\<lparr>user := (user s)\<lparr>u_hx := x, u_hy := y, u_hz := z, u_hyaw := yaw, u_hpitch := pitch\<rparr>\<rparr>
      else emit tunnelSock (own_position (x, y, z) (pid, yaw, pitch)) ((sip serverSock 10 s)\<lparr>user :=
        (user s)\<lparr>u_x := x, u_y := y, u_z := z, u_yaw := yaw, u_pitch := pitch\<rparr>\<rparr>))"
    unfolding ts_position_def fs
    by (simp add: Let_def wire_simps own_position_def posbytes_def ld16_be16 del: One_nat_def)
  have "length (own_position (x, y, z) (pid, yaw, pitch)) = 10" by (simp add: own_position_def)
  with assms(3) show ?thesis by (simp add: step emit_def sip_def)
qed

theorem hidden_positions_are_withheld_witness:
  "sent (ts_iter ((client_sends (own_position (64, 32, 96) (255, 7, 9)))\<lparr>hide := True\<rparr>)) tunnelSock = []"
proof -
  let ?s = "(client_sends (own_position (64, 32, 96) (255, 7, 9)))\<lparr>hide := True\<rparr>"
  have "status ?s = Running" "accepts ?s tunnelSock = []" "sent ?s tunnelSock = []" "hide ?s"
    "incoming serverSock ?s = own_position (64, 32, 96) (255, 7, 9) @ []"
    by (simp_all add: client_sends_simps)
  then show ?thesis using hidden_positions_are_withheld [of ?s 64 32 96 255 7 9 "[]"] by simp
qed

section \<open>paint\<close>

text \<open>
  With \<open>paint\<close> on, and no command waiting for points, a block the player places or removes
  reaches the game server as one placed block of the painted kind; without it unchanged.
\<close>

theorem painted_blocks:
  assumes "status s = Running" and "accepts s tunnelSock = []" and "\<not> zPlace s"
    and "incoming serverSock s = block_packet (x, y, z) mode b @ rest"
  shows "sent (ts_iter s) tunnelSock = sent s tunnelSock
      @ (if paint s then block_packet (x, y, z) 1 (paintBid s) else block_packet (x, y, z) mode b)
    \<and> sent (ts_iter s) serverSock = sent s serverSock \<and> incoming serverSock (ts_iter s) = rest"
proof -
  let ?cs = "[RecvW 2, RecvW 2, RecvW 2, RecvW 1, RecvW 1]" and ?fs = "[be16 x, be16 y, be16 z, [mode], [b]]"
  have fs: "recvs serverSock ?cs (sip serverSock 1 s) = (?fs, sip serverSock 9 s)"
    using recvs_fields [of ?cs s serverSock 5 ?fs rest] assms(4)
    by (simp add: block_packet_def posbytes_def numeral_eq_Suc)
  have "ts_iter s = ts_setBlock (sip serverSock 1 s)"
    using ts_iter_packet [OF assms(1), of 5 "posbytes x y z @ mode # b # rest" ts_setBlock] assms(4)
    by (simp add: ts_handlers_def block_packet_def)
  moreover have "zPlace (sip serverSock 9 s) = zPlace s" "paint (sip serverSock 9 s) = paint s"
    "paintBid (sip serverSock 9 s) = paintBid s" "accepts (sip serverSock 9 s) tunnelSock = []"
    using assms(2) by (simp_all add: sip_def)
  ultimately have step: "ts_iter s = emit tunnelSock (if paint s then block_packet (x, y, z) 1 (paintBid s)
      else block_packet (x, y, z) mode b) (sip serverSock 9 s)"
    unfolding ts_setBlock_def fs using assms(3)
    by (simp add: Let_def wire_simps block_packet_def posbytes_def del: One_nat_def)
  have "length (block_packet (x, y, z) mode b) = 9" by (simp add: block_packet_def)
  with assms(4) show ?thesis by (simp add: step emit_def sip_def)
qed

theorem painted_blocks_witness:
  "sent (ts_iter ((client_sends (block_packet (1, 2, 3) 0 4))\<lparr>paint := True, paintBid := 46\<rparr>)) tunnelSock
    = block_packet (1, 2, 3) 1 46"
proof -
  let ?s = "(client_sends (block_packet (1, 2, 3) 0 4))\<lparr>paint := True, paintBid := 46\<rparr>"
  have "status ?s = Running" "accepts ?s tunnelSock = []" "sent ?s tunnelSock = []" "\<not> zPlace ?s"
    "incoming serverSock ?s = block_packet (1, 2, 3) 0 4 @ []"
    by (simp_all add: client_sends_simps)
  then show ?thesis using painted_blocks [of ?s 1 2 3 0 4 "[]"] by simp
qed

section \<open>gimp\<close>

text \<open>A line of talk: neither a command of the tunnel nor one of the server, and plain text.\<close>

definition talk :: "byte list \<Rightarrow> bool" where
  "talk m \<longleftrightarrow> m \<noteq> [] \<and> m ! 0 \<noteq> 39 \<and> m ! 0 \<noteq> 47 \<and> length m \<le> 62 \<and> 0 \<notin> set m \<and> 38 \<notin> set m \<and> single_spaced m"

definition joke :: "world \<Rightarrow> byte list" where
  "joke s = gimp_text (crem (rands s 0) (gimpN s - 1) + 1) s"

lemma ts_iter_gimped:
  assumes "status s = Running" and "gimped s" and "incoming serverSock s = chat_packet 0 m @ rest" and "talk m"
  shows "ts_iter s = ts_gimped 0 (after_chat s)"
proof -
  let ?msg = "cleanString (map (indet s) [0 ..< 64]) (toMCString m) (indet s 64)"
  have "cstr ?msg = m"
    using assms(4) cleanString_padded [of m "map (indet s) [0 ..< 64]" "indet s 64"]
    by (simp add: talk_def strip_colour_id cstr_no_nul)
  moreover obtain c r where m: "m = c # r" using assms(4) by (cases m) (auto simp: talk_def)
  ultimately have "?msg ! 0 = c" by (simp add: cstr_first)
  moreover have "toMCString m ! 0 = c" using assms(4) by (simp add: m talk_def toMCString_eq cstr_no_nul)
  ultimately show ?thesis
    using assms(2,4) by (simp add: ts_iter_line [OF assms(1,3)] m talk_def del: upt_Suc)
qed

lemma gimped_line:
  assumes "status s = Running" and "gimped s" and "accepts s tunnelSock = []"
    and "incoming serverSock s = chat_packet 0 m @ rest" and "talk m"
  shows "(gimpN s = 1 \<longrightarrow> status (ts_iter s) = Crashed DivZero)
    \<and> (gimpN s \<noteq> 1 \<and> length (cstr (joke s)) + length (cstr (p_username (players s (- 1)))) < 64
       \<longrightarrow> sent (ts_iter s) tunnelSock = sent s tunnelSock @ chat_packet 0 (joke s)
         \<and> status (ts_iter s) = Running)"
proof -
  let ?t = "after_chat s"
  have f: "rands ?t = rands s" "gimpN ?t = gimpN s" "players ?t = players s" "gimp ?t = gimp s"
    "accepts ?t tunnelSock = []" "sent ?t = sent s" "status ?t = Running"
    using assms(1,3) by (simp_all add: after_chat_eq sip_def)
  then have j: "gimp_text (crem (rands s 0) (gimpN s - 1) + 1) (?t\<lparr>rands := rs\<rparr>) = joke s" for rs
    by (simp add: joke_def gimp_text_def)
  show ?thesis
    unfolding ts_iter_gimped [OF assms(1,2,4,5)] ts_gimped_def
    using f j by (simp add: rand_def Let_def crash_def sendMessage_open remark_def emit_def
        message_def chat_packet_def)
qed

text \<open>
  C38: Of a gimped player's public line nothing is sent: the game server gets a joke of the file
  instead, picked among all rows but the last. A file that gives one row only, as a file without
  a line feed does, makes the line divide by zero.
\<close>

theorem gimped_line_becomes_a_joke:
  assumes "status s = Running" and "gimped s" and "accepts s tunnelSock = []"
    and "incoming serverSock s = chat_packet 0 m @ rest" and "talk m"
  shows "(gimpN s = 1 \<longrightarrow> status (ts_iter s) = Crashed DivZero)
    \<and> (gimpN s \<noteq> 1 \<and> length (cstr (joke s)) + length (cstr (p_username (players s (- 1)))) < 64
       \<longrightarrow> sent (ts_iter s) tunnelSock = sent s tunnelSock @ chat_packet 0 (joke s)
         \<and> status (ts_iter s) = Running)"
  by (rule gimped_line [OF assms])

theorem gimped_line_becomes_a_joke_witness:
  "status (ts_iter ((client_sends (chat_packet 0 (lit ''hi'')))\<lparr>gimped := True, gimpN := 1\<rparr>)) = Crashed DivZero"
proof -
  let ?s = "(client_sends (chat_packet 0 (lit ''hi'')))\<lparr>gimped := True, gimpN := 1\<rparr>"
  have "status ?s = Running" "gimped ?s" "accepts ?s tunnelSock = []" "gimpN ?s = 1"
    "incoming serverSock ?s = chat_packet 0 (lit ''hi'') @ []"
    by (simp_all add: client_sends_simps)
  moreover have "talk (lit ''hi'')" by (simp add: talk_def lit_def single_spaced_def)
  ultimately show ?thesis using gimped_line_becomes_a_joke by blast
qed

section \<open>z and cancel\<close>

text \<open>
  \<open>z\<close> with a name that is no block is not refused: it answers like any other and arms a
  cuboid of air, which clears the box.
\<close>

theorem unknown_block_arms_a_cuboid_of_air:
  assumes "accepts s serverSock = []" and "\<forall>name \<in> set all_names. \<not> strcmp0 arg (lit name)"
  shows "(let (known, t) = cmd_z (arg # args) s in known \<and> q_block (cuboid t) = 0 \<and> q_place (cuboid t)
    \<and> \<not> q_getBlock (cuboid t) \<and> zPlace t \<and> points t = 0
    \<and> sent t serverSock = sent s serverSock @ message 0 (tag @ lit ''z: Place two points.''))"
  using assms(1) getBid_unknown [OF assms(2)]
  by (simp add: cmd_z_def Let_def say_def tunnelMsg_open emit_def)

theorem unknown_block_arms_a_cuboid_of_air_witness:
  "q_block (cuboid (snd (cmd_z [lit ''dirtt''] (start\<lparr>cuboid := zero_cuboid\<lparr>q_block := 7\<rparr>\<rparr>)))) = 0"
proof -
  let ?s = "start\<lparr>cuboid := zero_cuboid\<lparr>q_block := 7\<rparr>\<rparr>"
  have "\<forall>name \<in> set all_names. \<not> strcmp0 (lit ''dirtt'') (lit name)"
    by (simp add: all_names_def block_table_def strcmp0_def lit_def)
  moreover have "accepts ?s serverSock = []" by (simp add: start_def)
  ultimately show ?thesis using unknown_block_arms_a_cuboid_of_air [of ?s "lit ''dirtt''" "[]"]
    by (simp add: case_prod_beta Let_def)
qed

text \<open>
  C39: Cancelled, a cuboid ends: wherever the builder is in it, at most three turns later it is
  done and polls again, has asked for no further block, and shows the player unless he was
  hidden before.
\<close>

theorem cancelled_cuboid_stops:
  assumes "status s = Running" and "accepts s serverSock = []" and "q_halt (cuboid s)"
  shows "\<exists>n \<le> 3. \<exists>t. iterate builder_step n (InCuboid ph l, s) = (PollPaste, t)
    \<and> sent t tunnelSock = sent s tunnelSock \<and> \<not> q_start (cuboid t) \<and> lmap t = lmap s
    \<and> hide t = (l_hidden l \<and> hide s) \<and> status t = Running"
proof -
  define ok where "ok = (\<lambda>m g. \<exists>l' (t :: world). g = (InCuboid m l', t) \<and> l_hidden l' = l_hidden l
    \<and> status t = Running \<and> accepts t serverSock = [] \<and> q_halt (cuboid t) \<and> hide t = hide s
    \<and> sent t tunnelSock = sent s tunnelSock \<and> lmap t = lmap s)"
  define ended where "ended = (\<lambda>g. \<exists>t :: world. g = (PollPaste, t) \<and> sent t tunnelSock = sent s tunnelSock
    \<and> \<not> q_start (cuboid t) \<and> lmap t = lmap s \<and> hide t = (l_hidden l \<and> hide s) \<and> status t = Running)"
  have z: "ok AtX (builder_step g)" if "ok AtZ g" for g
    using that by (auto simp: ok_def)
  have x: "ok AtY (builder_step g)" if "ok AtX g" for g
    using that by (auto simp: ok_def Let_def)
  have y: "ended (builder_step g)" if "ok AtY g" for g
    using that by (auto simp: ok_def ended_def Let_def cuboid_end_def unhide_self_def say_open remark_def emit_def)
  have g: "ok ph (InCuboid ph l, s)" using assms by (simp add: ok_def)
  have "\<exists>n \<le> 3. ended (iterate builder_step n (InCuboid ph l, s))"
  proof (cases ph)
    case AtY
    with g have "ended (iterate builder_step 1 (InCuboid ph l, s))" using y by (simp del: builder_step.simps)
    then show ?thesis by (intro exI [of _ 1]) (simp del: builder_step.simps)
  next
    case AtX
    with g have "ended (iterate builder_step 2 (InCuboid ph l, s))"
      using y x by (simp add: numeral_2_eq_2 del: builder_step.simps)
    then show ?thesis by (intro exI [of _ 2]) (simp del: builder_step.simps)
  next
    case AtZ
    with g have "ended (iterate builder_step 3 (InCuboid ph l, s))"
      using y x z by (simp add: numeral_3_eq_3 del: builder_step.simps)
    then show ?thesis by (intro exI [of _ 3]) (simp del: builder_step.simps)
  qed
  then show ?thesis by (simp add: ended_def del: builder_step.simps)
qed

theorem cancelled_cuboid_stops_witness:
  "\<exists>n \<le> 3. \<exists>t. iterate builder_step n (InCuboid AtZ pasting, snd (cmd_cancel start)) = (PollPaste, t)
    \<and> sent t tunnelSock = []"
proof -
  have c: "status (snd (cmd_cancel start)) = Running" "accepts (snd (cmd_cancel start)) serverSock = []"
    "q_halt (cuboid (snd (cmd_cancel start)))" "sent (snd (cmd_cancel start)) tunnelSock = []"
    by (simp_all add: cmd_cancel_def start_def Let_def say_def tunnelMsg_open emit_def)
  from cancelled_cuboid_stops [OF c(1-3), of AtZ pasting] c(4) show ?thesis by auto
qed

end
