(* ===== verification/Jokes.thy ===== *)
theory Jokes
  imports Settings Toggles
begin

text \<open>
  From the gimp file to the public chat: what \<open>main\<close> reads at start-up is what a gimped player's
  lines turn into, at any later time.
\<close>

lemma crem_mod: "0 \<le> r \<Longrightarrow> 0 < n \<Longrightarrow> crem r n = r mod n"
  by (cases "r = 0") (simp_all add: crem_def cdiv_def minus_mult_div_eq_mod)

lemma joke_of_row:
  assumes "gimp s = replicate 256 0 # map padded (ls @ [v]) @ zeros" "gimpN s = int (length ls) + 1"
    and "list_all a_line ls" "ls \<noteq> []" "0 \<le> rands s 0"
  shows "cstr (joke s) = ls ! nat (rands s 0 mod int (length ls))"
proof -
  let ?k = "nat (rands s 0 mod int (length ls))"
  have k: "?k < length ls" using assms(4) by (simp add: nat_less_iff)
  have "joke s = gimp_text (rands s 0 mod int (length ls) + 1) s"
    using assms(2,4,5) by (simp add: joke_def crem_mod)
  also have "\<dots> = concat (drop ?k (map padded ls) @ padded v # zeros)"
    using assms(1,4) k by (simp add: gimp_text_def nat_add_distrib)
  also have "drop ?k (map padded ls) = padded (ls ! ?k) # map padded (drop (Suc ?k) ls)"
    using k by (simp add: drop_map Cons_nth_drop_Suc [symmetric])
  finally have "joke s = padded (ls ! ?k) @ concat (map padded (drop (Suc ?k) ls) @ padded v # zeros)"
    by simp
  moreover have line: "a_line (ls ! ?k)" using assms(3) k by (simp add: list_all_length)
  moreover from this have "0 \<in> set (padded (ls ! ?k))" by (simp add: a_line_def padded_def)
  ultimately show ?thesis by (simp add: cstr_append cstr_padded a_line_def)
qed

text \<open>
  C34: The jokes are the lines of the configured file. However the start-up goes on and the
  threads then run, in every state they reach a gimped player's talk line goes to the game server
  as a line of that file: of its \<open>n\<close> lines that end in a line feed, the one that \<open>rand()\<close> modulo
  \<open>n\<close> picks. \<open>rand()\<close> is not negative; jokes that do not fit into one packet are split and not
  covered here.
\<close>

theorem jokes_come_from_the_file:
  assumes "cf_gimp c = Some name" and "disk l (cstr name) = Some content"
    and "text_in content = concat (map (\<lambda>l. l @ [10]) ls) @ u"
    and "list_all a_line ls" and "a_line u" and "ls \<noteq> []" and "length ls \<le> 6022"
    and "g_gimp l = replicate 6024 (replicate 256 0)"
    and "moves (boot (start_tunnel (main_start c web jsmn l) s)) g"
    and "status (wld g) = Running" and "gimped (wld g)" and "accepts (wld g) tunnelSock = []"
    and "incoming serverSock (wld g) = chat_packet 0 m @ rest" and "talk m"
    and "0 \<le> rands (wld g) 0" and "j = ls ! nat (rands (wld g) 0 mod int (length ls))"
    and "length j + length (cstr (p_username (players (wld g) (- 1)))) < 64"
  shows "sent (ts_iter (wld g)) tunnelSock = sent (wld g) tunnelSock @ chat_packet 0 j"
proof -
  let ?s = "wld g"
  have load: "gimpF (load_config c l) = Some name" "disk (load_config c l) (cstr name) = Some content"
    "g_gimp (load_config c l) = replicate 6024 (replicate 256 0)"
    using assms(1,2,8) by (simp_all add: load_config_def)
  have "gimp ?s = replicate 256 0 # map padded (ls @ [butlast u]) @ replicate (6022 - length ls) (replicate 256 0)"
    "gimpN ?s = int (length ls) + 1"
    using settings_last [OF assms(9)] main_start_gimps [of c web jsmn l]
      gimps_loaded [OF load(1,2) assms(3-5,7) load(3)]
    by (simp_all add: settings_def start_tunnel_def)
  note table = this
  from joke_of_row [OF table(1,2) assms(4,6,15)] have joke: "cstr (joke ?s) = j" using assms(16) by simp
  have "gimpN ?s \<noteq> 1" using table(2) assms(6) by simp
  with gimped_line [OF assms(10-14)] assms(17) joke
  have "sent (ts_iter ?s) tunnelSock = sent ?s tunnelSock @ chat_packet 0 (joke ?s)" by simp
  moreover have "toMCString (joke ?s) = toMCString j"
    using joke [symmetric] by (simp add: toMCString_def)
  ultimately show ?thesis by (simp add: chat_packet_def)
qed

text \<open>The file has a line \<open>one\<close> and a rest; the player says \<open>hi\<close>.\<close>

definition gimp_config :: config where
  "gimp_config = \<lparr>cf_loginMethod = Some 0, cf_hax = None, cf_haxType = None,
     cf_gimp = Some (lit ''g.txt'' @ [0]), cf_CPE = Some 1\<rparr>"

theorem jokes_come_from_the_file_witness:
  "sent (ts_iter (start_tunnel (main_start gimp_config (\<lambda>_ _ _. None) (\<lambda>_. None) jokes)
      ((client_sends (chat_packet 0 (lit ''hi'')))\<lparr>gimped := True\<rparr>))) tunnelSock = chat_packet 0 (lit ''one'')"
proof -
  let ?s = "(client_sends (chat_packet 0 (lit ''hi'')))\<lparr>gimped := True\<rparr>"
  let ?g = "boot (start_tunnel (main_start gimp_config (\<lambda>_ _ _. None) (\<lambda>_. None) jokes) ?s)"
  have config: "cf_gimp gimp_config = Some (lit ''g.txt'' @ [0])" by (simp add: gimp_config_def)
  have found: "disk jokes (cstr (lit ''g.txt'' @ [0])) = Some (lit ''one'' @ [13, 10] @ lit ''two'')"
    "g_gimp jokes = replicate 6024 (replicate 256 0)"
    by (simp_all add: jokes_def zero_launch_def)
  have rows: "text_in (lit ''one'' @ [13, 10] @ lit ''two'') = concat (map (\<lambda>l. l @ [10]) [lit ''one'']) @ lit ''two''"
    "list_all a_line [lit ''one'']" "a_line (lit ''two'')" "[lit ''one''] \<noteq> []" "length [lit ''one''] \<le> 6022"
    by (simp_all add: a_line_def lit_def)
  have state: "status (wld ?g) = Running" "gimped (wld ?g)" "accepts (wld ?g) tunnelSock = []"
    "incoming serverSock (wld ?g) = chat_packet 0 (lit ''hi'') @ []"
    by (simp_all add: boot_def start_tunnel_def client_sends_simps)
  have talk: "talk (lit ''hi'')" by (simp add: talk_def lit_def single_spaced_def)
  have nul: "cstr (replicate n 0) = []" for n by (cases n) simp_all
  have pick: "0 \<le> rands (wld ?g) 0" "lit ''one'' = [lit ''one''] ! nat (rands (wld ?g) 0 mod int (length [lit ''one'']))"
    "length (lit ''one'') + length (cstr (p_username (players (wld ?g) (- 1)))) < 64"
    by (simp_all add: boot_def start_tunnel_def client_sends_def start_def zero_player_def lit_def nul)
  have "sent (wld ?g) tunnelSock = []"
    by (simp add: boot_def start_tunnel_def client_sends_simps)
  with jokes_come_from_the_file [OF config found(1) rows found(2) moves.none state talk pick]
  show ?thesis by (simp add: boot_def)
qed

end
