(* ===== verification/Races.thy ===== *)
theory Races
  imports Toggles
begin

text \<open>
  Inside a turn. A packet leaves by several calls, and the threads send without a lock, so the
  calls of two threads can alternate in any way. On two connections this makes no difference;
  on one, each thread's bytes stay in order and the packets need not stay whole.
\<close>

section \<open>Calls of two threads\<close>

inductive race :: "(sock \<times> scall) list \<Rightarrow> (sock \<times> scall) list \<Rightarrow> world \<Rightarrow> world \<Rightarrow> bool" where
  over: "race [] [] s s"
| one_sends: "race as bs (snd_call k c s) t \<Longrightarrow> race ((k, c) # as) bs s t"
| other_sends: "race as bs (snd_call k c s) t \<Longrightarrow> race as ((k, c) # bs) s t"

inductive_simps race_over: "race [] [] s t"

definition on :: "sock \<Rightarrow> scall list \<Rightarrow> (sock \<times> scall) list" where
  "on k cs = map (Pair k) cs"

lemma on_simps [simp]: "on k [] = []" "on k (c # cs) = (k, c) # on k cs"
  by (simp_all add: on_def)

lemma on_ConsE:
  assumes "on k cs = (j, c) # as"
  obtains r where "j = k" "cs = c # r" "as = on k r"
  using assms by (cases cs) auto

lemma race_left: "race as bs (sends k cs s) t \<Longrightarrow> race (on k cs @ as) bs s t"
  by (induction cs arbitrary: s) (auto simp: sends.simps intro: race.intros)

lemma race_right: "race as bs (sends k cs s) t \<Longrightarrow> race as (on k cs @ bs) s t"
  by (induction cs arbitrary: s) (auto simp: sends.simps intro: race.intros)

lemma sends_append: "sends k (cs @ ds) s = sends k ds (sends k cs s)"
  by (induction cs arbitrary: s) (simp_all add: sends.simps)

section \<open>Two connections\<close>

lemma snd_call_commute:
  "k \<noteq> j \<Longrightarrow> snd_call k c (snd_call j d s) = snd_call j d (snd_call k c s)"
  by (cases c; cases d)
    (simp_all add: snd_call.simps sendW_def send_def case_prod_beta fun_upd_twist)

lemma sends_commute:
  "k \<noteq> j \<Longrightarrow> snd_call k c (sends j cs s) = sends j cs (snd_call k c s)"
  by (induction cs arbitrary: s) (simp_all add: sends.simps snd_call_commute)

lemma race_apart:
  "race as bs s t \<Longrightarrow> as = on k cs \<Longrightarrow> bs = on j ds \<Longrightarrow> k \<noteq> j \<Longrightarrow> t = sends j ds (sends k cs s)"
proof (induction arbitrary: cs ds rule: race.induct)
  case (over s)
  then have "cs = []" "ds = []" by (simp_all add: on_def)
  then show ?case by (simp add: sends.simps)
next
  case (one_sends as bs i c s t)
  from one_sends.prems(1) obtain r where r: "i = k" "cs = c # r" "as = on k r"
    by (metis on_ConsE)
  with one_sends show ?case by (simp add: sends.simps)
next
  case (other_sends as bs i c s t)
  from other_sends.prems(2) obtain r where r: "i = j" "ds = c # r" "bs = on j r"
    by (metis on_ConsE)
  with other_sends show ?case by (simp add: sends.simps sends_commute)
qed

text \<open>A peer that takes something at every call, and a call that goes on until all is sent.\<close>

definition eager :: "send_ret list \<Rightarrow> bool" where
  "eager sched \<longleftrightarrow> list_all (\<lambda>a. case a of Accept n \<Rightarrow> 0 < n | SendErr \<Rightarrow> False) sched"

lemma eager_iff: "eager sched \<longleftrightarrow> (\<forall>a \<in> set sched. \<exists>n > 0. a = Accept n)"
proof -
  have "(case a of Accept n \<Rightarrow> 0 < n | SendErr \<Rightarrow> False) \<longleftrightarrow> (\<exists>n > 0. a = Accept n)" for a
    by (cases a) auto
  then show ?thesis by (simp add: eager_def list_all_iff)
qed

fun whole :: "scall \<Rightarrow> bool" where
  "whole (SendW bs) = True"
| "whole (Send bs) = False"

lemma whole_call:
  assumes "whole c" "eager (accepts s k)"
  shows "sent (snd_call k c s) = (sent s)(k := sent s k @ payload c)" "eager (accepts (snd_call k c s) k)"
    "j \<noteq> k \<Longrightarrow> accepts (snd_call k c s) j = accepts s j"
proof -
  from assms(1) obtain bs where c: "c = SendW bs" by (cases c) auto
  from assms(2) sendW_loop_all [of "accepts s k" 0 bs "[]"] obtain sched
    where "sendW_loop bs 0 [] (accepts s k) = (int (length bs), bs, sched)" "eager sched"
    by (auto simp: eager_iff)
  then show "sent (snd_call k c s) = (sent s)(k := sent s k @ payload c)" "eager (accepts (snd_call k c s) k)"
    "j \<noteq> k \<Longrightarrow> accepts (snd_call k c s) j = accepts s j"
    by (simp_all add: c snd_call.simps sendW_def)
qed

lemma whole_calls:
  "list_all whole cs \<Longrightarrow> eager (accepts s k) \<Longrightarrow>
   sent (sends k cs s) = (sent s)(k := sent s k @ concat (map payload cs))
   \<and> (\<forall>j. j \<noteq> k \<longrightarrow> accepts (sends k cs s) j = accepts s j)"
  by (induction cs arbitrary: s) (simp_all add: sends.simps whole_call)

text \<open>
  C11: Two threads that send on different connections do not disturb each other. They send by
  \<open>sendW\<close>, to peers that take as little as they like but something at every call; then all orders
  of the single calls end in one and the same state, in which each connection has got everything
  its thread sent, byte for byte and in order.
\<close>

theorem separate_connections_deliver:
  assumes "k \<noteq> j" and "list_all whole cs" and "list_all whole ds"
    and "eager (accepts s k)" and "eager (accepts s j)"
  shows "\<exists>t. (\<forall>u. race (on k cs) (on j ds) s u \<longleftrightarrow> u = t)
    \<and> sent t k = sent s k @ concat (map payload cs) \<and> sent t j = sent s j @ concat (map payload ds)"
proof (intro exI conjI allI)
  let ?t = "sends j ds (sends k cs s)"
  have "race (on k cs @ []) (on j ds @ []) s ?t"
    by (rule race_left, rule race_right) (rule over)
  then have "race (on k cs) (on j ds) s ?t" by simp
  moreover have "u = ?t" if "race (on k cs) (on j ds) s u" for u
    by (rule race_apart [OF that refl refl assms(1)])
  ultimately show "race (on k cs) (on j ds) s u \<longleftrightarrow> u = ?t" for u by metis
  note one = whole_calls [OF assms(2,4)]
  have "eager (accepts (sends k cs s) j)" using one assms(1,5) by metis
  note two = whole_calls [OF assms(3) this]
  show "sent ?t k = sent s k @ concat (map payload cs)" "sent ?t j = sent s j @ concat (map payload ds)"
    using assms(1) by (simp_all add: conjunct1 [OF one] conjunct1 [OF two])
qed

text \<open>A block to the game server, which takes one byte and then two, while the client gets a ping and a user type.\<close>

theorem separate_connections_deliver_witness:
  "\<exists>t. (\<forall>u. race (on tunnelSock [SendW [5], SendW [0, 1, 0, 2, 0, 3, 1, 7]]) (on serverSock [SendW [1], SendW [15, 100]])
        (start\<lparr>accepts := (\<lambda>_. [])(tunnelSock := [Accept 1, Accept 1, Accept 2], serverSock := [Accept 3, Accept 1])\<rparr>) u
      \<longleftrightarrow> u = t)
    \<and> sent t tunnelSock = [5, 0, 1, 0, 2, 0, 3, 1, 7] \<and> sent t serverSock = [1, 15, 100]"
proof -
  let ?s = "start\<lparr>accepts := (\<lambda>_. [])(tunnelSock := [Accept 1, Accept 1, Accept 2], serverSock := [Accept 3, Accept 1])\<rparr>"
  have "list_all whole [SendW [5], SendW [0, 1, 0, 2, 0, 3, 1, 7]]" "list_all whole [SendW [1], SendW [15, 100]]"
    "eager (accepts ?s tunnelSock)" "eager (accepts ?s serverSock)" "tunnelSock \<noteq> serverSock"
    by (simp_all add: eager_def)
  from separate_connections_deliver [OF this(5,1-4)] show ?thesis by (simp add: start_def)
qed

section \<open>One connection\<close>

lemma append_in_shuffles:
  "w \<in> shuffles xs ys \<Longrightarrow> p @ w \<in> shuffles (p @ xs) ys"
  "w \<in> shuffles xs ys \<Longrightarrow> p @ w \<in> shuffles xs (p @ ys)"
  by (induction p) (simp_all add: Cons_in_shuffles_leftI Cons_in_shuffles_rightI)

lemma race_keeps_orders:
  "race as bs s t \<Longrightarrow> as = on k cs \<Longrightarrow> bs = on k ds \<Longrightarrow> accepts s k = [] \<Longrightarrow>
   \<exists>w \<in> shuffles (concat (map payload cs)) (concat (map payload ds)). sent t k = sent s k @ w"
proof (induction arbitrary: cs ds rule: race.induct)
  case (over s)
  then have "cs = []" "ds = []" by (simp_all add: on_def)
  then show ?case by simp
next
  case (one_sends as bs i c s t)
  from one_sends.prems(1) obtain r where r: "i = k" "cs = c # r" "as = on k r"
    by (metis on_ConsE)
  let ?s = "snd_call k c s"
  have s: "?s = emit k (payload c) s" using one_sends.prems(3) by (rule snd_call_open)
  with one_sends r obtain w where "w \<in> shuffles (concat (map payload r)) (concat (map payload ds))"
    "sent t k = sent ?s k @ w"
    by fastforce
  then show ?case
    by (intro bexI [of _ "payload c @ w"]) (simp_all add: s r(2) emit_def append_in_shuffles)
next
  case (other_sends as bs i c s t)
  from other_sends.prems(2) obtain r where r: "i = k" "ds = c # r" "bs = on k r"
    by (metis on_ConsE)
  let ?s = "snd_call k c s"
  have s: "?s = emit k (payload c) s" using other_sends.prems(3) by (rule snd_call_open)
  with other_sends r obtain w where "w \<in> shuffles (concat (map payload cs)) (concat (map payload r))"
    "sent t k = sent ?s k @ w"
    by fastforce
  then show ?case
    by (intro bexI [of _ "payload c @ w"]) (simp_all add: s r(2) emit_def append_in_shuffles)
qed

text \<open>The calls by which a block goes to the game server, from the client's thread and from
  the builder's.\<close>

definition block_calls :: "u16 \<times> u16 \<times> u16 \<Rightarrow> byte \<Rightarrow> byte \<Rightarrow> scall list" where
  "block_calls p mode b = (case p of (x, y, z) \<Rightarrow>
     [SendW [0x05], SendW (be16 x), SendW (be16 y), SendW (be16 z), SendW [mode], SendW [b]])"

lemma block_calls_payload: "concat (map payload (block_calls p mode b)) = block_packet p mode b"
  by (simp add: block_calls_def block_packet_def posbytes_def split: prod.split)

lemma setBlock_calls:
  "setBlock x y z k False s
    = sends tunnelSock (block_calls (x, y, z) (if k = 0 then 0 else 1) (if k = 0 then 1 else k)) s"
  by (simp add: setBlock_def coords_def block_calls_def)

lemma ts_iter_block_calls:
  assumes "status s = Running" and "\<not> zPlace s" and "\<not> paint s"
    and "incoming serverSock s = block_packet p mode b @ rest"
  shows "ts_iter s = sends tunnelSock (block_calls p mode b) (sip serverSock 9 s)"
proof -
  obtain x y z where p: "p = (x, y, z)" by (metis prod_cases3)
  let ?cs = "[RecvW 2, RecvW 2, RecvW 2, RecvW 1, RecvW 1]" and ?fs = "[be16 x, be16 y, be16 z, [mode], [b]]"
  have fs: "recvs serverSock ?cs (sip serverSock 1 s) = (?fs, sip serverSock 9 s)"
    using recvs_fields [of ?cs s serverSock 5 ?fs rest] assms(4)
    by (simp add: p block_packet_def posbytes_def numeral_eq_Suc)
  have "ts_iter s = ts_setBlock (sip serverSock 1 s)"
    by (rule ts_iter_packet [OF assms(1), of 5 "posbytes x y z @ [mode, b] @ rest"])
      (use assms(4) in \<open>simp_all add: p block_packet_def ts_handlers_def\<close>)
  moreover have "\<not> zPlace (sip serverSock 9 s)" "\<not> paint (sip serverSock 9 s)"
    using assms(2,3) by (simp_all add: sip_def)
  ultimately show ?thesis
    unfolding ts_setBlock_def fs by (simp add: Let_def p block_calls_def del: One_nat_def)
qed

text \<open>The two bytes of a coordinate on the wire, and a coordinate made of any two bytes.\<close>

definition high :: "u16 \<Rightarrow> byte" where "high w = ucast (drop_bit 8 w)"
definition low :: "u16 \<Rightarrow> byte" where "low w = ucast w"

definition glued :: "byte \<Rightarrow> byte \<Rightarrow> u16" where
  "glued a b = ntohs (ld16 [a, b])"

lemma be16_glued: "be16 (glued a b) = [a, b]"
  unfolding glued_def by (rule be16_of_ld16) simp

lemma be16_bytes: "be16 w = [high w, low w]"
  by (simp add: be16_def high_def low_def)

text \<open>
  C10: The comment in the builder's cuboid that calls malformed packets \<open>bullshit\<close> is wrong.
  While the builder places a block with its calls, the client's thread may pass on a block the
  player placed. Every order of their calls keeps the bytes of each block in order, but there
  is one in which what the game server reads first is neither block: it is a block at a place
  glued together from the bytes of both, after which it is out of step with the stream.
\<close>

theorem interleaved_blocks_tear:
  assumes "status s = Running" and "accepts s tunnelSock = []" and "\<not> zPlace s" and "\<not> paint s"
    and "incoming serverSock s = block_packet (x, y, z) mode b @ rest" and "k \<noteq> 0"
  shows "ts_iter s = sends tunnelSock (block_calls (x, y, z) mode b) (sip serverSock 9 s)
    \<and> setBlock u v w k False s' = sends tunnelSock (block_calls (u, v, w) 1 k) s'
    \<and> (\<forall>t. race (on tunnelSock (block_calls (u, v, w) 1 k)) (on tunnelSock (block_calls (x, y, z) mode b))
          (sip serverSock 9 s) t
        \<longrightarrow> (\<exists>bs \<in> shuffles (block_packet (u, v, w) 1 k) (block_packet (x, y, z) mode b).
          sent t tunnelSock = sent s tunnelSock @ bs))
    \<and> (\<exists>t. race (on tunnelSock (block_calls (u, v, w) 1 k)) (on tunnelSock (block_calls (x, y, z) mode b))
          (sip serverSock 9 s) t
        \<and> sent t tunnelSock = sent s tunnelSock
          @ block_packet (u, glued 5 (high x), glued (low x) (high y)) (low y) (high z)
          @ [low z, mode, b] @ be16 v @ be16 w @ [1, k])"
proof (intro conjI allI impI)
  let ?r = "sip serverSock 9 s"
  let ?p = "block_calls (x, y, z) mode b"
    and ?b1 = "[SendW [0x05], SendW (be16 u)]" and ?b2 = "[SendW (be16 v), SendW (be16 w), SendW [1], SendW [k]]"
  have open_r: "accepts ?r tunnelSock = []" "sent ?r = sent s" using assms(2) by (simp_all add: sip_def)
  show "ts_iter s = sends tunnelSock ?p ?r" by (rule ts_iter_block_calls [OF assms(1,3-5)])
  show "setBlock u v w k False s' = sends tunnelSock (block_calls (u, v, w) 1 k) s'"
    using assms(6) by (simp add: setBlock_calls)
  show "\<exists>bs \<in> shuffles (block_packet (u, v, w) 1 k) (block_packet (x, y, z) mode b).
      sent t tunnelSock = sent s tunnelSock @ bs"
    if "race (on tunnelSock (block_calls (u, v, w) 1 k)) (on tunnelSock ?p) ?r t" for t
    using race_keeps_orders [OF that refl refl open_r(1)] by (simp add: block_calls_payload open_r(2))
  let ?t = "sends tunnelSock ?b2 (sends tunnelSock ?p (sends tunnelSock ?b1 ?r))"
  have "race (on tunnelSock ?b1 @ on tunnelSock ?b2 @ []) (on tunnelSock ?p @ []) ?r ?t"
    by (intro race_left race_right) (rule over)
  moreover have "on tunnelSock ?b1 @ on tunnelSock ?b2 @ [] = on tunnelSock (block_calls (u, v, w) 1 k)"
    by (simp add: block_calls_def)
  ultimately have "race (on tunnelSock (block_calls (u, v, w) 1 k)) (on tunnelSock ?p) ?r ?t" by simp
  moreover have "sent ?t tunnelSock = sent s tunnelSock
      @ block_packet (u, glued 5 (high x), glued (low x) (high y)) (low y) (high z)
      @ [low z, mode, b] @ be16 v @ be16 w @ [1, k]"
    by (simp add: sends_open open_r block_calls_payload block_packet_def posbytes_def be16_glued emit_def)
      (simp add: be16_bytes)
  ultimately show "\<exists>t. race (on tunnelSock (block_calls (u, v, w) 1 k)) (on tunnelSock ?p) ?r t
      \<and> sent t tunnelSock = sent s tunnelSock
        @ block_packet (u, glued 5 (high x), glued (low x) (high y)) (low y) (high z)
        @ [low z, mode, b] @ be16 v @ be16 w @ [1, k]"
    by blast
qed

text \<open>The builder works at (300, 1, 2), the player places dirt at (1, 2, 3): the game server reads
  a block at (300, 1280, 256).\<close>

theorem interleaved_blocks_tear_witness:
  "\<exists>t. race (on tunnelSock (block_calls (300, 1, 2) 1 7)) (on tunnelSock (block_calls (1, 2, 3) 1 3))
      (sip serverSock 9 (client_sends (block_packet (1, 2, 3) 1 3))) t
    \<and> sent t tunnelSock = block_packet (300, 1280, 256) 2 0 @ [3, 1, 3, 0, 1, 0, 2, 1, 7]"
proof -
  let ?s = "client_sends (block_packet (1, 2, 3) 1 3)"
  have "status ?s = Running" "accepts ?s tunnelSock = []" "\<not> zPlace ?s" "\<not> paint ?s"
    "incoming serverSock ?s = block_packet (1, 2, 3) 1 3 @ []"
    by (simp_all add: client_sends_simps, simp add: client_sends_def start_def)
  from interleaved_blocks_tear [OF this, of 7 300 1 2 ?s]
  obtain t where "race (on tunnelSock (block_calls (300, 1, 2) 1 7)) (on tunnelSock (block_calls (1, 2, 3) 1 3))
      (sip serverSock 9 ?s) t"
    "sent t tunnelSock = sent ?s tunnelSock
      @ block_packet (300, glued 5 (high 1), glued (low 1) (high 2)) (low 2) (high 3)
      @ [low 3, 1, 3] @ be16 1 @ be16 2 @ [1, 7]"
    by auto
  moreover have "glued 5 (high 1) = 1280" "glued (low 1) (high 2) = 256"
    by (simp_all add: glued_def high_def low_def ld16_def ntohs_def)
  ultimately show ?thesis
    by (auto simp: client_sends_simps high_def low_def be16_def)
qed

end
