(* ===== verification/Duplex.thy ===== *)
theory Duplex
  imports Session ClientRelay
begin

text \<open>
  Both socket threads at once, with the builder polling beside them: what one direction's
  thread leaves alone of the other's, and the relay of both streams under every order of turns.
\<close>

section \<open>What the server thread leaves alone\<close>

definition unfollowed :: "world \<Rightarrow> bool" where
  "unfollowed s \<longleftrightarrow> (\<forall>i. player_array i \<longrightarrow> p_mode (players s i) \<noteq> 1 \<and> p_mode (players s i) \<noteq> 2)"

definition aside :: "world \<Rightarrow> world \<Rightarrow> bool" where
  "aside s t \<longleftrightarrow> (unfollowed s \<longrightarrow> unfollowed t \<and> segs t serverSock = segs s serverSock
     \<and> sent t tunnelSock = sent s tunnelSock \<and> accepts t tunnelSock = accepts s tunnelSock
     \<and> fucked t = fucked s \<and> hide t = hide s \<and> zPlace t = zPlace s \<and> paint t = paint s
     \<and> gimped t = gimped s \<and> paste t = paste s \<and> copy t = copy s
     \<and> q_start (cuboid t) = q_start (cuboid s) \<and> builderThread t = builderThread s)"

lemma aside_trans: "aside s t \<Longrightarrow> aside t u \<Longrightarrow> aside s u"
  by (auto simp: aside_def)

lemma aside_remark: "aside s t \<Longrightarrow> aside s (remark e t)"
  by (simp add: aside_def unfollowed_def remark_def)

lemma aside_recvW: "aside s t \<Longrightarrow> aside s (snd (snd (recvW tunnelSock n t)))"
  by (simp add: aside_def unfollowed_def recvW_def fresh_def case_prod_beta)

lemma aside_recv: "aside s t \<Longrightarrow> aside s (snd (snd (recv tunnelSock n t)))"
  by (simp add: aside_def unfollowed_def recv_def fresh_def case_prod_beta)

lemma aside_recvs: "aside s t \<Longrightarrow> aside s (snd (recvs tunnelSock cs t))"
proof (induction cs arbitrary: t)
  case (Cons c cs)
  have "aside s (snd (rcv tunnelSock c t))"
    using Cons.prems by (cases c) (simp_all add: aside_recvW aside_recv case_prod_beta)
  from Cons.IH [OF this] show ?case by (simp add: recvs_def case_prod_beta)
qed (simp add: recvs_def)

lemma aside_snd_call: "aside s t \<Longrightarrow> aside s (snd_call serverSock c t)"
  by (cases c) (simp_all add: aside_def unfollowed_def snd_call.simps sendW_def send_def case_prod_beta)

lemma aside_sends: "aside s t \<Longrightarrow> aside s (sends serverSock cs t)"
  by (induction cs arbitrary: t) (simp_all add: sends.simps aside_snd_call)

lemma aside_player:
  assumes f: "\<And>p. p_mode (f p) = p_mode p \<or> p_mode (f p) = 0" and "aside s t"
  shows "aside s (upd_player i f t)"
proof -
  have "unfollowed (t\<lparr>players := (players t)(i := f (players t i))\<rparr>)" if "unfollowed t"
    using that f [of "players t i"] by (auto simp: unfollowed_def)
  with assms(2) have "aside s (t\<lparr>players := (players t)(i := f (players t i))\<rparr>)"
    by (simp add: aside_def)
  then show ?thesis by (auto simp: upd_player_def Let_def remark_def aside_def unfollowed_def)
qed

lemma aside_trail: "player_array pid \<Longrightarrow> aside s t \<Longrightarrow> aside s (trail pid t)"
  by (cases "unfollowed s") (auto simp: aside_def unfollowed_def trail_off)

interpretation aside: server_turn aside
proof unfold_locales
  show "aside s s" for s by (simp add: aside_def)
  then show "aside s (snd (recvs tunnelSock cs s))" for cs s by (rule aside_recvs)
qed (erule aside_remark aside_recvW aside_sends | erule (1) aside_trail | rule aside_player; blast
  | simp add: aside_def unfollowed_def fresh_def)+

lemma aside_mc_iter: "aside s (mc_iter s)"
  by (rule aside.mc_iter) (rule aside_trans)

text \<open>
  C12: The game server cannot make the tunnel talk to it. While nobody is followed or plotted,
  no sequence of packets, well formed or not, makes the server thread send the game server
  anything, take a byte from the game client, start a building job or begin to follow a
  player.
\<close>

theorem game_server_gets_no_answer:
  assumes "unfollowed s"
  shows "sent ((mc_iter ^^ n) s) tunnelSock = sent s tunnelSock
    \<and> segs ((mc_iter ^^ n) s) serverSock = segs s serverSock
    \<and> paste ((mc_iter ^^ n) s) = paste s \<and> copy ((mc_iter ^^ n) s) = copy s
    \<and> (q_start (cuboid ((mc_iter ^^ n) s)) \<longleftrightarrow> q_start (cuboid s))
    \<and> unfollowed ((mc_iter ^^ n) s)"
proof -
  have "aside s ((mc_iter ^^ n) s)"
    by (induction n) (auto intro: aside.R_refl aside_trans aside_mc_iter)
  with assms show ?thesis by (simp add: aside_def)
qed

text \<open>A packet number the code does not know, a spawn cut short, and a lost connection.\<close>

theorem game_server_gets_no_answer_witness:
  "sent ((mc_iter ^^ 3) (start\<lparr>segs := (\<lambda>_. [])(tunnelSock := [[99, 7, 1, 65]])\<rparr>)) tunnelSock = []"
proof -
  let ?s = "start\<lparr>segs := (\<lambda>_. [])(tunnelSock := [[99, 7, 1, 65]])\<rparr>"
  have "unfollowed ?s" by (simp add: unfollowed_def start_def zero_player_def)
  from game_server_gets_no_answer [OF this, of 3] show ?thesis by (simp add: start_def)
qed

section \<open>What the client thread leaves alone\<close>

definition beside :: "world \<Rightarrow> world \<Rightarrow> bool" where
  "beside s t \<longleftrightarrow> segs t tunnelSock = segs s tunnelSock \<and> sent t serverSock = sent s serverSock
     \<and> accepts t serverSock = accepts s serverSock \<and> hax t = hax s \<and> cpeServer t = cpeServer s
     \<and> players t = players s \<and> lvlx t = lvlx s \<and> lvlz t = lvlz s \<and> lmap t = lmap s
     \<and> paste t = paste s \<and> copy t = copy s \<and> cuboid t = cuboid s
     \<and> builderThread t = builderThread s"

lemma beside_trans: "beside s t \<Longrightarrow> beside t u \<Longrightarrow> beside s u"
  by (simp add: beside_def)

lemma beside_rcv: "beside s t \<Longrightarrow> beside s (snd (rcv serverSock c t))"
  by (cases c) (simp_all add: beside_def recvW_def recv_def fresh_def case_prod_beta)

lemma beside_recvs: "beside s t \<Longrightarrow> beside s (snd (recvs serverSock cs t))"
  by (induction cs arbitrary: t) (simp_all add: recvs_def case_prod_beta beside_rcv)

lemma beside_snd_call: "beside s t \<Longrightarrow> beside s (snd_call tunnelSock c t)"
  by (cases c) (simp_all add: beside_def snd_call.simps sendW_def send_def case_prod_beta)

lemma beside_sends: "beside s t \<Longrightarrow> beside s (sends tunnelSock cs t)"
  by (induction cs arbitrary: t) (simp_all add: sends.simps beside_snd_call)

interpretation beside: client_turn beside
proof unfold_locales
  show "beside s s" for s by (simp add: beside_def)
  then show "beside s (snd (recvs serverSock cs s))" for cs s by (rule beside_recvs)
qed (erule beside_sends | simp add: beside_def remark_def fresh_def)+

text \<open>The handlers that do more than forward, where they only forward.\<close>

lemma beside_fields:
  "beside s (emit tunnelSock bs t) = beside s t" "beside s (sip serverSock n t) = beside s t"
  "beside s (snd (fresh n t)) = beside s t" "beside s (t\<lparr>user := u\<rparr>) = beside s t"
  by (simp_all add: beside_def emit_def sip_def fresh_def)

lemmas beside_simps = ts_forward_simps beside_fields beside.R_refl

lemma beside_position:
  assumes "ts_session one s" "readable [RecvW 1, RecvW 2, RecvW 2, RecvW 2, RecvW 1, RecvW 1] (segs s serverSock)"
  shows "beside s (ts_position s)"
  using assms by (simp add: beside_simps ts_position_def Let_def del: readable.simps One_nat_def)

lemma beside_setBlock:
  assumes "ts_session one s" "readable [RecvW 2, RecvW 2, RecvW 2, RecvW 1, RecvW 1] (segs s serverSock)"
  shows "beside s (ts_setBlock s)"
  using assms by (simp add: beside_simps ts_setBlock_def Let_def del: readable.simps One_nat_def)

lemma beside_chat:
  assumes s: "ts_session one s" "readable [RecvW 1, RecvW 64] (segs s serverSock)"
    and ok: "chat_ok (take 65 (incoming serverSock s))"
  shows "beside s (ts_chat s)"
proof -
  have "65 \<le> length (incoming serverSock s)" using readable_length [OF s(2)] by simp
  then have plain: "\<not> (cleanString (map f [0 ..< 64]) (take 64 (drop 1 (incoming serverSock s))) nxt ! 0 = 39
      \<and> 2 \<le> length (cstr (cleanString (map f [0 ..< 64]) (take 64 (drop 1 (incoming serverSock s))) nxt)))" for f nxt
    by (intro no_command) (use ok in \<open>auto simp: chat_ok_def Let_def drop_take\<close>)
  from s show ?thesis
    by (simp add: plain beside_simps ts_chat_def Let_def case_prod_beta del: readable.simps One_nat_def)
qed

text \<open>\<open>ExtEntry\<close> changes what the server thread does with later packets and is not allowed here.\<close>

definition settled_packet :: "bool \<Rightarrow> byte list \<Rightarrow> bool" where
  "settled_packet one p \<longleftrightarrow> ts_relayed one p \<and> hd p \<noteq> 0x11"

lemma layout_beside:
  "list_all (\<lambda>(i, cs). i = 0x11 \<or> (\<forall>one s. ts_session one s \<longrightarrow> readable cs (segs s serverSock)
      \<longrightarrow> ts_body_ok i (take (sum_list (map rwidth cs)) (incoming serverSock s))
      \<longrightarrow> beside s (the (map_of ts_handlers i) s))) ts_layout"
  by (simp add: ts_layout_def ts_handlers_def ts_body_ok_def beside_position beside_setBlock
      beside_chat beside.ts_forwarded del: readable.simps One_nat_def)

lemma beside_ts_iter:
  assumes "ts_session one s" "settled_packet one p" "incoming serverSock s = p @ rest"
  shows "beside s (ts_iter s)"
proof -
  from assms(2) have p: "ts_relayed one p" "hd p \<noteq> 0x11" by (simp_all add: settled_packet_def)
  show ?thesis using assms(1) ts_relayed_readable(1) [OF assms(1) p(1) assms(3)] assms(3)
    ts_relayed_readable(2) [OF assms(1) p(1) assms(3)]
  proof (rule ts_turn)
    fix i body cs h
    let ?s = "sip serverSock 1 s"
    assume turn: "p = i # body" "(i, cs) \<in> set ts_layout" "map_of ts_handlers i = Some h"
      "ts_iter s = h ?s" "ts_session one ?s" "incoming serverSock ?s = body @ rest"
      "length body = sum_list (map rwidth cs)" "readable cs (segs ?s serverSock)" "ts_body_ok i body"
    from turn(1) p(2) have "i \<noteq> 0x11" by simp
    with layout_beside turn(2) have "beside ?s (the (map_of ts_handlers i) ?s)"
      unfolding list_all_iff using turn(5-9) by fastforce
    moreover have "beside s ?s" by (simp add: beside_fields beside.R_refl)
    ultimately show ?thesis using turn(3,4) beside_trans by simp
  qed
qed

section \<open>All orders of turns\<close>

text \<open>No building job is waiting and the builder is between jobs.\<close>

definition polling :: "system \<Rightarrow> bool" where
  "polling g \<longleftrightarrow> bld g \<in> {PollPaste, PollCopy, PollCuboid} \<and> \<not> ps_start (paste (wld g))
     \<and> \<not> c_start (copy (wld g)) \<and> \<not> q_start (cuboid (wld g))"

fun take_turn :: "turn \<Rightarrow> system \<Rightarrow> system" where
  "take_turn Down g = g\<lparr>wld := mc_iter (wld g)\<rparr>"
| "take_turn Up g = g\<lparr>wld := ts_iter (wld g)\<rparr>"
| "take_turn Idle g = (let (b, s) = builder_step (bld g, wld g) in g\<lparr>bld := b, wld := s\<rparr>)"

definition down_ok :: "bool \<Rightarrow> world \<Rightarrow> system \<Rightarrow> bool" where
  "down_ok one w g \<longleftrightarrow> session one w (wld g) \<and> polling g \<and> logged g \<and> builderThread (wld g)"

lemma session_unfollowed: "session one w s \<Longrightarrow> unfollowed s"
  by (simp add: session_def unfollowed_def)

lemma aside_keeps:
  assumes "aside s t" "unfollowed s"
  shows "segs t serverSock = segs s serverSock" "sent t tunnelSock = sent s tunnelSock"
    "status t = Running \<Longrightarrow> ts_session one s \<Longrightarrow> ts_session one t"
  using assms by (simp_all add: aside_def ts_session_def)

lemma beside_keeps:
  assumes "beside s t"
  shows "segs t tunnelSock = segs s tunnelSock" "sent t serverSock = sent s serverSock"
    "status t = Running \<Longrightarrow> session one w s \<Longrightarrow> session one w t"
  using assms by (simp_all add: beside_def session_def)

lemma polling_keeps:
  "aside (wld g) s \<Longrightarrow> unfollowed (wld g) \<Longrightarrow> polling g \<Longrightarrow> polling (g\<lparr>wld := s\<rparr>)"
  "beside (wld g) s \<Longrightarrow> polling g \<Longrightarrow> polling (g\<lparr>wld := s\<rparr>)"
  by (auto simp: aside_def beside_def polling_def)

lemma polling_step:
  assumes "polling g"
  shows "\<exists>b. b \<in> {PollPaste, PollCopy, PollCuboid}
    \<and> (builder_step (bld g, wld g) = (b, wld g) \<or> builder_step (bld g, wld g) = (b, remark (Slept 2) (wld g)))"
  using assms by (auto simp: polling_def)

interpretation both_ways: full_duplex take_turn "relayed one w" "down_ok one w"
    "\<lambda>g. incoming tunnelSock (wld g)" "\<lambda>g. sent (wld g) serverSock"
    "settled_packet one'" "\<lambda>g. ts_session one' (wld g)"
    "\<lambda>g. incoming serverSock (wld g)" "\<lambda>g. sent (wld g) tunnelSock"
  for one w one'
proof unfold_locales
  fix g :: system and p rest
  assume g: "down_ok one w g" and p: "relayed one w p" and inp: "incoming tunnelSock (wld g) = p @ rest"
  note run = mc_iter_relays [OF _ p inp] aside_mc_iter [of "wld g"]
  have un: "unfollowed (wld g)" using g session_unfollowed by (auto simp: down_ok_def)
  show "down_ok one w (take_turn Down g)"
    using g run un polling_keeps(1) by (auto simp: down_ok_def aside_def)
  show "incoming tunnelSock (wld (take_turn Down g)) = rest"
    "sent (wld (take_turn Down g)) serverSock = sent (wld g) serverSock @ p"
    using g run by (simp_all add: down_ok_def)
  assume up: "ts_session one' (wld g)"
  show "ts_session one' (wld (take_turn Down g))
      \<and> incoming serverSock (wld (take_turn Down g)) = incoming serverSock (wld g)
      \<and> sent (wld (take_turn Down g)) tunnelSock = sent (wld g) tunnelSock"
    using aside_keeps [OF run(2) un] up g run(1) sessionD(2) by (simp add: down_ok_def) blast
next
  fix g :: system and p rest
  assume u: "ts_session one' (wld g)" and p: "settled_packet one' p"
    and inp: "incoming serverSock (wld g) = p @ rest"
  have run: "ts_session one' (ts_iter (wld g)) \<and> incoming serverSock (ts_iter (wld g)) = rest
      \<and> sent (ts_iter (wld g)) tunnelSock = sent (wld g) tunnelSock @ p"
    by (rule ts_iter_relays) (use u p inp in \<open>simp_all add: settled_packet_def\<close>)
  then show "ts_session one' (wld (take_turn Up g))"
    "incoming serverSock (wld (take_turn Up g)) = rest"
    "sent (wld (take_turn Up g)) tunnelSock = sent (wld g) tunnelSock @ p"
    by simp_all
  assume g: "down_ok one w g"
  note keep = beside_ts_iter [OF u p inp]
  have "status (ts_iter (wld g)) = Running" using run ts_sessionD(2) by blast
  with beside_keeps [OF keep] g polling_keeps(2) [OF keep] keep
  show "down_ok one w (take_turn Up g)
      \<and> incoming tunnelSock (wld (take_turn Up g)) = incoming tunnelSock (wld g)
      \<and> sent (wld (take_turn Up g)) serverSock = sent (wld g) serverSock"
    by (simp add: down_ok_def beside_def)
next
  fix g :: system
  assume g: "down_ok one w g" and u: "ts_session one' (wld g)"
  from g polling_step [of g] obtain b where "b \<in> {PollPaste, PollCopy, PollCuboid}"
    "builder_step (bld g, wld g) = (b, wld g) \<or> builder_step (bld g, wld g) = (b, remark (Slept 2) (wld g))"
    by (auto simp: down_ok_def)
  with g u show "down_ok one w (take_turn Idle g) \<and> ts_session one' (wld (take_turn Idle g))
      \<and> incoming tunnelSock (wld (take_turn Idle g)) = incoming tunnelSock (wld g)
      \<and> sent (wld (take_turn Idle g)) serverSock = sent (wld g) serverSock
      \<and> incoming serverSock (wld (take_turn Idle g)) = incoming serverSock (wld g)
      \<and> sent (wld (take_turn Idle g)) tunnelSock = sent (wld g) tunnelSock"
    by (auto simp: down_ok_def polling_def frame_simps simp del: builder_step.simps)
       (auto simp: remark_def)
qed

lemma take_turn_move: "logged g \<Longrightarrow> builderThread (wld g) \<Longrightarrow> move g (take_turn t g)"
  by (cases t) (auto intro: move.intros simp: case_prod_beta simp del: builder_step.simps)

lemma turns_are_moves:
  assumes "down_ok one w g" "ts_session one' (wld g)"
    and "list_all (relayed one w) ps" "list_all (settled_packet one') qs"
    and "incoming tunnelSock (wld g) = concat ps @ r" "incoming serverSock (wld g) = concat qs @ q"
  shows "count_list ts Down \<le> length ps \<Longrightarrow> count_list ts Up \<le> length qs
    \<Longrightarrow> moves g (fold take_turn ts g)"
proof (induction ts rule: rev_induct)
  case (snoc t ts)
  then have le: "count_list ts Down \<le> length ps" "count_list ts Up \<le> length qs"
    by (simp_all split: if_splits)
  from both_ways.both [OF assms le] have "down_ok one w (fold take_turn ts g)" by blast
  then have "move (fold take_turn ts g) (fold take_turn (ts @ [t]) g)"
    by (simp add: down_ok_def take_turn_move)
  with snoc.IH [OF le] show ?case by (rule one_more)
qed (simp add: none)

text \<open>
  C1: In a plain session with no building job under way, both directions work at once: in
  whatever order the server thread, the client thread and the polling builder take their turns,
  what has reached the game client is the packets of the game server taken so far, and what has
  reached the game server is the packets of the client taken so far, byte for byte, and neither
  thread puts anything of its own into the other's stream.
  The packets are those of the tables \<open>mc_layout\<close> and \<open>ts_layout\<close>, \<open>ExtEntry\<close> of the client
  excepted, and those with plain \<open>recv\<close> fields only when all arrives in one segment.
\<close>

theorem both_streams_are_relayed:
  assumes "session one (wld g) (wld g)" and "ts_session one' (wld g)"
    and "polling g" and "logged g" and "builderThread (wld g)"
    and "list_all (relayed one (wld g)) ps" and "list_all (settled_packet one') qs"
    and "incoming tunnelSock (wld g) = concat ps @ r" and "incoming serverSock (wld g) = concat qs @ q"
    and "count_list ts Down \<le> length ps" and "count_list ts Up \<le> length qs"
  shows "moves g (fold take_turn ts g)
    \<and> sent (wld (fold take_turn ts g)) serverSock
        = sent (wld g) serverSock @ concat (take (count_list ts Down) ps)
    \<and> sent (wld (fold take_turn ts g)) tunnelSock
        = sent (wld g) tunnelSock @ concat (take (count_list ts Up) qs)"
proof -
  have g: "down_ok one (wld g) g" using assms(1,3-5) by (simp add: down_ok_def)
  show ?thesis
    using both_ways.both [OF g assms(2,6-11)] turns_are_moves [OF g assms(2,6-11)] by blast
qed

text \<open>
  A ping, a player who walks and a chat line in four segments, and a block, a position and a
  chat line the other way, turn by turn, with the builder in between.
\<close>

definition walk_stream :: "byte list list" where
  "walk_stream = [[1], [8, 3, 0, 64, 0, 32, 0, 96, 7, 9], 13 # 3 # replicate 64 72]"

definition walk_world :: world where
  "walk_world = start\<lparr>segs := (\<lambda>_. [])(tunnelSock :=
     [[1, 8, 3], [0], [64, 0, 32, 0, 96, 7, 9, 13], 3 # replicate 64 72])\<rparr>"

definition play_stream :: "byte list list" where
  "play_stream = [[5, 0, 1, 0, 2, 0, 3, 1, 4], [8, 255, 0, 64, 0, 32, 0, 96, 7, 9],
     13 # 0 # replicate 64 72]"

definition play_world :: world where
  "play_world = start\<lparr>fucked := True, segs := (\<lambda>_. [])(serverSock :=
     [[5, 0], [1, 0, 2, 0, 3, 1, 4, 8], [255, 0, 64, 0, 32, 0, 96, 7, 9, 13], 0 # replicate 64 72])\<rparr>"

definition duplex_system :: system where
  "duplex_system = \<lparr>bld = PollPaste, logged = True, wld = walk_world
     \<lparr>fucked := True, builderThread := True,
      segs := (segs walk_world)(serverSock := segs play_world serverSock)\<rparr>\<rparr>"

theorem both_streams_are_relayed_witness:
  "sent (wld (fold take_turn [Up, Down, Idle, Down, Up, Idle, Up, Idle] duplex_system)) tunnelSock
     = concat play_stream
   \<and> sent (wld (fold take_turn [Up, Down, Idle, Down, Up, Idle, Up, Idle] duplex_system)) serverSock
     = concat (take 2 walk_stream)"
proof -
  let ?w = "wld duplex_system" and ?ts = "[Up, Down, Idle, Down, Up, Idle, Up, Idle]"
  have "session False ?w ?w" "ts_session False ?w" "polling duplex_system" "logged duplex_system"
    "builderThread ?w"
    by (simp_all add: session_def ts_session_def polling_def duplex_system_def walk_world_def
        start_def no_CPE_def zero_player_def zero_paste_def zero_copy_def zero_cuboid_def)
  moreover have "list_all (relayed False ?w) walk_stream"
    by (simp add: walk_stream_def mc_layout_def body_ok_def)
  moreover have "list_all (settled_packet False) play_stream"
    by (simp add: settled_packet_def play_stream_def ts_layout_def ts_body_ok_def chat_plain nth_Cons')
  moreover have "incoming tunnelSock ?w = concat walk_stream @ []"
    by (simp add: duplex_system_def walk_world_def walk_stream_def)
  moreover have "incoming serverSock ?w = concat play_stream @ []"
    by (simp add: duplex_system_def play_world_def play_stream_def)
  moreover have "count_list ?ts Down \<le> length walk_stream" "count_list ?ts Up \<le> length play_stream"
    by (simp_all add: walk_stream_def play_stream_def)
  ultimately have "sent (wld (fold take_turn ?ts duplex_system)) serverSock
        = sent ?w serverSock @ concat (take (count_list ?ts Down) walk_stream)
      \<and> sent (wld (fold take_turn ?ts duplex_system)) tunnelSock
        = sent ?w tunnelSock @ concat (take (count_list ?ts Up) play_stream)"
    using both_streams_are_relayed by blast
  moreover have "sent ?w k = []" for k by (simp add: duplex_system_def walk_world_def start_def)
  moreover have "count_list ?ts Down = 2" "count_list ?ts Up = length play_stream"
    by (simp_all add: play_stream_def)
  ultimately show ?thesis by (simp del: fold.simps count_list.simps)
qed

end
