(* ===== verification/Spec2Isabelle.thy ===== *)
theory Spec2Isabelle
  imports ChunkCommands Jokes Races Duplex
begin

text \<open>
  lavatunnel is a program that sits between a Classicube game client and a game server. The player
  connects his client to the tunnel, the tunnel logs in to the server, and everything either side
  sends is passed on to the other, changed on the way where the player asked for it: he types
  commands into the chat, and a builder works through boxes of blocks for him. This development
  models the program's own C code under \<open>src/\<close> and proves what it does.

  \<^bold>\<open>Parts of the program.\<close> \<open>main.c\<close> reads the configuration and the text files, logs in at the
  web site or takes the saved connection, and starts \<open>tunnelServer\<close> (\<open>server.c\<close>), the thread that
  serves the client on \<open>serverSock\<close>. When the client has logged in, that thread starts
  \<open>mcConnect\<close> (\<open>client.c\<close>), which serves the game server on \<open>tunnelSock\<close>, and \<open>builder\<close>
  (\<open>build.c\<close>). Chat lines with a quote go to \<open>commandFunc\<close> (\<open>command.c\<close>), as do lines typed at the
  console. All share the helpers of \<open>helper.c\<close> and the globals of \<open>tunnel.h\<close>, without locks:
  commands set flags and points, the client's thread collects points from placed blocks, the
  builder polls the flags, the server's thread keeps a copy of the level that the builder reads.

  \<^bold>\<open>Conventions.\<close> A \<open>char\<close> or \<open>short\<close> is a \<open>byte\<close> or \<open>u16\<close> word, read with \<open>uint\<close> or \<open>sint\<close> as
  the declaration says; \<open>int\<close> arithmetic that can wrap is \<open>i32\<close>. An array is a byte list of its
  size, a C string the part before its first NUL (\<open>cstr\<close>). A C function that changes globals is
  a function from the old to the new \<open>world\<close>. \<open>status\<close> tells whether the process runs, has called
  \<open>exit\<close>, or has made an access the model does not go beyond (a null file, an index outside the
  heap). A write beyond a stack or global array is recorded in \<open>remarks\<close> as an \<open>Overrun\<close>, an access
  outside the player table as a \<open>BadIndex\<close>, and the model goes on as if the neighbouring memory were
  not used; bytes without a defined value come from the stream \<open>indet\<close>, about which nothing is assumed.

  \<^bold>\<open>Theories of the model.\<close>
  \<^item> \<open>Prelude\<close>: word types, byte order, array stores, lists cut into fields.
  \<^item> \<open>CStrings\<close>: the string routines of \<open>helper.c\<close> and of the C library it uses.
  \<^item> \<open>Wire\<close>: \<open>recvW\<close> and \<open>sendW\<close> of \<open>helper.c\<close> as loops over the segments that arrive and over what
    each send accepts.
  \<^item> \<open>World\<close>: the two connections, the globals and structs of \<open>tunnel.h\<close> and \<open>CPE.h\<close>, and the runs
    of receive and send calls (\<open>recvs\<close>, \<open>sends\<close>) the handlers consist of.
  \<^item> \<open>Level\<close>: \<open>calculateOffset\<close>, \<open>levelData\<close>, \<open>levelFinalize\<close>, \<open>levelFastFinalize\<close>.
  \<^item> \<open>Outgoing\<close>: the packets the tunnel makes itself, of \<open>helper.c\<close> and \<open>tunnelMsg\<close>.
  \<^item> \<open>Blocks\<close>: \<open>getBid\<close> of \<open>build.c\<close>. \<open>Commands\<close>: \<open>commandFunc\<close> of \<open>command.c\<close>, one definition per command.
  \<^item> \<open>FromServer\<close>: \<open>mcConnect\<close>, one definition per packet and \<open>mc_iter\<close> for a turn of its loop.
  \<^item> \<open>FromClient\<close>: \<open>tunnelServer\<close>, in the same way, with \<open>ts_iter\<close>.
  \<^item> \<open>Builder\<close>: \<open>builder\<close> as a machine of one loop test per step, \<open>builder_step\<close>.
  \<^item> \<open>Startup\<close>: \<open>main\<close> up to the threads, \<open>mcLogin\<close> and \<open>apiInfo\<close>, and the console's command line.
  \<^item> \<open>Session\<close>: the threads and the console together, \<open>move\<close> for one turn of any of them.

  \<^bold>\<open>Theories of the proofs.\<close>
  \<^item> \<open>ServerRelay\<close>, \<open>ClientRelay\<close>: what each handler makes of its packet. In a plain session a whole
    stream comes through, packet by packet, but for the few kinds the code drops or alters; the
    network may cut it anywhere but inside a field read by a plain \<open>recv\<close>, and one cut there is shown
    to lose the packet boundary. Both loops interpret the locale \<open>segmented_relay\<close> of \<open>World\<close>.
  \<^item> \<open>Duplex\<close>: each socket thread leaves the other's connection alone, so both streams come through
    in every order of turns; the locale \<open>full_duplex\<close> of \<open>Wire\<close> combines the two relays.
  \<^item> \<open>ServerAnswers\<close>: what single packets of the server do to the copy of the level, to a followed
    player, to restrictions and entities, and how the session ends.
  \<^item> \<open>Frames\<close>: the locales \<open>client_turn\<close>, \<open>server_turn\<close> and, for both, \<open>preserved\<close>: a relation that
    every step of the relaying handlers respects. \<open>Duplex\<close> interprets the first two, \<open>Progress\<close> the
    last to bound the turns of both socket threads by the bytes still to come.
  \<^item> \<open>Walk\<close>: the locale \<open>box_walk\<close>, three nested loops run as a machine amount to a fold over the cells
    of a box. \<open>CuboidJob\<close> and \<open>ChunkJobs\<close> interpret it on the builder's cuboid, paste and copy,
    \<open>ChunkProps\<close> states what the latter two do to files and how they invert each other.
  \<^item> \<open>Points\<close>: interprets \<open>preserved\<close> for the flags of the building commands; their invariant over all runs.
  \<^item> \<open>ChatLine\<close>, \<open>Building\<close>: a line of chat as a command, and \<open>z\<close> from the typed line to the filled box.
    \<open>ChunkCommands\<close>: \<open>copy\<close> and \<open>paste\<close> from the typed lines to the placed blocks.
  \<^item> \<open>Toggles\<close>: \<open>hide\<close>, \<open>paint\<close>, \<open>gimp\<close>, a mistyped block name, \<open>cancel\<close> during a cuboid.
  \<^item> \<open>Races\<close>: the single send calls of two threads in any order: on two connections each gets
    all that was sent to it, on one each thread's bytes stay in order but packets are torn.
  \<^item> \<open>StartupProps\<close>: the files written and read at start-up. \<open>Settings\<close>: the locale \<open>lasting\<close>, which
    extends \<open>preserved\<close> to every step of every thread and the console, and what follows for what
    \<open>main\<close> has read. \<open>Jokes\<close>: the gimp file, from start-up to the lines of a gimped player.

  \<^bold>\<open>Bounds and fuel.\<close> No definition has fuel. The loops of \<open>recvW\<close> and \<open>sendW\<close> end because every call
  that does not fail moves at least one byte; a socket thread is iterated by the turn, and
  \<open>server_thread_ends\<close> and \<open>client_thread_ends\<close> give the number of turns that is enough. The
  builder is iterated by the step, and its jobs are shown to end for boxes up to 32766, the
  largest end a counter of type \<open>short\<close> can pass; \<open>copy_then_paste\<close> asks for at most 8994 cells,
  what is left of the 9000 bytes \<open>paste\<close> reads after the six of its header.

  \<^bold>\<open>Arguments of the model.\<close> zlib is the functions \<open>inflate\<close> and \<open>inflateEnd\<close> of the state; libcurl and
  jsmn are the arguments \<open>web\<close> and \<open>jsmn\<close> of the start-up; the values libconfig finds are the record
  \<open>config\<close>; \<open>rand()\<close> is a stream. The witnesses instantiate them by concrete functions.

  \<^bold>\<open>Not modelled.\<close> Screen output and the waiting for keys (curses); the creation of sockets and threads
  beyond their success or failure; receives and stores of two threads interleaved inside a turn,
  since a turn of a thread is one step of \<open>move\<close> (only send calls are interleaved, in \<open>Races\<close>);
  the time a \<open>Sleep\<close> takes, which is recorded only.
  \<open>levelData2\<close> in \<open>client.c\<close>, \<open>mcParse\<close> and \<open>jsoneq\<close> in \<open>main.c\<close> have no caller. The libraries under
  \<open>src/libs\<close> are third-party code.
\<close>

end
